(* ===== verification/Go_Prelude.thy ===== *)
theory Go_Prelude
  imports
    Complex_Main
    "HOL-Library.Word"
    "HOL-Library.AList"
    "HOL-Library.Multiset"
    "HOL-Library.Char_ord"
    "HOL-Library.List_Lexorder"
    "HOL-Library.Signed_Division"
begin

text \<open>
  Prelude of the development: the Go notions every component uses, and the generic
  lemmas about them.

  \<^item> A Go map is an association list with distinct keys (\<open>go_map\<close>). The list order
    stands for the order in which the runtime happens to enumerate the map: theorems
    quantify over the list, hence over every enumeration order. Lookup is \<open>map_of\<close>,
    assignment is \<open>AList.update\<close>, \<open>delete\<close> is \<open>AList.delete\<close>.
  \<^item> A \<open>range\<close> loop over a map or a slice is \<open>fold\<close> over the list.
  \<^item> \<open>go_rem\<close> and \<open>go_quot\<close> are Go's integer remainder and division, which truncate
    towards zero. The code's \<open>int\<close> values are HOL integers, except where the wrap-around
    of the 64-bit type matters (the partitioning hash), where they are words.
  \<^item> Times and durations (\<open>time.Time\<close>, \<open>time.Duration\<close>) are integers counting
    nanoseconds.
  \<^item> Byte slices and strings are \<open>string\<close>, one \<open>char\<close> for each byte.
\<close>

named_theorems gomap_intro \<open>operations that keep the keys of a map distinct\<close>
named_theorems gomap_lookup \<open>what a lookup returns after an operation\<close>
named_theorems model_inv \<open>operations that preserve a component invariant\<close>

type_synonym u64 = "64 word"
type_synonym bytes = string
type_synonym ('k, 'v) gomap = "('k \<times> 'v) list"

section \<open>Go maps as association lists\<close>

abbreviation go_keys :: "('k, 'v) gomap \<Rightarrow> 'k list" where
  "go_keys m \<equiv> map fst m"

abbreviation go_map :: "('k, 'v) gomap \<Rightarrow> bool" where
  "go_map m \<equiv> distinct (map fst m)"

text \<open>\<open>m[k]\<close> used as a value: the zero value of the element type when \<open>k\<close> is absent.\<close>

definition go_get :: "'v \<Rightarrow> ('k, 'v) gomap \<Rightarrow> 'k \<Rightarrow> 'v" where
  "go_get zero m k = (case map_of m k of None \<Rightarrow> zero | Some v \<Rightarrow> v)"

definition go_has :: "('k, 'v) gomap \<Rightarrow> 'k \<Rightarrow> bool" where
  "go_has m k = (map_of m k \<noteq> None)"

lemma go_map_update [gomap_intro, simp]: "go_map m \<Longrightarrow> go_map (AList.update k v m)"
  by (rule distinct_update)

lemma go_map_delete [gomap_intro, simp]: "go_map m \<Longrightarrow> go_map (AList.delete k m)"
  by (rule distinct_delete)

lemma go_map_filter [gomap_intro, simp]: "go_map m \<Longrightarrow> go_map (filter P m)"
  by (induction m) auto

lemma map_of_AList_update [gomap_lookup, simp]:
  "map_of (AList.update k v m) = (map_of m)(k \<mapsto> v)"
  by (simp add: update_conv')

lemma map_of_AList_delete [gomap_lookup, simp]:
  "map_of (AList.delete k m) = (map_of m)(k := None)"
  by (simp add: delete_conv')

lemma go_get_update [gomap_lookup]:
  "go_get z (AList.update k v m) k' = (if k' = k then v else go_get z m k')"
  by (simp add: go_get_def)

lemma keys_update: "set (go_keys (AList.update k v m)) = insert k (set (go_keys m))"
  by (induction m) auto

lemma keys_delete: "set (go_keys (AList.delete k m)) = set (go_keys m) - {k}"
  by (auto simp: AList.delete_eq)

lemma map_of_in_keys: "map_of m k = Some v \<Longrightarrow> k \<in> set (go_keys m)"
  by (metis domI dom_map_of_conv_image_fst set_map)

lemma map_of_None_keys: "map_of m k = None \<longleftrightarrow> k \<notin> set (go_keys m)"
  by (simp add: map_of_eq_None_iff)

lemma go_map_lookup_iff: "go_map m \<Longrightarrow> (map_of m k = Some v) = ((k, v) \<in> set m)"
  by (rule map_of_eq_Some_iff)

lemma length_update_old:
  "map_of m k \<noteq> None \<Longrightarrow> length (AList.update k v m) = length m"
  by (induction m) auto

lemma length_update_new:
  "map_of m k = None \<Longrightarrow> length (AList.update k v m) = Suc (length m)"
  by (induction m) (auto split: if_splits)

lemma update_append_new: "k \<notin> set (go_keys m) \<Longrightarrow> AList.update k v m = m @ [(k, v)]"
  by (induction m) auto

text \<open>Two enumerations of the same map agree on every lookup.\<close>

lemma map_of_mset_cong:
  assumes "go_map m" and "mset m = mset m'"
  shows "map_of m = map_of m'"
proof -
  have "go_map m'"
    using assms by (metis mset_map mset_eq_imp_distinct_iff)
  moreover have "set m = set m'" using assms(2) by (rule mset_eq_setD)
  ultimately show ?thesis using assms(1) by (simp add: map_of_inject_set)
qed

lemma filter_map_of:
  "go_map m \<Longrightarrow> map_of (filter (\<lambda>(k, v). P k v) m) k =
     (case map_of m k of Some v \<Rightarrow> if P k v then Some v else None | None \<Rightarrow> None)"
  by (induction m) (auto split: option.splits simp: map_of_eq_None_iff image_iff)

lemma map_of_map_vals:
  "map_of (map (\<lambda>(k, v). (k, f k v)) m) k = map_option (f k) (map_of m k)"
  by (induction m) auto

lemma keys_map_vals [simp]: "map (fst \<circ> (\<lambda>(k, v). (k, f k v))) m = map fst m"
  by (induction m) auto

section \<open>Integer division\<close>

definition go_quot :: "int \<Rightarrow> int \<Rightarrow> int" where
  "go_quot a b = a sdiv b"

definition go_rem :: "int \<Rightarrow> int \<Rightarrow> int" where
  "go_rem a b = a smod b"

lemma go_rem_nonneg: "0 \<le> a \<Longrightarrow> 0 < b \<Longrightarrow> go_rem a b = a mod b"
  by (simp add: go_rem_def signed_modulo_int_def signed_divide_int_def sgn_if minus_div_mult_eq_mod)

lemma go_rem_range: "0 \<le> a \<Longrightarrow> 0 < b \<Longrightarrow> 0 \<le> go_rem a b \<and> go_rem a b < b"
  by (simp add: go_rem_nonneg)

lemma go_quot_nonneg: "0 \<le> a \<Longrightarrow> 0 < b \<Longrightarrow> go_quot a b = a div b"
  by (simp add: go_quot_def signed_divide_int_def sgn_if)

section \<open>Lists\<close>

text \<open>Swapping two cells, as \<open>arr[i], arr[j] = arr[j], arr[i]\<close> does.\<close>

definition swap_cells :: "nat \<Rightarrow> nat \<Rightarrow> 'a list \<Rightarrow> 'a list" where
  "swap_cells i j xs = xs[i := xs ! j, j := xs ! i]"

lemma length_swap_cells [simp]: "length (swap_cells i j xs) = length xs"
  by (simp add: swap_cells_def)

lemma mset_swap_cells [simp]:
  "i < length xs \<Longrightarrow> j < length xs \<Longrightarrow> mset (swap_cells i j xs) = mset xs"
  unfolding swap_cells_def by (metis list_update_id list_update_swap mset_swap)

lemma fold_invariant_mem:
  assumes "P s" and "\<And>x s. x \<in> set xs \<Longrightarrow> P s \<Longrightarrow> P (f x s)"
  shows "P (fold f xs s)"
  using assms by (induction xs arbitrary: s) auto

lemma take_removeAll_notin: "x \<notin> set (take n xs) \<Longrightarrow> take n (removeAll x xs) = take n xs"
proof (induction xs arbitrary: n)
  case (Cons y ys)
  then show ?case by (cases n) auto
qed simp

section \<open>Machines that keep an invariant\<close>

text \<open>
  The contract most components have: a step function over their events and an invariant
  that the initial states satisfy and every admissible event keeps. The consequence is
  proved once: the invariant holds after every run of admissible events.
\<close>

locale invariant_machine =
  fixes step :: "'e \<Rightarrow> 's \<Rightarrow> 's"
    and ok :: "'e \<Rightarrow> bool"
    and inv :: "'s \<Rightarrow> bool"
  assumes step_inv: "inv s \<Longrightarrow> ok e \<Longrightarrow> inv (step e s)"
begin

lemma run_inv: "inv s \<Longrightarrow> list_all ok es \<Longrightarrow> inv (fold step es s)"
  by (induction es arbitrary: s) (auto intro: step_inv)

lemma run_inv_prefix:
  "inv s \<Longrightarrow> list_all ok es \<Longrightarrow> es = xs @ ys \<Longrightarrow> inv (fold step xs s)"
  by (auto intro: run_inv)

end

text \<open>
  A machine with a count of something that must happen at most once along a run: a flag
  that only ever rises, and an output that is produced only on the step that raises it.
\<close>

locale once_machine =
  fixes step :: "'e \<Rightarrow> 's \<Rightarrow> 's \<times> 'o list"
    and fired :: "'s \<Rightarrow> bool"
    and hit :: "'o \<Rightarrow> bool"
  assumes keeps_fired: "fired s \<Longrightarrow> fired (fst (step e s))"
    and silent_after: "fired s \<Longrightarrow> filter hit (snd (step e s)) = []"
    and fires_once: "length (filter hit (snd (step e s))) \<le> 1"
    and firing_sets: "filter hit (snd (step e s)) \<noteq> [] \<Longrightarrow> fired (fst (step e s))"
begin

primrec run :: "'e list \<Rightarrow> 's \<Rightarrow> 's \<times> 'o list" where
  "run [] s = (s, [])"
| "run (e # es) s = (let (s1, o1) = step e s; (s2, o2) = run es s1 in (s2, o1 @ o2))"

lemma run_after_fired: "fired s \<Longrightarrow> filter hit (snd (run es s)) = []"
proof (induction es arbitrary: s)
  case (Cons e es)
  then show ?case
    using keeps_fired [OF Cons.prems, of e] silent_after [OF Cons.prems, of e]
    by (auto simp: case_prod_beta Let_def)
qed simp

lemma run_at_most_once: "length (filter hit (snd (run es s))) \<le> 1"
proof (induction es arbitrary: s)
  case (Cons e es)
  show ?case
  proof (cases "filter hit (snd (step e s)) = []")
    case True
    then show ?thesis using Cons.IH [of "fst (step e s)"] by (simp add: case_prod_beta Let_def)
  next
    case False
    then have "filter hit (snd (run es (fst (step e s)))) = []"
      by (intro run_after_fired firing_sets)
    then show ?thesis using fires_once [of e s] by (simp add: case_prod_beta Let_def)
  qed
qed simp

end

end
