(* ===== verification/Go_Text.thy ===== *)
theory Go_Text
  imports Go_Prelude "HOL-Library.Sublist"
begin

text \<open>
  The text functions of the Go standard library that the program calls: decimal printing
  and scanning (\<open>fmt\<close>, \<open>strconv\<close>), splitting, joining and trimming (\<open>strings\<close>), the
  decoding of a string into runes (what \<open>range\<close> over a string does) and what
  \<open>encoding/json\<close> does to a string that is not valid UTF-8. Strings are byte sequences.
\<close>

section \<open>Decimal numbers\<close>

definition digit_char :: "nat \<Rightarrow> char" where
  "digit_char d = char_of (48 + d)"

fun dec :: "nat \<Rightarrow> string" where
  "dec n = (if n < 10 then [digit_char n] else dec (n div 10) @ [digit_char (n mod 10)])"

declare dec.simps [simp del]

text \<open>\<open>%d\<close> of a Go \<open>int\<close> and of a \<open>uint64\<close>.\<close>

definition dec_int :: "int \<Rightarrow> string" where
  "dec_int i = (if i < 0 then CHR ''-'' # dec (nat (- i)) else dec (nat i))"

definition dec_u64 :: "u64 \<Rightarrow> string" where
  "dec_u64 w = dec (unat w)"

text \<open>\<open>%0wd\<close> pads with zeros on the left, \<open>%-ws\<close> with blanks on the right.\<close>

definition pad_zero :: "nat \<Rightarrow> string \<Rightarrow> string" where
  "pad_zero w s = replicate (w - length s) (CHR ''0'') @ s"

definition pad_right :: "nat \<Rightarrow> string \<Rightarrow> string" where
  "pad_right w s = s @ replicate (w - length s) (CHR '' '')"

definition digit_val :: "char \<Rightarrow> nat" where
  "digit_val c = of_char c - 48"

definition is_digit :: "char \<Rightarrow> bool" where
  "is_digit c = (48 \<le> (of_char c :: nat) \<and> (of_char c :: nat) \<le> 57)"

definition undec :: "string \<Rightarrow> nat" where
  "undec s = foldl (\<lambda>n c. 10 * n + digit_val c) 0 s"

lemma of_char_digit [simp]: "d < 10 \<Longrightarrow> of_char (digit_char d) = (48 + d :: nat)"
  by (simp add: digit_char_def of_char_of)

lemma digit_val_digit [simp]: "d < 10 \<Longrightarrow> digit_val (digit_char d) = d"
  by (simp add: digit_val_def)

lemma is_digit_digit [simp]: "d < 10 \<Longrightarrow> is_digit (digit_char d)"
  by (simp add: is_digit_def)

lemma undec_snoc: "undec (s @ [c]) = 10 * undec s + digit_val c"
  by (simp add: undec_def)

lemma undec_dec [simp]: "undec (dec n) = n"
proof (induction n rule: dec.induct)
  case (1 n)
  then show ?case
    by (subst dec.simps) (auto simp: undec_snoc undec_def)
qed

lemma dec_inject [simp]: "dec m = dec n \<longleftrightarrow> m = n"
  by (metis undec_dec)

lemma dec_nonempty [simp]: "dec n \<noteq> []"
  by (subst dec.simps) simp

lemma dec_digits: "c \<in> set (dec n) \<Longrightarrow> is_digit c"
proof (induction n rule: dec.induct)
  case (1 n)
  then show ?case
    by (subst (asm) (2) dec.simps) (auto split: if_splits)
qed

lemma digit_val_zero [simp]: "digit_val (CHR ''0'') = 0"
  by (simp add: digit_val_def)

lemma undec_zeros: "undec (replicate k (CHR ''0'') @ s) = undec s"
  by (induction k) (simp_all add: undec_def)

lemma undec_pad_zero [simp]: "undec (pad_zero w s) = undec s"
  by (simp add: pad_zero_def undec_zeros)

lemma length_pad_right: "length (pad_right w s) = max w (length s)"
  by (simp add: pad_right_def)

lemma dec_u64_inject [simp]: "dec_u64 a = dec_u64 b \<longleftrightarrow> a = b"
  by (simp add: dec_u64_def word_unat_eq_iff)

lemma digit_not_minus: "is_digit c \<Longrightarrow> c \<noteq> CHR ''-''"
  by (auto simp: is_digit_def)

lemma dec_int_inject [simp]: "dec_int i = dec_int j \<longleftrightarrow> i = j"
proof -
  have "hd (dec n) \<noteq> CHR ''-''" for n
    using dec_digits [of "hd (dec n)" n] digit_not_minus by simp
  then have "dec n \<noteq> CHR ''-'' # s" for n s
    by (metis list.sel(1))
  then show ?thesis by (auto simp: dec_int_def) metis
qed

text \<open>\<open>strconv.ParseUint(s, 10, 64)\<close>: \<open>None\<close> is an error.\<close>

definition parse_uint64 :: "string \<Rightarrow> u64 option" where
  "parse_uint64 s =
     (if s \<noteq> [] \<and> list_all is_digit s \<and> undec s < 2 ^ 64 then Some (of_nat (undec s)) else None)"

text \<open>\<open>strconv.Atoi\<close>: an optional sign and decimal digits, in the range of a 64-bit int.\<close>

definition atoi :: "string \<Rightarrow> int option" where
  "atoi s =
     (let neg = (case s of [] \<Rightarrow> False | c # _ \<Rightarrow> c = CHR ''-'');
          body = (case s of [] \<Rightarrow> [] | c # cs \<Rightarrow> if c = CHR ''-'' \<or> c = CHR ''+'' then cs else s);
          v = (if neg then - int (undec body) else int (undec body))
      in if body \<noteq> [] \<and> list_all is_digit body \<and> - (2 ^ 63) \<le> v \<and> v < 2 ^ 63
         then Some v else None)"

text \<open>
  \<open>fmt.Sscanf(s, "%d", &x)\<close>: blanks, an optional sign and the longest run of digits; the
  variable keeps its old value when no digit follows, or the number has no 64-bit value (the
  code ignores the error).
\<close>

definition sscan_blank :: "char \<Rightarrow> bool" where
  "sscan_blank c = (c \<in> {CHR '' '', CHR 0x09, CHR 0x0B, CHR 0x0C, CHR 0x0D})"

definition sscan_int :: "string \<Rightarrow> int \<Rightarrow> int" where
  "sscan_int s old =
     (let t = dropWhile sscan_blank s;
          neg = (t \<noteq> [] \<and> hd t = CHR ''-'');
          u = (if t \<noteq> [] \<and> (hd t = CHR ''-'' \<or> hd t = CHR ''+'') then tl t else t);
          ds = takeWhile is_digit u;
          v = (if neg then - int (undec ds) else int (undec ds))
      in if ds = [] \<or> \<not> (- (2 ^ 63) \<le> v \<and> v < 2 ^ 63) then old else v)"

lemma parse_uint64_dec [simp]: "parse_uint64 (dec_u64 w) = Some w"
proof -
  have "unat w < 2 ^ 64" using unsigned_less [of w] by simp
  moreover have "list_all is_digit (dec (unat w))"
    by (simp add: list_all_iff dec_digits)
  ultimately show ?thesis by (simp add: parse_uint64_def dec_u64_def)
qed

section \<open>Splitting and joining\<close>

text \<open>\<open>strings.Join\<close> and \<open>strings.Split\<close> for a separator of one byte.\<close>

fun strings_join :: "string \<Rightarrow> string list \<Rightarrow> string" where
  "strings_join sep [] = []"
| "strings_join sep [x] = x"
| "strings_join sep (x # y # ys) = x @ sep @ strings_join sep (y # ys)"

fun split_on :: "char \<Rightarrow> string \<Rightarrow> string list" where
  "split_on c [] = [[]]"
| "split_on c (x # xs) =
     (if x = c then [] # split_on c xs
      else (case split_on c xs of [] \<Rightarrow> [[x]] | y # ys \<Rightarrow> (x # y) # ys))"

lemma split_on_nonempty [simp]: "split_on c s \<noteq> []"
  by (induction s) (auto split: list.splits)

lemma strings_join_Cons: "xs \<noteq> [] \<Longrightarrow> strings_join sep (x # xs) = x @ sep @ strings_join sep xs"
  by (cases xs) auto

lemma strings_join_head: "strings_join sep ((x # y) # ys) = x # strings_join sep (y # ys)"
  by (cases ys) auto

lemma join_split: "strings_join [c] (split_on c s) = s"
proof (induction s)
  case (Cons x xs)
  then show ?case
    by (cases "split_on c xs") (auto simp: strings_join_Cons strings_join_head)
qed simp

lemma split_on_no_sep: "c \<notin> set s \<Longrightarrow> split_on c s = [s]"
  by (induction s) auto

lemma split_on_append: "c \<notin> set s \<Longrightarrow> split_on c (s @ c # t) = s # split_on c t"
  by (induction s) auto

lemma split_join:
  "xs \<noteq> [] \<Longrightarrow> \<forall>x \<in> set xs. c \<notin> set x \<Longrightarrow> split_on c (strings_join [c] xs) = xs"
proof (induction xs)
  case (Cons x xs)
  then show ?case
    by (cases xs) (auto simp: split_on_append split_on_no_sep)
qed simp

lemma split_on_parts: "x \<in> set (split_on c s) \<Longrightarrow> c \<notin> set x"
proof (induction s arbitrary: x)
  case (Cons y ys)
  then show ?case by (cases "split_on c ys") (auto split: if_splits)
qed simp

definition trim_suffix :: "string \<Rightarrow> string \<Rightarrow> string" where
  "trim_suffix s suf = (if suffix suf s then take (length s - length suf) s else s)"

definition trim_prefix :: "string \<Rightarrow> string \<Rightarrow> string" where
  "trim_prefix s pre = (if prefix pre s then drop (length pre) s else s)"

definition to_lower_ascii :: "string \<Rightarrow> string" where
  "to_lower_ascii s =
     map (\<lambda>c. let n = of_char c :: nat in if 65 \<le> n \<and> n \<le> 90 then char_of (n + 32) else c) s"

section \<open>Runes\<close>

text \<open>
  \<open>utf8_step c cs\<close> decodes the first rune of the non-empty string \<open>c # cs\<close>: its code
  point and the number of continuation bytes it takes. A byte that starts no valid
  encoding decodes to U+FFFD (65533) and takes no other byte, as in Go.
\<close>

definition cont :: "nat \<Rightarrow> nat \<Rightarrow> char \<Rightarrow> bool" where
  "cont lo hi c = (lo \<le> (of_char c :: nat) \<and> (of_char c :: nat) \<le> hi)"

definition low6 :: "char \<Rightarrow> nat" where
  "low6 c = of_char c mod 64"

definition utf8_step :: "char \<Rightarrow> string \<Rightarrow> nat \<times> nat" where
  "utf8_step c cs =
     (let b = of_char c :: nat in
      if b < 128 then (b, 0)
      else if 194 \<le> b \<and> b \<le> 223 then
        (case cs of c1 # _ \<Rightarrow>
           if cont 128 191 c1 then ((b mod 32) * 64 + low6 c1, 1) else (65533, 0)
         | [] \<Rightarrow> (65533, 0))
      else if 224 \<le> b \<and> b \<le> 239 then
        (case cs of c1 # c2 # _ \<Rightarrow>
           if cont (if b = 224 then 160 else 128) (if b = 237 then 159 else 191) c1
              \<and> cont 128 191 c2
           then ((b mod 16) * 4096 + low6 c1 * 64 + low6 c2, 2) else (65533, 0)
         | _ \<Rightarrow> (65533, 0))
      else if 240 \<le> b \<and> b \<le> 244 then
        (case cs of c1 # c2 # c3 # _ \<Rightarrow>
           if cont (if b = 240 then 144 else 128) (if b = 244 then 143 else 191) c1
              \<and> cont 128 191 c2 \<and> cont 128 191 c3
           then ((b mod 8) * 262144 + low6 c1 * 4096 + low6 c2 * 64 + low6 c3, 3)
           else (65533, 0)
         | _ \<Rightarrow> (65533, 0))
      else (65533, 0))"

fun utf8_runes :: "string \<Rightarrow> (nat \<times> string) list" where
  "utf8_runes [] = []"
| "utf8_runes (c # cs) =
     (case utf8_step c cs of (r, k) \<Rightarrow> (r, c # take k cs) # utf8_runes (drop k cs))"

definition is_ascii :: "string \<Rightarrow> bool" where
  "is_ascii s = list_all (\<lambda>c. (of_char c :: nat) < 128) s"

lemma utf8_runes_bytes: "concat (map snd (utf8_runes s)) = s"
  by (induction s rule: utf8_runes.induct) (auto split: prod.splits)

lemma utf8_runes_ascii: "is_ascii s \<Longrightarrow> utf8_runes s = map (\<lambda>c. (of_char c, [c])) s"
  by (induction s) (auto simp: is_ascii_def utf8_step_def)

text \<open>\<open>unicode.IsSpace\<close>, \<open>strings.TrimSpace\<close> and \<open>strings.Fields\<close>.\<close>

definition is_space :: "nat \<Rightarrow> bool" where
  "is_space r = (9 \<le> r \<and> r \<le> 13 \<or> r = 32 \<or> r = 133 \<or> r = 160 \<or> r = 5760
     \<or> 8192 \<le> r \<and> r \<le> 8202 \<or> r = 8232 \<or> r = 8233 \<or> r = 8239 \<or> r = 8287 \<or> r = 12288)"

definition trim_by :: "('a \<Rightarrow> bool) \<Rightarrow> 'a list \<Rightarrow> 'a list" where
  "trim_by P xs = rev (dropWhile P (rev (dropWhile P xs)))"

definition trim_space :: "string \<Rightarrow> string" where
  "trim_space s = concat (map snd (trim_by (\<lambda>(r, _). is_space r) (utf8_runes s)))"

fun group_fields :: "(nat \<times> string) list \<Rightarrow> string \<Rightarrow> string list" where
  "group_fields [] acc = (if acc = [] then [] else [acc])"
| "group_fields ((r, bs) # rs) acc =
     (if is_space r then (if acc = [] then group_fields rs [] else acc # group_fields rs [])
      else group_fields rs (acc @ bs))"

definition strings_fields :: "string \<Rightarrow> string list" where
  "strings_fields s = group_fields (utf8_runes s) []"

lemma dropWhile_hd_id: "xs = [] \<or> \<not> P (hd xs) \<Longrightarrow> dropWhile P xs = xs"
  by (cases xs) auto

lemma trim_by_id: "xs = [] \<or> \<not> P (hd xs) \<and> \<not> P (last xs) \<Longrightarrow> trim_by P xs = xs"
  by (auto simp: trim_by_def dropWhile_hd_id hd_rev)

text \<open>A string without any blank at its ends, and so unchanged by \<open>strings.TrimSpace\<close>.\<close>

definition trimmed :: "string \<Rightarrow> bool" where
  "trimmed s = (trim_space s = s)"

lemma trim_space_Nil [simp]: "trim_space [] = []"
  by (simp add: trim_space_def trim_by_def)

lemma trim_space_plain:
  assumes "s \<noteq> []" and "is_ascii s" and "\<not> is_space (of_char (hd s))" and "\<not> is_space (of_char (last s))"
  shows "trim_space s = s"
proof -
  have "trim_by (\<lambda>(r, _). is_space r) (utf8_runes s) = utf8_runes s"
    using assms by (intro trim_by_id) (simp add: utf8_runes_ascii hd_map last_map)
  then show ?thesis by (simp add: trim_space_def utf8_runes_bytes)
qed

lemma trim_space_blank:
  assumes "is_ascii s" and "\<forall>c \<in> set s. is_space (of_char c)"
  shows "trim_space s = []"
proof -
  have "dropWhile (\<lambda>(r, _). is_space r) (utf8_runes s) = []"
    using assms by (simp add: utf8_runes_ascii dropWhile_eq_Nil_conv)
  then show ?thesis unfolding trim_space_def trim_by_def
    by (simp only: rev.simps dropWhile.simps list.map concat.simps)
qed

section \<open>Strings through JSON\<close>

text \<open>
  \<open>json.Marshal\<close> writes a Go string as UTF-8 text and replaces every byte that starts no
  valid encoding by U+FFFD, whose UTF-8 encoding has the three bytes 239, 191, 189. Any
  other string comes back unchanged from \<open>json.Unmarshal\<close>.
\<close>

definition json_string :: "string \<Rightarrow> string" where
  "json_string s = concat (map (\<lambda>(r, bs). if r = 65533 \<and> length bs = 1
     then [char_of (239 :: nat), char_of (191 :: nat), char_of (189 :: nat)] else bs) (utf8_runes s))"

definition valid_utf8 :: "string \<Rightarrow> bool" where
  "valid_utf8 s = list_all (\<lambda>(r, bs). \<not> (r = 65533 \<and> length bs = 1)) (utf8_runes s)"

lemma json_string_valid: "valid_utf8 s \<Longrightarrow> json_string s = s"
proof -
  assume "valid_utf8 s"
  then have eq: "map (\<lambda>(r, bs). if r = 65533 \<and> length bs = 1
     then [char_of (239 :: nat), char_of (191 :: nat), char_of (189 :: nat)] else bs) (utf8_runes s)
     = map snd (utf8_runes s)"
    by (auto simp: valid_utf8_def list_all_iff)
  show ?thesis unfolding json_string_def eq by (rule utf8_runes_bytes)
qed

lemma valid_utf8_ascii: "is_ascii s \<Longrightarrow> valid_utf8 s"
  by (force simp: valid_utf8_def utf8_runes_ascii list_all_iff is_ascii_def)

lemma json_string_ascii: "is_ascii s \<Longrightarrow> json_string s = s"
  by (simp add: json_string_valid valid_utf8_ascii)

section \<open>Lines and words\<close>

text \<open>
  \<open>bufio.Scanner\<close> with \<open>ScanLines\<close>: the lines without their end (\<open>\n\<close> or \<open>\r\n\<close>); a last
  line without end counts when it is not empty. Lines are shorter than the buffer.
\<close>

definition drop_cr :: "string \<Rightarrow> string" where
  "drop_cr line = (if line \<noteq> [] \<and> last line = CHR 0x0D then butlast line else line)"

definition scan_lines :: "bytes \<Rightarrow> string list" where
  "scan_lines s =
     (let ps = split_on (CHR ''\<newline>'') s in map drop_cr (if last ps = [] then butlast ps else ps))"

lemma drop_cr_id: "CHR 0x0D \<notin> set line \<Longrightarrow> drop_cr line = line"
  unfolding drop_cr_def by (metis last_in_set)

text \<open>A word: not empty, ASCII, without blanks.\<close>

definition is_word :: "string \<Rightarrow> bool" where
  "is_word w = (w \<noteq> [] \<and> is_ascii w \<and> list_all (\<lambda>c. \<not> is_space (of_char c)) w)"

lemma group_fields_word:
  "list_all (\<lambda>c. \<not> is_space (of_char c)) w \<Longrightarrow>
   group_fields (map (\<lambda>c. (of_char c, [c])) w @ rs) acc = group_fields rs (acc @ w)"
  by (induction w arbitrary: acc) auto

lemma is_ascii_join: "is_ascii sep \<Longrightarrow> list_all is_ascii ws \<Longrightarrow> is_ascii (strings_join sep ws)"
  by (induction sep ws rule: strings_join.induct) (auto simp: is_ascii_def)

lemma fields_join:
  assumes "list_all is_word ws"
  shows "strings_fields (strings_join '' '' ws) = ws"
proof -
  have asc: "is_ascii (strings_join '' '' ws)"
    using assms by (intro is_ascii_join) (auto simp: is_word_def list_all_iff is_ascii_def)
  have "group_fields (map (\<lambda>c. (of_char c, [c])) (strings_join '' '' ws)) [] = ws"
    using assms
  proof (induction ws)
    case (Cons w ws)
    have w: "w \<noteq> []" "list_all (\<lambda>c. \<not> is_space (of_char c)) w" using Cons.prems by (simp_all add: is_word_def)
    show ?case
    proof (cases ws)
      case Nil
      then show ?thesis using group_fields_word [OF w(2), of "[]" "[]"] w(1) by simp
    next
      case (Cons v vs)
      have "is_space (of_char (CHR '' ''))" by (simp add: is_space_def)
      then show ?thesis using Cons Cons.IH Cons.prems w by (simp add: group_fields_word)
    qed
  qed simp
  then show ?thesis by (simp add: strings_fields_def utf8_runes_ascii [OF asc])
qed

lemma join_words_trimmed: "list_all is_word ws \<Longrightarrow> ws \<noteq> [] \<Longrightarrow> trim_space (strings_join '' '' ws) = strings_join '' '' ws"
proof (rule trim_space_plain)
  assume w: "list_all is_word ws" "ws \<noteq> []"
  show "is_ascii (strings_join '' '' ws)"
    using w by (intro is_ascii_join) (auto simp: is_word_def list_all_iff is_ascii_def)
  have *: "strings_join '' '' ws \<noteq> [] \<and> hd (strings_join '' '' ws) = hd (hd ws)
      \<and> last (strings_join '' '' ws) = last (last ws)"
    using w by (induction "'' ''" ws rule: strings_join.induct) (auto simp: is_word_def)
  then show "strings_join '' '' ws \<noteq> []" by simp
  show "\<not> is_space (of_char (hd (strings_join '' '' ws)))"
    using w * by (cases ws) (auto simp: is_word_def list_all_iff)
  have "last ws \<in> set ws" using w by simp
  then have "is_word (last ws)" using w by (simp add: list_all_iff)
  then show "\<not> is_space (of_char (last (strings_join '' '' ws)))"
    using * by (simp add: is_word_def list_all_iff)
qed

end
