(* ===== verification/Sha.thy ===== *)
theory Sha
  imports Go_Prelude
begin

text \<open>
  The two hash functions of the Go standard library that place nodes and files on the
  ring, \<open>crypto/sha256\<close> and \<open>crypto/sha1\<close>, after FIPS 180-4, and
  \<open>binary.BigEndian.Uint64(h[:8])\<close>, the first eight bytes of a digest as a
  \<open>uint64\<close>. Messages are byte strings; arithmetic is on 32-bit words.
\<close>

unbundle bit_operations_syntax

type_synonym u32 = "32 word"

definition rotr32 :: "nat \<Rightarrow> u32 \<Rightarrow> u32" where
  "rotr32 n x = drop_bit n x OR push_bit (32 - n) x"

definition rotl32 :: "nat \<Rightarrow> u32 \<Rightarrow> u32" where
  "rotl32 n x = push_bit n x OR drop_bit (32 - n) x"

definition byte_of :: "nat \<Rightarrow> nat \<Rightarrow> char" where
  "byte_of k n = char_of (n div 256 ^ k mod 256)"

text \<open>Padding: a 1 bit, zeros, and the length in bits as eight big-endian bytes.\<close>

definition sha_pad :: "string \<Rightarrow> string" where
  "sha_pad s =
     (let n = length s; zs = (55 + 64 - n mod 64) mod 64
      in s @ char_of (128 :: nat) # replicate zs (char_of (0 :: nat))
         @ map (\<lambda>k. byte_of k (8 * n)) [7, 6, 5, 4, 3, 2, 1, 0])"

fun be_words :: "string \<Rightarrow> u32 list" where
  "be_words (a # b # c # d # rest) =
     of_nat (((of_char a * 256 + of_char b) * 256 + of_char c) * 256 + of_char d :: nat) # be_words rest"
| "be_words _ = []"

fun chunks16 :: "'a list \<Rightarrow> 'a list list" where
  "chunks16 [] = []"
| "chunks16 (x # xs) = take 16 (x # xs) # chunks16 (drop 15 xs)"

section \<open>SHA-256\<close>

definition sha256_K :: "u32 list" where
  "sha256_K = [
    1116352408, 1899447441, 3049323471, 3921009573, 961987163, 1508970993,
    2453635748, 2870763221, 3624381080, 310598401, 607225278, 1426881987,
    1925078388, 2162078206, 2614888103, 3248222580, 3835390401, 4022224774,
    264347078, 604807628, 770255983, 1249150122, 1555081692, 1996064986,
    2554220882, 2821834349, 2952996808, 3210313671, 3336571891, 3584528711,
    113926993, 338241895, 666307205, 773529912, 1294757372, 1396182291,
    1695183700, 1986661051, 2177026350, 2456956037, 2730485921, 2820302411,
    3259730800, 3345764771, 3516065817, 3600352804, 4094571909, 275423344,
    430227734, 506948616, 659060556, 883997877, 958139571, 1322822218,
    1537002063, 1747873779, 1955562222, 2024104815, 2227730452, 2361852424,
    2428436474, 2756734187, 3204031479, 3329325298]"

type_synonym sha256_state = "u32 \<times> u32 \<times> u32 \<times> u32 \<times> u32 \<times> u32 \<times> u32 \<times> u32"

definition sha256_init :: sha256_state where
  "sha256_init = (1779033703, 3144134277, 1013904242, 2773480762, 1359893119, 2600822924, 528734635, 1541459225)"

definition sha256_schedule :: "u32 list \<Rightarrow> u32 list" where
  "sha256_schedule ws = fold (\<lambda>i ws.
     let w15 = ws ! (i - 15); w2 = ws ! (i - 2);
         s0 = rotr32 7 w15 XOR rotr32 18 w15 XOR drop_bit 3 w15;
         s1 = rotr32 17 w2 XOR rotr32 19 w2 XOR drop_bit 10 w2
     in ws @ [ws ! (i - 16) + s0 + ws ! (i - 7) + s1]) [16..<64] ws"

fun sha256_round :: "u32 \<times> u32 \<Rightarrow> sha256_state \<Rightarrow> sha256_state" where
  "sha256_round (k, w) (a, b, c, d, e, f, g, h) =
     (let t1 = h + (rotr32 6 e XOR rotr32 11 e XOR rotr32 25 e)
               + ((e AND f) XOR (NOT e AND g)) + k + w;
          t2 = (rotr32 2 a XOR rotr32 13 a XOR rotr32 22 a)
               + ((a AND b) XOR (a AND c) XOR (b AND c))
      in (t1 + t2, a, b, c, d + t1, e, f, g))"

definition sha256_block :: "u32 list \<Rightarrow> sha256_state \<Rightarrow> sha256_state" where
  "sha256_block ws st =
     (case st of (a, b, c, d, e, f, g, h) \<Rightarrow>
      case fold sha256_round (zip sha256_K (sha256_schedule ws)) st of
        (a', b', c', d', e', f', g', h') \<Rightarrow>
          (a + a', b + b', c + c', d + d', e + e', f + f', g + g', h + h'))"

definition sha256_sum :: "string \<Rightarrow> sha256_state" where
  "sha256_sum s = fold sha256_block (chunks16 (be_words (sha_pad s))) sha256_init"

definition join_words :: "u32 \<Rightarrow> u32 \<Rightarrow> u64" where
  "join_words a b = of_nat (unat a * 2 ^ 32 + unat b)"

definition sha256_u64 :: "string \<Rightarrow> u64" where
  "sha256_u64 s = (case sha256_sum s of (a, b, _) \<Rightarrow> join_words a b)"

section \<open>SHA-1\<close>

type_synonym sha1_state = "u32 \<times> u32 \<times> u32 \<times> u32 \<times> u32"

definition sha1_init :: sha1_state where
  "sha1_init = (1732584193, 4023233417, 2562383102, 271733878, 3285377520)"

definition sha1_schedule :: "u32 list \<Rightarrow> u32 list" where
  "sha1_schedule ws = fold (\<lambda>i ws.
     ws @ [rotl32 1 (ws ! (i - 3) XOR ws ! (i - 8) XOR ws ! (i - 14) XOR ws ! (i - 16))]) [16..<80] ws"

definition sha1_round :: "nat \<times> u32 \<Rightarrow> sha1_state \<Rightarrow> sha1_state" where
  "sha1_round tw st = (case tw of (t, w) \<Rightarrow> case st of (a, b, c, d, e) \<Rightarrow>
     let (f, k) = (if t < 20 then ((b AND c) OR (NOT b AND d), 1518500249)
                   else if t < 40 then (b XOR c XOR d, 1859775393)
                   else if t < 60 then ((b AND c) OR (b AND d) OR (c AND d), 2400959708)
                   else (b XOR c XOR d, 3395469782))
     in (rotl32 5 a + f + e + k + w, a, rotl32 30 b, c, d))"

definition sha1_block :: "u32 list \<Rightarrow> sha1_state \<Rightarrow> sha1_state" where
  "sha1_block ws st =
     (case st of (a, b, c, d, e) \<Rightarrow>
      case fold sha1_round (zip [0..<80] (sha1_schedule ws)) st of
        (a', b', c', d', e') \<Rightarrow> (a + a', b + b', c + c', d + d', e + e'))"

definition sha1_sum :: "string \<Rightarrow> sha1_state" where
  "sha1_sum s = fold sha1_block (chunks16 (be_words (sha_pad s))) sha1_init"

definition sha1_u64 :: "string \<Rightarrow> u64" where
  "sha1_u64 s = (case sha1_sum s of (a, b, _) \<Rightarrow> join_words a b)"

text \<open>\<open>fmt.Sprintf("%x", sha1.Sum(data))\<close>: forty lower-case hexadecimal digits.\<close>

definition hex_digit :: "nat \<Rightarrow> char" where
  "hex_digit d = (if d < 10 then char_of (48 + d) else char_of (87 + d))"

definition hex32 :: "u32 \<Rightarrow> string" where
  "hex32 w = map (\<lambda>k. hex_digit (unat w div 16 ^ k mod 16)) [7, 6, 5, 4, 3, 2, 1, 0]"

definition sha1_hex :: "string \<Rightarrow> string" where
  "sha1_hex s =
     (case sha1_sum s of (a, b, c, d, e) \<Rightarrow> hex32 a @ hex32 b @ hex32 c @ hex32 d @ hex32 e)"

end
