(* ===== verification/Membership.thy ===== *)
theory Membership
  imports Go_Text Sha
begin

text \<open>
  The membership table of a node (\<open>pkg/membership/member.go\<close>): its entries, and the
  operations that merge gossip, detect failures, clean up and pick gossip targets.

  \<^item> \<open>Info\<close>, \<open>Membership\<close> are the structs; the mutex is not modelled (every operation
    holds it from start to end, so the operations are atomic).
  \<^item> \<open>RandomPermutation\<close> takes the numbers that its freshly seeded generator produces,
    \<open>rng k\<close> for the \<open>k\<close>-th \<open>Int63()\<close>: theorems hold for every generator.
  \<^item> \<open>HashInfo\<close> takes \<open>fmtTime\<close>, the rendering of a time in the host's time zone
    (\<open>Version.Format(time.RFC3339Nano)\<close>).
  \<^item> Logging is left out.
\<close>

section \<open>Data\<close>

datatype MemberState = Alive | Failed | Suspected

record Info =
  Hostname :: string
  Port :: int
  Version :: int
  Timestamp :: int
  Counter :: u64
  State :: MemberState

type_synonym infomap = "(u64, Info) gomap"

record Membership =
  Members :: "u64 list"
  InfoMap :: infomap
  roundRobinIndex :: nat

datatype member_error = NoExistingMember | InconsistentMembership | YouFailed | NoSuchID

definition zero_info :: Info where
  "zero_info = \<lparr>Hostname = [], Port = 0, Version = 0, Timestamp = 0, Counter = 0, State = Alive\<rparr>"

fun stateName :: "MemberState \<Rightarrow> string" where
  "stateName Alive = ''Alive''"
| "stateName Failed = ''Failed''"
| "stateName Suspected = ''Suspected''"

text \<open>The states are numbered as the constants are (\<open>iota\<close>).\<close>

fun state_iota :: "MemberState \<Rightarrow> nat" where
  "state_iota Alive = 0"
| "state_iota Failed = 1"
| "state_iota Suspected = 2"

lemma state_iota_inject [simp]: "state_iota a = state_iota b \<longleftrightarrow> a = b"
  by (cases a; cases b) auto

instantiation MemberState :: linorder
begin

definition less_eq_MemberState :: "MemberState \<Rightarrow> MemberState \<Rightarrow> bool" where
  "less_eq_MemberState a b = (state_iota a \<le> state_iota b)"

definition less_MemberState :: "MemberState \<Rightarrow> MemberState \<Rightarrow> bool" where
  "less_MemberState a b = (state_iota a < state_iota b)"

instance
  by standard (auto simp: less_eq_MemberState_def less_MemberState_def simp flip: state_iota_inject)

end

section \<open>Operations\<close>

definition HashInfo :: "(int \<Rightarrow> string) \<Rightarrow> Info \<Rightarrow> u64" where
  "HashInfo fmtTime info =
     sha256_u64 (Hostname info @ '':'' @ dec_int (Port info) @ '':'' @ fmtTime (Version info))"

definition RandomPermutation :: "(nat \<Rightarrow> nat) \<Rightarrow> 'a list \<Rightarrow> 'a list" where
  "RandomPermutation rng arr =
     fold (\<lambda>i xs. let j = rng i mod (i + 1) in if i \<noteq> j then swap_cells i j xs else xs)
       [0..<length arr] arr"

text \<open>
  The block that \<open>Merge\<close>, \<open>UpdateStateGossip\<close> and \<open>UpdateStateSwim\<close> share: the ids that
  are not failed, shuffled, with the round robin started afresh.
\<close>

definition live_ids :: "infomap \<Rightarrow> u64 list" where
  "live_ids im = map fst (filter (\<lambda>(id, info). State info \<noteq> Failed) im)"

definition rebuild_members :: "(nat \<Rightarrow> nat) \<Rightarrow> Membership \<Rightarrow> Membership" where
  "rebuild_members rng m =
     m\<lparr>Members := RandomPermutation rng (live_ids (InfoMap m)), roundRobinIndex := 0\<rparr>"

fun merge_entry :: "int \<Rightarrow> u64 \<times> Info \<Rightarrow> infomap \<times> bool \<Rightarrow> infomap \<times> bool" where
  "merge_entry currentTime (mid, info) (im, memberChanged) =
     (if Port info = 0 \<or> Hostname info = [] then (im, memberChanged)
      else case map_of im mid of
        Some member \<Rightarrow>
          if State info = Failed then
            (if State member \<noteq> Failed
             then (AList.update mid (info\<lparr>Timestamp := currentTime\<rparr>) im, True)
             else (im, memberChanged))
          else if Counter info > Counter member
          then (AList.update mid (info\<lparr>Timestamp := currentTime\<rparr>) im, memberChanged)
          else (im, memberChanged)
      | None \<Rightarrow>
          if State info \<noteq> Failed
          then (AList.update mid (info\<lparr>Timestamp := currentTime\<rparr>) im, True)
          else (im, memberChanged))"

definition Merge :: "(nat \<Rightarrow> nat) \<Rightarrow> infomap \<Rightarrow> int \<Rightarrow> Membership \<Rightarrow> Membership \<times> bool" where
  "Merge rng memberInfo currentTime m =
     (case fold (merge_entry currentTime) memberInfo (InfoMap m, False) of
        (im, memberChanged) \<Rightarrow>
          (if memberChanged then rebuild_members rng (m\<lparr>InfoMap := im\<rparr>) else m\<lparr>InfoMap := im\<rparr>,
           memberChanged))"

text \<open>The timeout rule for one entry: the new entry, and whether it has just failed.\<close>

definition gossip_timeout :: "int \<Rightarrow> int \<Rightarrow> int \<Rightarrow> bool \<Rightarrow> Info \<Rightarrow> Info \<times> bool" where
  "gossip_timeout currentTime Tfail Tsuspect suspicionEnabled info =
     (let elapsed = currentTime - Timestamp info; oldState = State info in
      if suspicionEnabled then
        (if oldState = Alive \<and> elapsed > Tsuspect
         then (info\<lparr>State := Suspected, Timestamp := currentTime\<rparr>, False)
         else if oldState = Suspected \<and> elapsed > Tfail
         then (info\<lparr>State := Failed, Timestamp := currentTime\<rparr>, True)
         else (info, False))
      else
        (if oldState = Alive \<and> elapsed > Tfail
         then (info\<lparr>State := Failed, Timestamp := currentTime\<rparr>, True)
         else (info, False)))"

definition UpdateStateGossip ::
  "(nat \<Rightarrow> nat) \<Rightarrow> int \<Rightarrow> int \<Rightarrow> int \<Rightarrow> bool \<Rightarrow> Membership \<Rightarrow> Membership \<times> bool" where
  "UpdateStateGossip rng currentTime Tfail Tsuspect suspicionEnabled m =
     (let upd = gossip_timeout currentTime Tfail Tsuspect suspicionEnabled;
          m1 = m\<lparr>InfoMap := map (\<lambda>(mid, info). (mid, fst (upd info))) (InfoMap m)\<rparr>;
          anyFailed = list_ex (\<lambda>(mid, info). snd (upd info)) (InfoMap m)
      in (if anyFailed then rebuild_members rng m1 else m1, anyFailed))"

definition UpdateStateSwim ::
  "(nat \<Rightarrow> nat) \<Rightarrow> int \<Rightarrow> u64 \<Rightarrow> MemberState \<Rightarrow> bool \<Rightarrow> Membership \<Rightarrow> Membership \<times> bool" where
  "UpdateStateSwim rng currentTime mid state suspicionEnabled m =
     (case map_of (InfoMap m) mid of
        None \<Rightarrow> (m, False)
      | Some info \<Rightarrow>
          if State info \<noteq> Failed then
            let newState = (if state = Suspected \<and> \<not> suspicionEnabled then Failed else state);
                m1 = m\<lparr>InfoMap := AList.update mid
                         (info\<lparr>Timestamp := currentTime, State := newState\<rparr>) (InfoMap m)\<rparr>
            in if newState = Failed then (rebuild_members rng m1, True) else (m1, False)
          else (m, False))"

definition Cleanup :: "int \<Rightarrow> int \<Rightarrow> Membership \<Rightarrow> Membership" where
  "Cleanup currentTime Tcleanup m =
     m\<lparr>InfoMap := filter (\<lambda>(mid, info).
          \<not> (State info = Failed \<and> currentTime - Timestamp info > Tcleanup)) (InfoMap m)\<rparr>"

definition Reset :: "(int \<Rightarrow> string) \<Rightarrow> int \<Rightarrow> string \<Rightarrow> int \<Rightarrow> Membership" where
  "Reset fmtTime currentTime hostname port =
     (let newInfo = \<lparr>Hostname = hostname, Port = port, Version = currentTime,
                     Timestamp = currentTime, Counter = 0, State = Alive\<rparr>;
          newId = HashInfo fmtTime newInfo
      in \<lparr>Members = [newId], InfoMap = [(newId, newInfo)], roundRobinIndex = 0\<rparr>)"

definition RemoveMember :: "(nat \<Rightarrow> nat) \<Rightarrow> u64 \<Rightarrow> Membership \<Rightarrow> Membership" where
  "RemoveMember rng mid m =
     (let m1 = m\<lparr>InfoMap := AList.delete mid (InfoMap m), Members := remove1 mid (Members m)\<rparr>
      in if roundRobinIndex m1 \<ge> length (Members m1)
         then m1\<lparr>Members := RandomPermutation rng (Members m1), roundRobinIndex := 0\<rparr>
         else m1)"

definition GetTarget :: "(nat \<Rightarrow> nat) \<Rightarrow> Membership \<Rightarrow> (member_error + Info) \<times> Membership" where
  "GetTarget rng m =
     (if Members m = [] then (Inl NoExistingMember, m)
      else case map_of (InfoMap m) (Members m ! roundRobinIndex m) of
        None \<Rightarrow> (Inl InconsistentMembership, m)
      | Some targetInfo \<Rightarrow>
          let m1 = m\<lparr>roundRobinIndex := roundRobinIndex m + 1\<rparr>
          in (Inr targetInfo,
              if roundRobinIndex m1 = length (Members m1)
              then m1\<lparr>Members := RandomPermutation rng (Members m1), roundRobinIndex := 0\<rparr>
              else m1))"

definition Exists :: "string \<Rightarrow> int \<Rightarrow> Membership \<Rightarrow> bool" where
  "Exists hostname port m =
     list_ex (\<lambda>(mid, info). Hostname info = hostname \<and> Port info = port) (InfoMap m)"

text \<open>\<open>GetInfoMap\<close> copies the map entry by entry into a new one.\<close>

definition GetInfoMap :: "Membership \<Rightarrow> infomap" where
  "GetInfoMap m = fold (\<lambda>(mid, info) copy. AList.update mid info copy) (InfoMap m) []"

definition Heartbeat :: "u64 \<Rightarrow> int \<Rightarrow> Membership \<Rightarrow> (member_error + unit) \<times> Membership" where
  "Heartbeat mid currentTime m =
     (case map_of (InfoMap m) mid of
        Some info \<Rightarrow>
          if State info = Failed then (Inl YouFailed, m)
          else (Inr (), m\<lparr>InfoMap := AList.update mid
                  (info\<lparr>Timestamp := currentTime, Counter := Counter info + 1\<rparr>) (InfoMap m)\<rparr>)
      | None \<Rightarrow> (Inl NoSuchID, m))"

section \<open>Shuffling and the live members\<close>

lemma RandomPermutation_aux:
  "n \<le> length arr \<Longrightarrow>
   mset (fold (\<lambda>i xs. let j = rng i mod (i + 1) in if i \<noteq> j then swap_cells i j xs else xs)
     [0..<n] arr) = mset arr
   \<and> length (fold (\<lambda>i xs. let j = rng i mod (i + 1) in if i \<noteq> j then swap_cells i j xs else xs)
     [0..<n] arr) = length arr"
proof (induction n)
  case (Suc n)
  let ?ys = "fold (\<lambda>i xs. let j = rng i mod (i + 1) in if i \<noteq> j then swap_cells i j xs else xs)
     [0..<n] arr"
  have "rng n mod Suc n < Suc n" by simp
  moreover have "Suc n \<le> length ?ys" using Suc by simp
  ultimately have "rng n mod Suc n < length ?ys" and "n < length ?ys" by linarith+
  then show ?case using Suc by (simp add: Let_def)
qed simp

lemma mset_RandomPermutation [simp]: "mset (RandomPermutation rng xs) = mset xs"
  using RandomPermutation_aux [of "length xs" xs rng] by (simp add: RandomPermutation_def)

lemma set_RandomPermutation [simp]: "set (RandomPermutation rng xs) = set xs"
  by (metis mset_RandomPermutation set_mset_mset)

lemma distinct_RandomPermutation [simp]: "distinct (RandomPermutation rng xs) = distinct xs"
  by (metis mset_RandomPermutation mset_eq_imp_distinct_iff)

lemma length_RandomPermutation [simp]: "length (RandomPermutation rng xs) = length xs"
  by (metis mset_RandomPermutation size_mset)

lemma RandomPermutation_Nil_iff [simp]: "RandomPermutation rng xs = [] \<longleftrightarrow> xs = []"
  by (metis length_0_conv length_RandomPermutation)

definition is_live :: "infomap \<Rightarrow> u64 \<Rightarrow> bool" where
  "is_live im x = (case map_of im x of None \<Rightarrow> False | Some info \<Rightarrow> State info \<noteq> Failed)"

lemma distinct_live_ids: "go_map im \<Longrightarrow> distinct (live_ids im)"
  unfolding live_ids_def by (rule go_map_filter)

lemma set_live_ids: "go_map im \<Longrightarrow> x \<in> set (live_ids im) \<longleftrightarrow> is_live im x"
  by (auto simp: live_ids_def is_live_def go_map_lookup_iff image_iff split: option.splits
      simp: map_of_eq_None_iff) (metis map_of_is_SomeI option.inject)+

text \<open>
  The invariant of the table: one entry for each id, a member list without duplicates that
  names entries which are not failed, and a round-robin index inside the list.
\<close>

definition membership_ok :: "Membership \<Rightarrow> bool" where
  "membership_ok m =
     (go_map (InfoMap m) \<and> distinct (Members m) \<and> (\<forall>x \<in> set (Members m). is_live (InfoMap m) x)
      \<and> (roundRobinIndex m < length (Members m) \<or> Members m = [] \<and> roundRobinIndex m = 0))"

lemma membership_ok_rebuild:
  "go_map (InfoMap m) \<Longrightarrow> membership_ok (rebuild_members rng m)"
  by (auto simp: membership_ok_def rebuild_members_def distinct_live_ids set_live_ids)

lemma membership_ok_change_map:
  "membership_ok m \<Longrightarrow> go_map im \<Longrightarrow> \<forall>x. is_live (InfoMap m) x \<longrightarrow> is_live im x \<Longrightarrow>
   membership_ok (m\<lparr>InfoMap := im\<rparr>)"
  by (auto simp: membership_ok_def)

lemma is_live_update:
  "is_live (AList.update k v im) x = (if x = k then State v \<noteq> Failed else is_live im x)"
  by (simp add: is_live_def)

section \<open>Every operation keeps the table well formed\<close>

lemma merge_entry_keeps:
  assumes "go_map im" and "\<not> b \<longrightarrow> (\<forall>x. is_live im0 x \<longrightarrow> is_live im x)"
    and "merge_entry t e (im, b) = (im', b')"
  shows "go_map im' \<and> (\<not> b' \<longrightarrow> (\<forall>x. is_live im0 x \<longrightarrow> is_live im' x))"
  using assms
  by (cases e) (auto split: if_splits option.splits simp: is_live_update)

lemma fold_merge_keeps:
  assumes "go_map im0" and "fold (merge_entry t) es (im0, False) = (im', b')"
  shows "go_map im' \<and> (\<not> b' \<longrightarrow> (\<forall>x. is_live im0 x \<longrightarrow> is_live im' x))"
proof -
  let ?P = "\<lambda>(im, b). go_map im \<and> (\<not> b \<longrightarrow> (\<forall>x. is_live im0 x \<longrightarrow> is_live im x))"
  have "?P (fold (merge_entry t) es (im0, False))"
  proof (rule fold_invariant_mem [where P = ?P])
    show "?P (im0, False)" using assms(1) by simp
  next
    fix e s assume P: "?P s"
    obtain im b where s: "s = (im, b)" by force
    obtain im' b' where e: "merge_entry t e (im, b) = (im', b')" by force
    show "?P (merge_entry t e s)"
      using merge_entry_keeps [OF _ _ e, of im0] P unfolding s e by simp
  qed
  then show ?thesis using assms(2) by simp
qed

lemma Merge_ok [model_inv]: "membership_ok m \<Longrightarrow> membership_ok (fst (Merge rng mi t m))"
proof -
  assume ok: "membership_ok m"
  obtain im b where f: "fold (merge_entry t) mi (InfoMap m, False) = (im, b)" by force
  have "go_map im" and "\<not> b \<longrightarrow> (\<forall>x. is_live (InfoMap m) x \<longrightarrow> is_live im x)"
    using fold_merge_keeps [OF _ f] ok by (auto simp: membership_ok_def)
  then show ?thesis using ok f
    by (auto simp: Merge_def intro: membership_ok_rebuild membership_ok_change_map)
qed

lemma gossip_timeout_flag:
  "\<not> snd (gossip_timeout t Tf Ts s i) \<Longrightarrow> State i \<noteq> Failed \<Longrightarrow> State (fst (gossip_timeout t Tf Ts s i)) \<noteq> Failed"
  by (auto simp: gossip_timeout_def Let_def split: if_splits)

lemma UpdateStateGossip_InfoMap:
  "InfoMap (fst (UpdateStateGossip rng t Tf Ts s m)) =
     map (\<lambda>(i, info). (i, fst (gossip_timeout t Tf Ts s info))) (InfoMap m)"
  by (simp add: UpdateStateGossip_def rebuild_members_def Let_def)

lemma map_of_UpdateStateGossip [gomap_lookup]:
  "map_of (InfoMap (fst (UpdateStateGossip rng t Tf Ts s m))) x =
     map_option (\<lambda>info. fst (gossip_timeout t Tf Ts s info)) (map_of (InfoMap m) x)"
  by (simp add: UpdateStateGossip_InfoMap map_of_map_vals)

lemma UpdateStateGossip_ok [model_inv]:
  "membership_ok m \<Longrightarrow> membership_ok (fst (UpdateStateGossip rng t Tf Ts s m))"
proof -
  assume ok: "membership_ok m"
  let ?im = "map (\<lambda>(i, info). (i, fst (gossip_timeout t Tf Ts s info))) (InfoMap m)"
  have keys: "go_map ?im" using ok by (simp add: membership_ok_def)
  show ?thesis
  proof (cases "list_ex (\<lambda>(i, info). snd (gossip_timeout t Tf Ts s info)) (InfoMap m)")
    case True
    then show ?thesis using keys
      by (simp add: UpdateStateGossip_def Let_def membership_ok_rebuild)
  next
    case False
    have "\<forall>x. is_live (InfoMap m) x \<longrightarrow> is_live ?im x"
      using False gossip_timeout_flag
      by (fastforce simp: is_live_def map_of_map_vals list_ex_iff split: option.splits
          dest: map_of_SomeD)
    then show ?thesis using ok keys False
      by (simp add: UpdateStateGossip_def Let_def membership_ok_change_map)
  qed
qed

lemma UpdateStateSwim_ok [model_inv]:
  "membership_ok m \<Longrightarrow> membership_ok (fst (UpdateStateSwim rng t x st s m))"
  by (auto simp: UpdateStateSwim_def Let_def membership_ok_def is_live_update
      split: option.splits intro!: membership_ok_rebuild [unfolded membership_ok_def])

lemma map_of_Cleanup [gomap_lookup]:
  "go_map (InfoMap m) \<Longrightarrow> map_of (InfoMap (Cleanup t Tc m)) x =
     (case map_of (InfoMap m) x of None \<Rightarrow> None
      | Some info \<Rightarrow> if State info = Failed \<and> t - Timestamp info > Tc then None else Some info)"
  by (simp add: Cleanup_def filter_map_of split: option.splits)

lemma Cleanup_ok [model_inv]: "membership_ok m \<Longrightarrow> membership_ok (Cleanup t Tc m)"
proof -
  assume ok: "membership_ok m"
  then have "\<forall>x. is_live (InfoMap m) x \<longrightarrow> is_live (InfoMap (Cleanup t Tc m)) x"
    by (auto simp: is_live_def map_of_Cleanup membership_ok_def split: option.splits)
  moreover have "go_map (InfoMap (Cleanup t Tc m))"
    using ok by (simp add: Cleanup_def membership_ok_def)
  ultimately show ?thesis
    using membership_ok_change_map [OF ok, of "InfoMap (Cleanup t Tc m)"]
    by (simp add: Cleanup_def)
qed

lemma Reset_ok [model_inv]: "membership_ok (Reset fmtTime t host port)"
  by (simp add: Reset_def membership_ok_def is_live_def Let_def)

lemma is_live_delete: "is_live (AList.delete k im) x = (x \<noteq> k \<and> is_live im x)"
  by (auto simp: is_live_def)

lemma RemoveMember_ok [model_inv]: "membership_ok m \<Longrightarrow> membership_ok (RemoveMember rng x m)"
  by (auto simp: RemoveMember_def Let_def membership_ok_def is_live_delete)

lemma GetTarget_ok [model_inv]: "membership_ok m \<Longrightarrow> membership_ok (snd (GetTarget rng m))"
  by (auto simp: GetTarget_def Let_def membership_ok_def split: option.splits)

lemma Heartbeat_ok [model_inv]: "membership_ok m \<Longrightarrow> membership_ok (snd (Heartbeat x t m))"
  by (auto simp: Heartbeat_def membership_ok_def is_live_update split: option.splits)

section \<open>What a merge does to each entry\<close>

text \<open>
  The merge rule for one id: the old entry, the incoming entry, the resulting entry.
\<close>

definition valid_info :: "Info \<Rightarrow> bool" where
  "valid_info info = (Port info \<noteq> 0 \<and> Hostname info \<noteq> [])"

definition merge_view :: "int \<Rightarrow> Info option \<Rightarrow> Info option \<Rightarrow> Info option" where
  "merge_view t old inc =
     (case inc of None \<Rightarrow> old
      | Some info \<Rightarrow>
          if \<not> valid_info info then old
          else case old of
            None \<Rightarrow> if State info = Failed then None else Some (info\<lparr>Timestamp := t\<rparr>)
          | Some mem \<Rightarrow>
              if State info = Failed
              then Some (if State mem = Failed then mem else info\<lparr>Timestamp := t\<rparr>)
              else Some (if Counter info > Counter mem then info\<lparr>Timestamp := t\<rparr> else mem))"

lemma map_of_merge_entry:
  "map_of (fst (merge_entry t (x, info) (im, b))) y =
     (if y = x then merge_view t (map_of im x) (Some info) else map_of im y)"
  by (auto simp: merge_view_def valid_info_def split: option.splits)

lemma merge_entry_fst_indep:
  "fst (merge_entry t e s) = fst (merge_entry t e (fst s, b))"
  by (cases e; cases s) (auto split: option.splits)

lemma map_of_fold_merge:
  "go_map es \<Longrightarrow> map_of (fst (fold (merge_entry t) es s)) y =
     merge_view t (map_of (fst s) y) (map_of es y)"
proof (induction es arbitrary: s)
  case Nil
  then show ?case by (simp add: merge_view_def)
next
  case (Cons e es)
  obtain x info where e: "e = (x, info)" by force
  have step: "map_of (fst (merge_entry t (x, info) s)) y =
      (if y = x then merge_view t (map_of (fst s) x) (Some info) else map_of (fst s) y)" for y
    using merge_entry_fst_indep [of t "(x, info)" s False] by (simp only: map_of_merge_entry)
  have "map_of (fst (fold (merge_entry t) (e # es) s)) y =
      merge_view t (map_of (fst (merge_entry t (x, info) s)) y) (map_of es y)"
    using Cons.IH [of "merge_entry t (x, info) s"] Cons.prems by (simp add: e)
  also have "\<dots> = merge_view t (map_of (fst s) y) (map_of (e # es) y)"
  proof (cases "y = x")
    case True
    then have "map_of es y = None" using Cons.prems e by (auto simp: map_of_eq_None_iff)
    then show ?thesis using True by (simp add: step e) (simp add: merge_view_def)
  next
    case False
    then show ?thesis by (simp add: step e)
  qed
  finally show ?case .
qed

lemma InfoMap_rebuild [simp]: "InfoMap (rebuild_members rng m) = InfoMap m"
  by (simp add: rebuild_members_def)

lemma InfoMap_Merge: "InfoMap (fst (Merge rng mi t m)) = fst (fold (merge_entry t) mi (InfoMap m, False))"
  by (simp add: Merge_def split: prod.splits)

lemma map_of_Merge [gomap_lookup]:
  "go_map mi \<Longrightarrow> map_of (InfoMap (fst (Merge rng mi t m))) y =
     merge_view t (map_of (InfoMap m) y) (map_of mi y)"
  by (simp add: InfoMap_Merge map_of_fold_merge)

lemma merge_view_counter:
  assumes "merge_view t (Some mem) inc = Some mem'" and "State mem' \<noteq> Failed"
  shows "Counter mem \<le> Counter mem'"
  using assms by (auto simp: merge_view_def split: option.splits if_splits)

lemma merge_view_same: "merge_view t (Some mem) (Some mem) = Some mem"
  by (simp add: merge_view_def)

lemma GetInfoMap_id: "go_map (InfoMap m) \<Longrightarrow> GetInfoMap m = InfoMap m"
proof -
  have "go_map (acc @ im) \<Longrightarrow> fold (\<lambda>(x, info) copy. AList.update x info copy) im acc = acc @ im"
    for im acc :: infomap
  proof (induction im arbitrary: acc)
    case (Cons e im)
    obtain x info where e: "e = (x, info)" by force
    have "x \<notin> set (map fst acc)" using Cons.prems e by auto
    then have "AList.update x info acc = acc @ [(x, info)]"
      by (rule update_append_new)
    then show ?case using Cons.IH [of "acc @ [(x, info)]"] Cons.prems e by simp
  qed simp
  from this [of "[]" "InfoMap m"] show "go_map (InfoMap m) \<Longrightarrow> GetInfoMap m = InfoMap m"
    by (simp add: GetInfoMap_def)
qed

section \<open>Runs of the table\<close>

text \<open>Every call a node makes on its table, with its arguments.\<close>

datatype member_event =
    EvMerge "nat \<Rightarrow> nat" infomap int
  | EvGossipTimeout "nat \<Rightarrow> nat" int int int bool
  | EvSwimState "nat \<Rightarrow> nat" int u64 MemberState bool
  | EvCleanup int int
  | EvReset "int \<Rightarrow> string" int string int
  | EvRemove "nat \<Rightarrow> nat" u64
  | EvTarget "nat \<Rightarrow> nat"
  | EvHeartbeat u64 int

fun member_step :: "member_event \<Rightarrow> Membership \<Rightarrow> Membership" where
  "member_step (EvMerge rng mi t) m = fst (Merge rng mi t m)"
| "member_step (EvGossipTimeout rng t Tf Ts s) m = fst (UpdateStateGossip rng t Tf Ts s m)"
| "member_step (EvSwimState rng t x st s) m = fst (UpdateStateSwim rng t x st s m)"
| "member_step (EvCleanup t Tc) m = Cleanup t Tc m"
| "member_step (EvReset fmtTime t host port) m = Reset fmtTime t host port"
| "member_step (EvRemove rng x) m = RemoveMember rng x m"
| "member_step (EvTarget rng) m = snd (GetTarget rng m)"
| "member_step (EvHeartbeat x t) m = snd (Heartbeat x t m)"

lemma member_step_ok: "membership_ok m \<Longrightarrow> membership_ok (member_step e m)"
  by (cases e) (simp_all add: model_inv)

interpretation member_machine: invariant_machine member_step "\<lambda>_. True" membership_ok
  by unfold_locales (rule member_step_ok)

lemma GetTarget_total:
  "membership_ok m \<Longrightarrow> Members m \<noteq> [] \<Longrightarrow>
   \<exists>info. fst (GetTarget rng m) = Inr info \<and> State info \<noteq> Failed"
proof -
  assume ok: "membership_ok m" and ne: "Members m \<noteq> []"
  then have "is_live (InfoMap m) (Members m ! roundRobinIndex m)"
    by (simp add: membership_ok_def)
  then show ?thesis using ne
    by (auto simp: is_live_def GetTarget_def Let_def split: option.splits)
qed

text \<open>A cycle of the round robin: one shuffle source for each call.\<close>

primrec get_targets ::
  "(nat \<Rightarrow> nat) list \<Rightarrow> Membership \<Rightarrow> (member_error + Info) list \<times> Membership" where
  "get_targets [] m = ([], m)"
| "get_targets (rng # rngs) m =
     (let (r, m1) = GetTarget rng m; (rs, m2) = get_targets rngs m1 in (r # rs, m2))"

lemma get_targets_cycle:
  assumes "membership_ok m" and "roundRobinIndex m = k" and "Members m \<noteq> []"
    and "length rngs = length (Members m) - k"
  shows "fst (get_targets rngs m) =
      map (\<lambda>x. Inr (the (map_of (InfoMap m) x))) (drop k (Members m))
    \<and> roundRobinIndex (snd (get_targets rngs m)) = 0
    \<and> mset (Members (snd (get_targets rngs m))) = mset (Members m)"
  using assms
proof (induction rngs arbitrary: m k)
  case Nil
  then show ?case by (auto simp: membership_ok_def)
next
  case (Cons rng rngs)
  let ?x = "Members m ! k"
  have k: "k < length (Members m)" using Cons.prems by (auto simp: membership_ok_def)
  then have "is_live (InfoMap m) ?x" using Cons.prems by (auto simp: membership_ok_def)
  then obtain info where info: "map_of (InfoMap m) ?x = Some info"
    by (auto simp: is_live_def split: option.splits)
  have drop: "drop k (Members m) = ?x # drop (Suc k) (Members m)"
    using k by (simp add: Cons_nth_drop_Suc)
  have ok1: "membership_ok (snd (GetTarget rng m))" using Cons.prems(1) by (rule GetTarget_ok)
  show ?case
  proof (cases "Suc k = length (Members m)")
    case True
    with Cons.prems(4) have "Suc (length rngs) = Suc k - k" by simp
    then have "rngs = []" by simp
    then show ?thesis using True Cons.prems(2,3) info drop
      by (simp add: GetTarget_def Let_def)
  next
    case False
    let ?m1 = "m\<lparr>roundRobinIndex := Suc k\<rparr>"
    have g: "GetTarget rng m = (Inr info, ?m1)"
      using False Cons.prems(2,3) info by (simp add: GetTarget_def Let_def)
    then have "membership_ok ?m1" using ok1 by simp
    from Cons.IH [OF this, of "Suc k"] show ?thesis
      using Cons.prems(3,4) k g info drop by (simp add: Let_def case_prod_beta)
  qed
qed

section \<open>Independence of the enumeration order\<close>

definition entry_changes :: "Info option \<Rightarrow> Info \<Rightarrow> bool" where
  "entry_changes old info =
     (valid_info info \<and>
      (case old of None \<Rightarrow> State info \<noteq> Failed
       | Some mem \<Rightarrow> State info = Failed \<and> State mem \<noteq> Failed))"

lemma merge_entry_flag:
  "snd (merge_entry t (x, info) s) = (snd s \<or> entry_changes (map_of (fst s) x) info)"
  by (cases s) (auto simp: entry_changes_def valid_info_def split: option.splits)

lemma fold_merge_flag:
  "go_map es \<Longrightarrow> snd (fold (merge_entry t) es s) =
     (snd s \<or> (\<exists>e \<in> set es. entry_changes (map_of (fst s) (fst e)) (snd e)))"
proof (induction es arbitrary: s)
  case (Cons e es)
  obtain x info where e: "e = (x, info)" by force
  have "entry_changes (map_of (fst (merge_entry t (x, info) s)) y) i = entry_changes (map_of (fst s) y) i"
    if "(y, i) \<in> set es" for y i
  proof -
    have "y \<noteq> x" using that Cons.prems e by force
    then show ?thesis
      using merge_entry_fst_indep [of t "(x, info)" s False] by (simp only: map_of_merge_entry) simp
  qed
  then have "(\<exists>d \<in> set es. entry_changes (map_of (fst (merge_entry t (x, info) s)) (fst d)) (snd d))
      = (\<exists>d \<in> set es. entry_changes (map_of (fst s) (fst d)) (snd d))"
    by (metis prod.collapse)
  then show ?case
    using Cons.IH [of "merge_entry t (x, info) s"] Cons.prems
    by (simp add: e merge_entry_flag del: merge_entry.simps)
qed simp

lemma snd_Merge: "go_map mi \<Longrightarrow> snd (Merge rng mi t m) =
    (\<exists>e \<in> set mi. entry_changes (map_of (InfoMap m) (fst e)) (snd e))"
  using fold_merge_flag [of mi t "(InfoMap m, False)"] by (simp add: Merge_def case_prod_beta)

lemma Members_Merge:
  "Members (fst (Merge rng mi t m)) =
     (if snd (Merge rng mi t m)
      then RandomPermutation rng (live_ids (InfoMap (fst (Merge rng mi t m)))) else Members m)"
  by (simp add: Merge_def rebuild_members_def split: prod.splits)

lemma go_map_Merge: "go_map (InfoMap m) \<Longrightarrow> go_map (InfoMap (fst (Merge rng mi t m)))"
  using fold_merge_keeps [of "InfoMap m" t mi] by (simp add: InfoMap_Merge) (metis prod.collapse)

lemma merge_order_irrelevant_aux:
  assumes "go_map (InfoMap m)" and "go_map mi" and "mset mi = mset mi'"
  shows "map_of (InfoMap (fst (Merge rng mi t m))) = map_of (InfoMap (fst (Merge rng' mi' t m)))"
    and "snd (Merge rng mi t m) = snd (Merge rng' mi' t m)"
    and "set (Members (fst (Merge rng mi t m))) = set (Members (fst (Merge rng' mi' t m)))"
proof -
  have mi': "go_map mi'" using assms(2,3) by (metis mset_map mset_eq_imp_distinct_iff)
  have "map_of mi = map_of mi'" using assms(2,3) by (rule map_of_mset_cong)
  then show maps: "map_of (InfoMap (fst (Merge rng mi t m))) = map_of (InfoMap (fst (Merge rng' mi' t m)))"
    using assms(2) mi' by (simp add: fun_eq_iff map_of_Merge)
  have "set mi = set mi'" using assms(3) by (rule mset_eq_setD)
  then show flags: "snd (Merge rng mi t m) = snd (Merge rng' mi' t m)"
    using assms(2) mi' by (simp add: snd_Merge)
  have "set (live_ids (InfoMap (fst (Merge rng mi t m)))) = set (live_ids (InfoMap (fst (Merge rng' mi' t m))))"
    using maps by (simp add: set_eq_iff set_live_ids go_map_Merge assms(1) is_live_def)
  then show "set (Members (fst (Merge rng mi t m))) = set (Members (fst (Merge rng' mi' t m)))"
    using flags by (simp add: Members_Merge)
qed

lemma UpdateStateGossip_Members:
  assumes "x \<in> set (Members m)"
    and "is_live (InfoMap (fst (UpdateStateGossip rng t Tf Ts s m))) x"
    and "go_map (InfoMap (fst (UpdateStateGossip rng t Tf Ts s m)))"
  shows "x \<in> set (Members (fst (UpdateStateGossip rng t Tf Ts s m)))"
  using assms
  by (auto simp: UpdateStateGossip_def rebuild_members_def Let_def set_live_ids split: if_splits)

section \<open>Properties\<close>

definition sample_info :: "nat \<Rightarrow> MemberState \<Rightarrow> u64 \<Rightarrow> int \<Rightarrow> Info" where
  "sample_info n st c ts =
     \<lparr>Hostname = ''node'' @ dec n, Port = 8000, Version = 0, Timestamp = ts, Counter = c, State = st\<rparr>"

lemma sample_info_simps [simp]:
  "Hostname (sample_info n st c ts) = ''node'' @ dec n" "Port (sample_info n st c ts) = 8000"
  "Timestamp (sample_info n st c ts) = ts" "Counter (sample_info n st c ts) = c"
  "State (sample_info n st c ts) = st"
  by (simp_all add: sample_info_def)

definition sample_table :: Membership where
  "sample_table = \<lparr>Members = [2, 1],
     InfoMap = [(1, sample_info 1 Alive 5 100), (2, sample_info 2 Alive 9 0)], roundRobinIndex = 0\<rparr>"

lemma sample_table_simps [simp]:
  "Members sample_table = [2, 1]" "roundRobinIndex sample_table = 0"
  "InfoMap sample_table = [(1, sample_info 1 Alive 5 100), (2, sample_info 2 Alive 9 0)]"
  by (simp_all add: sample_table_def)

lemma sample_table_ok: "membership_ok sample_table"
  by (simp add: membership_ok_def is_live_def)

text \<open>
  C13. After any sequence of merges, timeouts, state changes, cleanups, removals, resets,
  target picks and heartbeats on a freshly reset table, the next gossip target exists
  exactly when the member list is non-empty, it is never a failed member, and the
  ``inconsistent membership'' error of \<open>GetTarget\<close> is unreachable.
\<close>

theorem get_target_never_inconsistent:
  "case fst (GetTarget rng (fold member_step es (Reset fmtTime t host port))) of
     Inr info \<Rightarrow> State info \<noteq> Failed
   | Inl e \<Rightarrow> e = NoExistingMember
       \<and> Members (fold member_step es (Reset fmtTime t host port)) = []"
proof -
  let ?m = "fold member_step es (Reset fmtTime t host port)"
  have ok: "membership_ok ?m"
    by (rule member_machine.run_inv) (simp_all add: Reset_ok list_all_iff)
  show ?thesis
  proof (cases "Members ?m = []")
    case True
    then show ?thesis by (simp add: GetTarget_def)
  next
    case False
    then show ?thesis using GetTarget_total [OF ok False, of rng] by (auto split: sum.splits)
  qed
qed

text \<open>
  C14. \<open>Merge\<close> treats every id by one rule (\<open>merge_view\<close>: invalid entries are ignored, a
  failure report beats any live entry, a live entry is replaced only by one with a higher
  heartbeat counter, an unknown failed node is not added), and neither the resulting
  entries nor the changed flag nor the set of members depends on the order in which Go
  enumerates the incoming map or on the shuffle.
\<close>

theorem merge_by_entry:
  assumes "go_map (InfoMap m)" and "go_map mi" and "mset mi = mset mi'"
  shows "map_of (InfoMap (fst (Merge rng mi t m))) x =
           merge_view t (map_of (InfoMap m) x) (map_of mi x)
    \<and> map_of (InfoMap (fst (Merge rng' mi' t m))) x = map_of (InfoMap (fst (Merge rng mi t m))) x
    \<and> snd (Merge rng' mi' t m) = snd (Merge rng mi t m)
    \<and> set (Members (fst (Merge rng' mi' t m))) = set (Members (fst (Merge rng mi t m)))"
  using merge_order_irrelevant_aux [OF assms, where rng = rng and t = t and rng' = rng']
    map_of_Merge [OF assms(2), where rng = rng and t = t and m = m]
  by simp

theorem merge_by_entry_witness:
  "map_of (InfoMap (fst (Merge (\<lambda>_. 0)
      [(2, sample_info 2 Failed 1 0), (3, sample_info 3 Alive 0 0)] 7 sample_table))) 2
     = Some (sample_info 2 Failed 1 7)"
  using merge_by_entry [of sample_table
      "[(2, sample_info 2 Failed 1 0), (3, sample_info 3 Alive 0 0)]"
      "[(3, sample_info 3 Alive 0 0), (2, sample_info 2 Failed 1 0)]" "\<lambda>_. 0" 7 2]
  by (simp add: merge_view_def valid_info_def) (simp add: sample_info_def)

text \<open>
  C30. The timeout scan of the variant the node runs (no suspicion) fails an entry exactly
  when it is alive and has not been refreshed for more than \<open>Tfail\<close>; a failed entry leaves
  the member list at once, and every other entry is untouched. So detection is complete
  (a silent node is failed by the first scan after \<open>Tfail\<close>) and accurate (a refreshed
  node never is).
\<close>

theorem gossip_failure_detection:
  assumes "membership_ok m" and "map_of (InfoMap m) x = Some info" and "State info \<noteq> Failed"
    and "fst (UpdateStateGossip rng t Tfail Tsuspect False m) = m'"
  shows "if State info = Alive \<and> t - Timestamp info > Tfail
         then map_of (InfoMap m') x = Some (info\<lparr>State := Failed, Timestamp := t\<rparr>)
            \<and> x \<notin> set (Members m')
         else map_of (InfoMap m') x = Some info"
proof -
  have e: "map_of (InfoMap m') x = Some (fst (gossip_timeout t Tfail Tsuspect False info))"
    using assms(2) unfolding assms(4) [symmetric] by (simp add: map_of_UpdateStateGossip)
  have ok: "membership_ok m'"
    unfolding assms(4) [symmetric] by (rule UpdateStateGossip_ok [OF assms(1)])
  show ?thesis
  proof (cases "State info = Alive \<and> t - Timestamp info > Tfail")
    case True
    then have "map_of (InfoMap m') x = Some (info\<lparr>State := Failed, Timestamp := t\<rparr>)"
      using e by (simp add: gossip_timeout_def)
    moreover from this have "x \<notin> set (Members m')"
      using ok by (auto simp: membership_ok_def is_live_def)
    ultimately show ?thesis using True by simp
  next
    case False
    then show ?thesis using e by (auto simp: gossip_timeout_def Let_def)
  qed
qed

theorem gossip_failure_detection_witness:
  "2 \<notin> set (Members (fst (UpdateStateGossip (\<lambda>_. 0) 60 50 50 False sample_table)))"
  using gossip_failure_detection [OF sample_table_ok _ _ refl, where x = 2
      and info = "sample_info 2 Alive 9 0" and rng = "\<lambda>_. 0" and t = 60 and Tfail = 50 and Tsuspect = 50]
  by simp

text \<open>
  With suspicion enabled the table passes an unresponsive member through
  \<open>Suspected\<close>: a scan later than \<open>Tsuspect\<close> after the last refresh suspects it and keeps
  it among the members, and only a further scan more than \<open>Tfail\<close> after that one fails it.
\<close>

theorem suspicion_two_phases:
  assumes "membership_ok m" and "map_of (InfoMap m) x = Some info" and "State info = Alive"
    and "t1 - Timestamp info > Tsuspect"
    and "fst (UpdateStateGossip rng1 t1 Tfail Tsuspect True m) = m1"
    and "fst (UpdateStateGossip rng2 t2 Tfail Tsuspect True m1) = m2"
  shows "map_of (InfoMap m1) x = Some (info\<lparr>State := Suspected, Timestamp := t1\<rparr>)
    \<and> (x \<in> set (Members m) \<longrightarrow> x \<in> set (Members m1))
    \<and> (if t2 - t1 > Tfail
       then map_of (InfoMap m2) x = Some (info\<lparr>State := Failed, Timestamp := t2\<rparr>)
         \<and> x \<notin> set (Members m2)
       else map_of (InfoMap m2) x = Some (info\<lparr>State := Suspected, Timestamp := t1\<rparr>))"
proof -
  have e1: "map_of (InfoMap m1) x = Some (info\<lparr>State := Suspected, Timestamp := t1\<rparr>)"
    using assms(2-4) unfolding assms(5) [symmetric]
    by (simp add: map_of_UpdateStateGossip gossip_timeout_def)
  have ok1: "membership_ok m1" and ok2: "membership_ok m2"
    using assms(1,5,6) UpdateStateGossip_ok by blast+
  have e2: "map_of (InfoMap m2) x = Some (if t2 - t1 > Tfail
      then info\<lparr>State := Failed, Timestamp := t2\<rparr> else info\<lparr>State := Suspected, Timestamp := t1\<rparr>)"
    using e1 unfolding assms(6) [symmetric]
    by (simp add: map_of_UpdateStateGossip gossip_timeout_def)
  have "x \<in> set (Members m) \<longrightarrow> x \<in> set (Members m1)"
    using UpdateStateGossip_Members [of x m rng1 t1 Tfail Tsuspect True] e1 assms(5) ok1
    by (simp add: is_live_def membership_ok_def)
  then show ?thesis using e1 e2 ok2 by (auto simp: membership_ok_def is_live_def)
qed

theorem suspicion_two_phases_witness:
  "map_of (InfoMap (fst (UpdateStateGossip (\<lambda>_. 0) 111 50 10 True
      (fst (UpdateStateGossip (\<lambda>_. 0) 60 50 10 True sample_table))))) 2
     = Some ((sample_info 2 Alive 9 0)\<lparr>State := Failed, Timestamp := 111\<rparr>)"
  using suspicion_two_phases [OF sample_table_ok _ _ _ refl refl, where x = 2
      and info = "sample_info 2 Alive 9 0" and Tsuspect = 10 and Tfail = 50
      and ?t1.0 = 60 and ?t2.0 = 111 and ?rng1.0 = "\<lambda>_. 0" and ?rng2.0 = "\<lambda>_. 0"]
  by simp



text \<open>
  Gossip does not always converge: when one node holds a member as failed and another
  holds it as alive with a higher counter, an exchange of their tables makes the two nodes
  swap their opinions (a failure report wins whatever its counter, a higher counter wins
  over a failed entry), so afterwards they still disagree on whether the member is alive.
\<close>

theorem merge_exchange_swaps:
  assumes "go_map (InfoMap a)" and "go_map (InfoMap b)"
    and "map_of (InfoMap a) x = Some dead" and "State dead = Failed" and "valid_info dead"
    and "map_of (InfoMap b) x = Some live" and "State live = Alive" and "valid_info live"
    and "Counter live > Counter dead"
  shows "map_of (InfoMap (fst (Merge rng (GetInfoMap b) t a))) x = Some (live\<lparr>Timestamp := t\<rparr>)
    \<and> map_of (InfoMap (fst (Merge rng' (GetInfoMap a) t b))) x = Some (dead\<lparr>Timestamp := t\<rparr>)"
  using assms by (simp add: GetInfoMap_id map_of_Merge merge_view_def)

theorem merge_exchange_swaps_witness:
  "map_of (InfoMap (fst (Merge (\<lambda>_. 0) (GetInfoMap sample_table) 70
     \<lparr>Members = [], InfoMap = [(2, sample_info 2 Failed 8 60)], roundRobinIndex = 0\<rparr>))) 2
     = Some (sample_info 2 Alive 9 70)"
  using merge_exchange_swaps [of "\<lparr>Members = [], InfoMap = [(2, sample_info 2 Failed 8 60)],
      roundRobinIndex = 0\<rparr>" sample_table 2 "sample_info 2 Failed 8 60" "sample_info 2 Alive 9 0"
      "\<lambda>_. 0" 70]
  by (simp add: valid_info_def) (simp add: sample_info_def)

text \<open>
  A failed member that is merged back with a higher counter becomes alive in the table
  but is not put back into the member list (the list is rebuilt only when a member is
  added or fails), so it is never again picked as a gossip target until some other change
  rebuilds the list.
\<close>

theorem resurrected_member_not_targeted:
  assumes "membership_ok m" and "map_of (InfoMap m) x = Some old" and "State old = Failed"
    and "valid_info new" and "State new \<noteq> Failed" and "Counter new > Counter old"
    and "fst (Merge rng [(x, new)] t m) = m'"
  shows "map_of (InfoMap m') x = Some (new\<lparr>Timestamp := t\<rparr>)
    \<and> x \<notin> set (Members m') \<and> Members m' = Members m"
proof -
  have "x \<notin> set (Members m)" using assms(1-3) by (auto simp: membership_ok_def is_live_def)
  then show ?thesis using assms(2-6) unfolding assms(7) [symmetric]
    by (simp add: map_of_Merge merge_view_def Members_Merge snd_Merge entry_changes_def)
qed

theorem resurrected_member_not_targeted_witness:
  "Members (fst (Merge (\<lambda>_. 0) [(3, sample_info 3 Alive 9 0)] 7
     \<lparr>Members = [1], InfoMap = [(1, sample_info 1 Alive 5 0), (3, sample_info 3 Failed 4 0)],
      roundRobinIndex = 0\<rparr>)) = [1]"
  using resurrected_member_not_targeted [OF _ _ _ _ _ _ refl, of "\<lparr>Members = [1],
      InfoMap = [(1, sample_info 1 Alive 5 0), (3, sample_info 3 Failed 4 0)], roundRobinIndex = 0\<rparr>"
      3 "sample_info 3 Failed 4 0" "sample_info 3 Alive 9 0" "\<lambda>_. 0" 7]
  by (simp add: valid_info_def membership_ok_def is_live_def)

end
