(* ===== verification/Membership_Table.thy ===== *)
theory Membership_Table
  imports Membership
begin

text \<open>
  The three renderings of the membership table (\<open>String\<close>, \<open>Table\<close>, \<open>WholeTable\<close> in
  \<open>pkg/membership/member.go\<close>).

  \<^item> \<open>fmtTime\<close> is \<open>Format(time.RFC3339Nano)\<close>, which depends on the host's time zone.
  \<^item> \<open>sort.Slice\<close> is \<open>sort_key\<close>; it may order rows with equal host and port otherwise
    than the library does, which no lemma here depends on.
  \<^item> The column widths are the map \<open>maxLengths\<close> of the code, one key for each column.
\<close>

section \<open>Rows and columns\<close>

record Pair =
  PId :: u64
  PHostname :: string
  PPort :: int

definition newline :: string where
  "newline = [char_of (10 :: nat)]"

fun String_line :: "(int \<Rightarrow> string) \<Rightarrow> u64 \<Rightarrow> Info \<Rightarrow> string" where
  "String_line fmtTime x info =
     ''ID: '' @ dec_u64 x @ '', Hostname: '' @ Hostname info @ '', Port: '' @ dec_int (Port info)
     @ '', Version: '' @ fmtTime (Version info) @ '', Timestamp: '' @ fmtTime (Timestamp info)
     @ '', Counter: '' @ dec_u64 (Counter info) @ '', State: '' @ stateName (State info) @ newline"

definition String :: "(int \<Rightarrow> string) \<Rightarrow> Membership \<Rightarrow> string" where
  "String fmtTime m =
     fold (\<lambda>x res. res @ String_line fmtTime x (go_get zero_info (InfoMap m) x)) (Members m)
       (''Membership:'' @ newline)"

text \<open>The rows of \<open>Table\<close> are the members, those of \<open>WholeTable\<close> all the entries.\<close>

definition member_pairs :: "Membership \<Rightarrow> Pair list" where
  "member_pairs m = map (\<lambda>x. let info = go_get zero_info (InfoMap m) x in
     \<lparr>PId = x, PHostname = Hostname info, PPort = Port info\<rparr>) (Members m)"

definition entry_pairs :: "Membership \<Rightarrow> Pair list" where
  "entry_pairs m = map (\<lambda>(x, info). \<lparr>PId = x, PHostname = Hostname info, PPort = Port info\<rparr>) (InfoMap m)"

definition pair_less :: "Pair \<Rightarrow> Pair \<Rightarrow> bool" where
  "pair_less p q =
     (if PHostname p \<noteq> PHostname q then PHostname p < PHostname q else PPort p < PPort q)"

fun insert_pair :: "Pair \<Rightarrow> Pair list \<Rightarrow> Pair list" where
  "insert_pair p [] = [p]"
| "insert_pair p (q # qs) = (if pair_less q p then q # insert_pair p qs else p # q # qs)"

definition sort_pairs :: "Pair list \<Rightarrow> Pair list" where
  "sort_pairs ps = foldr insert_pair ps []"

definition min_lengths :: "(string, nat) gomap" where
  "min_lengths = [(''Id'', 2), (''Hostname'', 8), (''Port'', 4), (''Version'', 7),
     (''Timestamp'', 9), (''Counter'', 7), (''State'', 5)]"

definition header_cells :: "(string \<times> string) list" where
  "header_cells = [(''Id'', ''ID''), (''Hostname'', ''Hostname''), (''Port'', ''Port''),
     (''Version'', ''Version''), (''Timestamp'', ''Timestamp''), (''Counter'', ''Counter''),
     (''State'', ''State'')]"

definition row_cells :: "(int \<Rightarrow> string) \<Rightarrow> infomap \<Rightarrow> Pair \<Rightarrow> (string \<times> string) list" where
  "row_cells fmtTime im p =
     (let info = go_get zero_info im (PId p) in
      [(''Id'', dec_u64 (PId p)), (''Hostname'', PHostname p), (''Port'', dec_int (PPort p)),
       (''Version'', fmtTime (Version info)), (''Timestamp'', fmtTime (Timestamp info)),
       (''Counter'', dec_u64 (Counter info)), (''State'', stateName (State info))])"

text \<open>The loop over \<open>lengths\<close>: a column grows to its widest cell.\<close>

definition widen :: "(string \<times> string) list \<Rightarrow> (string, nat) gomap \<Rightarrow> (string, nat) gomap" where
  "widen cells maxLengths =
     fold (\<lambda>(key, cell) ml. if go_get 0 ml key < length cell then AList.update key (length cell) ml
       else ml) cells maxLengths"

definition max_lengths :: "(int \<Rightarrow> string) \<Rightarrow> infomap \<Rightarrow> Pair list \<Rightarrow> (string, nat) gomap" where
  "max_lengths fmtTime im ps = fold (\<lambda>p. widen (row_cells fmtTime im p)) ps min_lengths"

definition total_length :: "(string, nat) gomap \<Rightarrow> nat" where
  "total_length maxLengths = fold (\<lambda>(_, v) n. n + v) maxLengths 22"

definition pad_cell :: "(string, nat) gomap \<Rightarrow> string \<times> string \<Rightarrow> string" where
  "pad_cell maxLengths kc = (case kc of (key, s) \<Rightarrow>
     if length s < go_get 0 maxLengths key
     then s @ replicate (go_get 0 maxLengths key - length s) (CHR '' '') else s)"

fun cells_line :: "(string, nat) gomap \<Rightarrow> (string \<times> string) list \<Rightarrow> string" where
  "cells_line ml [] = []"
| "cells_line ml [c] = pad_cell ml c @ '' |''"
| "cells_line ml (c # d # cs) = pad_cell ml c @ '' | '' @ cells_line ml (d # cs)"

definition row_line :: "(string, nat) gomap \<Rightarrow> (string \<times> string) list \<Rightarrow> string" where
  "row_line ml cells = ''| '' @ cells_line ml cells"

definition ruler :: "(string, nat) gomap \<Rightarrow> string" where
  "ruler ml = replicate (total_length ml) (CHR ''-'')"

definition render_table :: "(int \<Rightarrow> string) \<Rightarrow> infomap \<Rightarrow> Pair list \<Rightarrow> string" where
  "render_table fmtTime im pairs =
     (let infoList = sort_pairs pairs;
          ml = max_lengths fmtTime im infoList;
          top = ruler ml @ newline @ row_line ml header_cells @ newline @ ruler ml @ newline;
          body = fold (\<lambda>p res. res @ row_line ml (row_cells fmtTime im p) @ newline) infoList top
      in body @ ruler ml @ newline)"

definition Table :: "(int \<Rightarrow> string) \<Rightarrow> Membership \<Rightarrow> string" where
  "Table fmtTime m = render_table fmtTime (InfoMap m) (member_pairs m)"

definition WholeTable :: "(int \<Rightarrow> string) \<Rightarrow> Membership \<Rightarrow> string" where
  "WholeTable fmtTime m = render_table fmtTime (InfoMap m) (entry_pairs m)"

section \<open>Every line is as wide as the rulers\<close>

lemma mset_insert_pair [simp]: "mset (insert_pair p qs) = add_mset p (mset qs)"
  by (induction qs) auto

lemma mset_sort_pairs [simp]: "mset (sort_pairs ps) = mset ps"
  by (induction ps) (simp_all add: sort_pairs_def)

lemma length_sort_pairs [simp]: "length (sort_pairs ps) = length ps"
  by (metis mset_sort_pairs size_mset)

lemma widen_Cons: "widen ((k, c) # cs) ml =
    widen cs (if go_get 0 ml k < length c then AList.update k (length c) ml else ml)"
  by (simp add: widen_def)

lemma widen_get: "distinct (map fst cs) \<Longrightarrow>
    go_get 0 (widen cs ml) k = (case map_of cs k of None \<Rightarrow> go_get 0 ml k
      | Some c \<Rightarrow> max (go_get 0 ml k) (length c))"
proof (induction cs arbitrary: ml)
  case Nil
  then show ?case by (simp add: widen_def)
next
  case (Cons e cs)
  obtain key c where e: "e = (key, c)" by force
  have "key \<in> set (map fst cs) \<Longrightarrow> False" using Cons.prems e by simp
  then have none: "map_of cs key = None" by (auto simp: map_of_eq_None_iff)
  show ?case
    using Cons.IH Cons.prems none
    by (auto simp: e widen_Cons go_get_update split: option.splits)
qed

lemma widen_keys: "set (map fst cs) \<subseteq> set (go_keys ml) \<Longrightarrow> go_keys (widen cs ml) = go_keys ml"
proof (induction cs arbitrary: ml)
  case Nil
  then show ?case by (simp add: widen_def)
next
  case (Cons e cs)
  obtain key c where e: "e = (key, c)" by force
  have keys: "go_keys (AList.update key v ml) = go_keys ml" for v
    using Cons.prems e by (simp add: AList.update_keys del: map_append)
  have "go_keys (widen cs (if go_get 0 ml key < length c then AList.update key (length c) ml else ml))
      = go_keys ml"
    using Cons.IH [of "AList.update key (length c) ml"] Cons.IH [of ml] Cons.prems
    by (simp only: keys e split: if_splits) auto
  then show ?case by (simp only: e widen_Cons)
qed

definition columns :: "string list" where
  "columns = [''Id'', ''Hostname'', ''Port'', ''Version'', ''Timestamp'', ''Counter'', ''State'']"

lemma columns_of [simp]:
  "map fst (row_cells fmtTime im p) = columns" "map fst header_cells = columns"
  "go_keys min_lengths = columns"
  by (simp_all add: row_cells_def header_cells_def min_lengths_def columns_def Let_def)

lemma distinct_columns: "distinct columns"
  by (simp add: columns_def)

lemma max_lengths_props:
  fixes acc :: "(string, nat) gomap"
  assumes "go_keys acc = columns"
  shows "go_keys (fold (\<lambda>p. widen (row_cells fmtTime im p)) ps acc) = columns
    \<and> go_get 0 acc k \<le> go_get 0 (fold (\<lambda>p. widen (row_cells fmtTime im p)) ps acc) k
    \<and> (\<forall>p \<in> set ps. \<forall>c. map_of (row_cells fmtTime im p) k = Some c \<longrightarrow>
         length c \<le> go_get 0 (fold (\<lambda>p. widen (row_cells fmtTime im p)) ps acc) k)"
  using assms
proof (induction ps arbitrary: acc)
  case (Cons p ps)
  have w: "go_get 0 (widen (row_cells fmtTime im p) acc) k =
      (case map_of (row_cells fmtTime im p) k of None \<Rightarrow> go_get 0 acc k
       | Some c \<Rightarrow> max (go_get 0 acc k) (length c))"
    by (rule widen_get) (simp add: distinct_columns)
  have "go_keys (widen (row_cells fmtTime im p) acc) = columns"
    using Cons.prems by (simp add: widen_keys)
  from Cons.IH [OF this] show ?case by (auto simp: w split: option.splits)
qed simp

lemma total_length_sum: "total_length ml = 22 + sum_list (map snd ml)"
proof -
  have "fold (\<lambda>(_, v) n. n + v) ml a = a + sum_list (map snd ml)" for a :: nat
    by (induction ml arbitrary: a) auto
  then show ?thesis by (simp add: total_length_def)
qed

lemma sum_list_go_get:
  "go_map ml \<Longrightarrow> sum_list (map snd ml) = sum_list (map (go_get 0 ml) (go_keys ml))"
proof (induction ml)
  case (Cons e ml)
  obtain k v where e: "e = (k, v)" by force
  have "map (go_get 0 (e # ml)) (go_keys ml) = map (go_get 0 ml) (go_keys ml)"
    using Cons.prems by (auto simp: go_get_def e)
  then have "sum_list (map (go_get 0 (e # ml)) (go_keys (e # ml))) =
      v + sum_list (map (go_get 0 ml) (go_keys ml))"
    by (simp only: list.map sum_list.Cons e fst_conv) (simp add: go_get_def)
  then show ?case using Cons by (simp add: e)
qed simp

lemma length_row_line:
  assumes "map fst cells = columns" and "go_keys ml = columns"
    and "\<And>k c. map_of cells k = Some c \<Longrightarrow> length c \<le> go_get 0 ml k"
  shows "length (row_line ml cells) = total_length ml"
proof -
  have cell: "length (pad_cell ml kc) = go_get 0 ml (fst kc)" if "kc \<in> set cells" for kc
  proof -
    have "map_of cells (fst kc) = Some (snd kc)"
      using that assms(1) distinct_columns by (simp add: go_map_lookup_iff)
    then have "length (snd kc) \<le> go_get 0 ml (fst kc)" by (rule assms(3))
    then show ?thesis by (cases kc) (auto simp: pad_cell_def)
  qed
  have len: "cs \<noteq> [] \<Longrightarrow> set cs \<subseteq> set cells \<Longrightarrow> length (cells_line ml cs) =
      3 * length cs - 1 + sum_list (map (go_get 0 ml) (map fst cs))" for cs
    by (induction cs rule: induct_list012) (auto simp: cell)
  have "length cells = 7" and ne: "cells \<noteq> []"
    using arg_cong [OF assms(1), of length] by (auto simp: columns_def)
  then show ?thesis
    using len [OF ne] assms(1,2) distinct_columns
    by (simp add: row_line_def total_length_sum sum_list_go_get)
qed

lemma header_fits: "list_all (\<lambda>(k, c). length c \<le> go_get 0 min_lengths k) header_cells"
  by code_simp

definition table_lines :: "(int \<Rightarrow> string) \<Rightarrow> infomap \<Rightarrow> Pair list \<Rightarrow> string list" where
  "table_lines fmtTime im pairs =
     (let infoList = sort_pairs pairs; ml = max_lengths fmtTime im infoList in
      [ruler ml, row_line ml header_cells, ruler ml]
      @ map (\<lambda>p. row_line ml (row_cells fmtTime im p)) infoList @ [ruler ml])"

lemma render_table_lines:
  "render_table fmtTime im ps = concat (map (\<lambda>l. l @ newline) (table_lines fmtTime im ps))"
proof -
  have "fold (\<lambda>p res. res @ f p @ newline) qs a = a @ concat (map (\<lambda>p. f p @ newline) qs)"
    for f :: "Pair \<Rightarrow> string" and qs a
    by (induction qs arbitrary: a) auto
  then show ?thesis by (simp add: render_table_def table_lines_def Let_def comp_def)
qed

lemma table_lines_width:
  "l \<in> set (table_lines fmtTime im ps) \<Longrightarrow>
   length l = total_length (max_lengths fmtTime im (sort_pairs ps))"
proof -
  let ?ml = "max_lengths fmtTime im (sort_pairs ps)"
  note props = max_lengths_props [OF columns_of(3), of fmtTime im "sort_pairs ps", folded max_lengths_def]
  have keys: "go_keys ?ml = columns" using props by blast
  have hdr: "length c \<le> go_get 0 ?ml k" if "map_of header_cells k = Some c" for k c
  proof -
    have "length c \<le> go_get 0 min_lengths k"
      using map_of_SomeD [OF that] header_fits by (auto simp: list_all_iff)
    then show ?thesis using props [of k] by linarith
  qed
  have "length (row_line ?ml header_cells) = total_length ?ml"
    by (rule length_row_line) (use keys hdr in auto)
  moreover have "length (row_line ?ml (row_cells fmtTime im p)) = total_length ?ml"
    if "p \<in> set (sort_pairs ps)" for p
    by (rule length_row_line) (use keys props that in auto)
  moreover assume "l \<in> set (table_lines fmtTime im ps)"
  ultimately show ?thesis by (auto simp: table_lines_def Let_def ruler_def)
qed

text \<open>
  The printed membership table is a proper table: \<open>Table\<close> is a sequence of
  newline-terminated lines, two rulers around a header, one row for each member and a
  closing ruler, and all of them have the same width, whatever the hosts, the ports and the
  rendering of times.
\<close>

theorem Table_aligned:
  "\<exists>ls w. Table fmtTime m = concat (map (\<lambda>l. l @ newline) ls)
     \<and> length ls = length (Members m) + 4 \<and> list_all (\<lambda>l. length l = w) ls
     \<and> ls ! 0 = replicate w (CHR ''-'') \<and> last ls = replicate w (CHR ''-'')"
proof -
  let ?ls = "table_lines fmtTime (InfoMap m) (member_pairs m)"
  let ?w = "total_length (max_lengths fmtTime (InfoMap m) (sort_pairs (member_pairs m)))"
  have "length ?ls = length (Members m) + 4"
    by (simp add: table_lines_def Let_def member_pairs_def)
  moreover have "list_all (\<lambda>l. length l = ?w) ?ls"
    using table_lines_width by (auto simp: list_all_iff)
  moreover have "?ls ! 0 = replicate ?w (CHR ''-'')" and "last ?ls = replicate ?w (CHR ''-'')"
    by (simp_all add: table_lines_def Let_def ruler_def)
  ultimately show ?thesis
    unfolding Table_def render_table_lines by blast
qed

end
