(* ===== verification/Gossip_Swim.thy ===== *)
theory Gossip_Swim
  imports Membership
begin

text \<open>
  The two dissemination protocols over the membership table (\<open>pkg/membership\<close>:
  \<open>gossip.go\<close>, \<open>swim.go\<close>), their messages (\<open>utils.go\<close>) and the byte counter of the node
  (\<open>flow.go\<close>).

  \<^item> \<open>send\<close> is \<open>SendMessage\<close>: the number of bytes sent, or \<open>None\<close> for an error; every
    attempted transmission is also an output of the step.
  \<^item> \<open>log.Fatalf\<close> and \<open>os.Exit(1)\<close> end the process: the steps return \<open>Inl\<close>.
  \<^item> \<open>seed n\<close> is the generator of the \<open>n\<close>-th shuffle of a step, \<open>shuf x\<close> the one of the shuffle
    that a change of state of the member \<open>x\<close> causes.
  \<^item> A \<open>range\<close> over a map that writes or deletes the key at hand visits the entries the
    map had when the loop began.
\<close>

section \<open>Messages\<close>

datatype MessageType =
    Ping | Pong | PingReq | GossipMsg | Probe | ProbeAckGossip | ProbeAckSwim | UseSwimSus
  | UseSwimNoSus | UseGossipSus | UseGossipNoSus | Leave

record Message =
  MsgType :: MessageType
  SenderInfo :: Info
  TargetInfo :: Info
  RequesterInfo :: Info
  MsgInfoMap :: infomap

type_synonym sent = "Message \<times> string \<times> int"
type_synonym sender = "Message \<Rightarrow> string \<Rightarrow> int \<Rightarrow> int option"

definition plain_message :: "MessageType \<Rightarrow> infomap \<Rightarrow> Message" where
  "plain_message ty im = \<lparr>MsgType = ty, SenderInfo = zero_info, TargetInfo = zero_info,
     RequesterInfo = zero_info, MsgInfoMap = im\<rparr>"

text \<open>\<open>n, err := SendMessage(...)\<close>, where an error comes with \<open>n = 0\<close>.\<close>

definition sent_bytes :: "int option \<Rightarrow> int" where
  "sent_bytes r = (case r of None \<Rightarrow> 0 | Some n \<Rightarrow> n)"

datatype step_exit = HeartbeatFatal member_error | TargetExit member_error

section \<open>Gossip\<close>

definition Gossip_HandleIncomingMessage ::
  "(nat \<Rightarrow> nat) \<Rightarrow> int \<Rightarrow> Message \<Rightarrow> Membership \<Rightarrow> Membership" where
  "Gossip_HandleIncomingMessage rng now message m = fst (Merge rng (MsgInfoMap message) now m)"

definition GossipStep ::
  "(nat \<Rightarrow> nat \<Rightarrow> nat) \<Rightarrow> sender \<Rightarrow> int \<Rightarrow> u64 \<Rightarrow> int \<Rightarrow> int \<Rightarrow> int \<Rightarrow> bool \<Rightarrow> Membership \<Rightarrow>
   (step_exit + int) \<times> Membership \<times> sent list" where
  "GossipStep seed send currentTime myId Tfail Tsuspect Tcleanup suspicionEnabled m =
     (case Heartbeat myId currentTime m of
        (Inl err, m1) \<Rightarrow> (Inl (HeartbeatFatal err), m1, [])
      | (Inr _, m1) \<Rightarrow>
          let m2 = fst (UpdateStateGossip (seed 0) currentTime Tfail Tsuspect suspicionEnabled m1);
              m3 = Cleanup currentTime Tcleanup m2
          in case GetTarget (seed 1) m3 of
               (Inl err, m4) \<Rightarrow> (Inl (TargetExit err), m4, [])
             | (Inr targetInfo, m4) \<Rightarrow>
                 let message = plain_message GossipMsg (GetInfoMap m4);
                     n = send message (Hostname targetInfo) (Port targetInfo)
                 in (Inr (sent_bytes n), m4, [(message, Hostname targetInfo, Port targetInfo)]))"

section \<open>SWIM\<close>

record Swim =
  SwMembership :: Membership
  waitAcksDirect :: infomap
  waitAcksIndirect :: infomap

definition NewSwim :: "Membership \<Rightarrow> Swim" where
  "NewSwim m = \<lparr>SwMembership = m, waitAcksDirect = [], waitAcksIndirect = []\<rparr>"

definition Swim_HandleIncomingMessage ::
  "(int \<Rightarrow> string) \<Rightarrow> (nat \<Rightarrow> nat) \<Rightarrow> sender \<Rightarrow> int \<Rightarrow> Message \<Rightarrow> Info \<Rightarrow> Swim \<Rightarrow>
   int \<times> Swim \<times> sent list" where
  "Swim_HandleIncomingMessage fmtTime rng send currentTime message myInfo s =
     (let s1 = s\<lparr>SwMembership := fst (Merge rng (MsgInfoMap message) currentTime (SwMembership s))\<rparr>;
          im = GetInfoMap (SwMembership s1) in
      case MsgType message of
        Ping \<Rightarrow>
          let ack = \<lparr>MsgType = Pong, SenderInfo = myInfo, TargetInfo = SenderInfo message,
                     RequesterInfo = RequesterInfo message, MsgInfoMap = im\<rparr>;
              to = SenderInfo message
          in (sent_bytes (send ack (Hostname to) (Port to)), s1, [(ack, Hostname to, Port to)])
      | Pong \<Rightarrow>
          let senderId = HashInfo fmtTime (SenderInfo message);
              targetId = HashInfo fmtTime (TargetInfo message);
              requesterId = HashInfo fmtTime (RequesterInfo message)
          in if requesterId = targetId
             then (0, s1\<lparr>waitAcksDirect := AList.delete senderId (waitAcksDirect s1),
                         waitAcksIndirect := AList.delete senderId (waitAcksIndirect s1)\<rparr>, [])
             else
               let ack = \<lparr>MsgType = Pong, SenderInfo = SenderInfo message,
                          TargetInfo = RequesterInfo message,
                          RequesterInfo = RequesterInfo message, MsgInfoMap = im\<rparr>;
                   to = RequesterInfo message
               in (sent_bytes (send ack (Hostname to) (Port to)), s1, [(ack, Hostname to, Port to)])
      | PingReq \<Rightarrow>
          let ping = \<lparr>MsgType = Ping, SenderInfo = myInfo, TargetInfo = TargetInfo message,
                      RequesterInfo = RequesterInfo message, MsgInfoMap = im\<rparr>;
              to = TargetInfo message
          in (sent_bytes (send ping (Hostname to) (Port to)), s1, [(ping, Hostname to, Port to)])
      | _ \<Rightarrow> (0, s1, []))"

text \<open>
  \<open>SendPingReq\<close>: \<open>k\<close> requests to \<open>k\<close> successive targets, all with the table as it was
  before the loop. The first missing target ends the process.
\<close>

fun ping_req_loop ::
  "(nat \<Rightarrow> nat \<Rightarrow> nat) \<Rightarrow> sender \<Rightarrow> nat \<Rightarrow> nat \<Rightarrow> Message \<Rightarrow> Membership \<Rightarrow>
   (step_exit + int) \<times> Membership \<times> sent list" where
  "ping_req_loop seed send c 0 message m = (Inr 0, m, [])"
| "ping_req_loop seed send c (Suc k) message m =
     (case GetTarget (seed c) m of
        (Inl err, m1) \<Rightarrow> (Inl (TargetExit err), m1, [])
      | (Inr forwarderInfo, m1) \<Rightarrow>
          let sz = sent_bytes (send message (Hostname forwarderInfo) (Port forwarderInfo));
              out = (message, Hostname forwarderInfo, Port forwarderInfo) in
          case ping_req_loop seed send (Suc c) k message m1 of
            (Inl err, m2, outs) \<Rightarrow> (Inl err, m2, out # outs)
          | (Inr n, m2, outs) \<Rightarrow> (Inr (sz + n), m2, out # outs))"

definition SendPingReq ::
  "(nat \<Rightarrow> nat \<Rightarrow> nat) \<Rightarrow> sender \<Rightarrow> nat \<Rightarrow> nat \<Rightarrow> Info \<Rightarrow> Info \<Rightarrow> Membership \<Rightarrow>
   (step_exit + int) \<times> Membership \<times> sent list" where
  "SendPingReq seed send c k myInfo targetInfo m =
     ping_req_loop seed send c k
       \<lparr>MsgType = PingReq, SenderInfo = myInfo, TargetInfo = targetInfo, RequesterInfo = myInfo,
        MsgInfoMap = GetInfoMap m\<rparr> m"

fun ping_req_all ::
  "(nat \<Rightarrow> nat \<Rightarrow> nat) \<Rightarrow> sender \<Rightarrow> nat \<Rightarrow> nat \<Rightarrow> Info \<Rightarrow> Info list \<Rightarrow> Membership \<Rightarrow>
   (step_exit + int) \<times> Membership \<times> sent list" where
  "ping_req_all seed send c k myInfo [] m = (Inr 0, m, [])"
| "ping_req_all seed send c k myInfo (info # infos) m =
     (case SendPingReq seed send c k myInfo info m of
        (Inl err, m1, outs) \<Rightarrow> (Inl err, m1, outs)
      | (Inr n, m1, outs) \<Rightarrow>
          case ping_req_all seed send (c + k) k myInfo infos m1 of
            (Inl err, m2, outs2) \<Rightarrow> (Inl err, m2, outs @ outs2)
          | (Inr n2, m2, outs2) \<Rightarrow> (Inr (n + n2), m2, outs @ outs2))"

text \<open>One entry of \<open>waitAcksIndirect\<close>: overdue targets are suspected, then failed.\<close>

definition check_indirect ::
  "(nat \<Rightarrow> nat) \<Rightarrow> int \<Rightarrow> int \<Rightarrow> bool \<Rightarrow> u64 \<times> Info \<Rightarrow> Swim \<Rightarrow> Swim" where
  "check_indirect rng currentTime TpingReqFail suspicionEnabled e s =
     (case e of (mid, info) \<Rightarrow>
        if currentTime - Timestamp info > TpingReqFail then
          (case State info of
             Alive \<Rightarrow> s\<lparr>SwMembership := fst (UpdateStateSwim rng currentTime mid Suspected
                          suspicionEnabled (SwMembership s)),
                       waitAcksIndirect := AList.update mid
                          (info\<lparr>Timestamp := currentTime, State := Suspected\<rparr>) (waitAcksIndirect s)\<rparr>
           | Suspected \<Rightarrow> s\<lparr>SwMembership := fst (UpdateStateSwim rng currentTime mid Failed
                          suspicionEnabled (SwMembership s)),
                       waitAcksIndirect := AList.delete mid (waitAcksIndirect s)\<rparr>
           | Failed \<Rightarrow> s)
        else s)"

text \<open>One entry of \<open>waitAcksDirect\<close>: overdue targets are handed to indirect probing.\<close>

definition check_direct ::
  "int \<Rightarrow> int \<Rightarrow> u64 \<times> Info \<Rightarrow> Swim \<times> Info list \<Rightarrow> Swim \<times> Info list" where
  "check_direct currentTime TpingFail e st =
     (case (e, st) of ((mid, info), (s, membersToPingReq)) \<Rightarrow>
        if currentTime - Timestamp info > TpingFail then
          let info1 = info\<lparr>Timestamp := currentTime\<rparr> in
          (s\<lparr>waitAcksDirect := AList.delete mid (waitAcksDirect s),
             waitAcksIndirect := AList.update mid info1 (waitAcksIndirect s)\<rparr>,
           membersToPingReq @ [info1])
        else (s, membersToPingReq))"

definition swim_timeouts ::
  "(u64 \<Rightarrow> nat \<Rightarrow> nat) \<Rightarrow> int \<Rightarrow> int \<Rightarrow> int \<Rightarrow> bool \<Rightarrow> Swim \<Rightarrow> Swim \<times> Info list" where
  "swim_timeouts shuf currentTime TpingFail TpingReqFail suspicionEnabled s =
     (let s1 = fold (\<lambda>e. check_indirect (shuf (fst e)) currentTime TpingReqFail suspicionEnabled e)
                 (waitAcksIndirect s) s
      in fold (check_direct currentTime TpingFail) (waitAcksDirect s1) (s1, []))"

definition SwimStep ::
  "(int \<Rightarrow> string) \<Rightarrow> (u64 \<Rightarrow> nat \<Rightarrow> nat) \<Rightarrow> (nat \<Rightarrow> nat \<Rightarrow> nat) \<Rightarrow> sender \<Rightarrow> int \<Rightarrow> u64 \<Rightarrow> Info \<Rightarrow> nat \<Rightarrow> int \<Rightarrow> int \<Rightarrow> int \<Rightarrow>
   bool \<Rightarrow> Swim \<Rightarrow> (step_exit + int) \<times> Swim \<times> sent list" where
  "SwimStep fmtTime shuf seed send currentTime myId myInfo k TpingFail TpingReqFail Tcleanup
       suspicionEnabled s =
     (case Heartbeat myId currentTime (SwMembership s) of
        (Inl err, m1) \<Rightarrow> (Inl (HeartbeatFatal err), s\<lparr>SwMembership := m1\<rparr>, [])
      | (Inr _, m1) \<Rightarrow>
          (case swim_timeouts shuf currentTime TpingFail TpingReqFail suspicionEnabled
                  (s\<lparr>SwMembership := m1\<rparr>) of
             (s2, membersToPingReq) \<Rightarrow>
               (case ping_req_all seed send 0 k myInfo membersToPingReq (SwMembership s2) of
                  (Inl err, m3, outs) \<Rightarrow> (Inl err, s2\<lparr>SwMembership := m3\<rparr>, outs)
                | (Inr totalBytes, m3, outs) \<Rightarrow>
                    let m4 = Cleanup currentTime Tcleanup m3;
                        r = GetTarget (seed (k * length membersToPingReq)) m4;
                        s4 = s2\<lparr>SwMembership := snd r\<rparr>
                    in case fst r of
                         Inl err \<Rightarrow> (Inl (TargetExit err), s4, outs)
                       | Inr targetInfo \<Rightarrow>
                           let message = \<lparr>MsgType = Ping, SenderInfo = myInfo,
                                          TargetInfo = targetInfo, RequesterInfo = myInfo,
                                          MsgInfoMap = GetInfoMap (SwMembership s4)\<rparr>;
                               outs2 = outs @ [(message, Hostname targetInfo, Port targetInfo)]
                           in case send message (Hostname targetInfo) (Port targetInfo) of
                                None \<Rightarrow> (Inr totalBytes, s4, outs2)
                              | Some n \<Rightarrow>
                                  (Inr (totalBytes + n),
                                   s4\<lparr>waitAcksDirect := AList.update (HashInfo fmtTime targetInfo)
                                        (targetInfo\<lparr>Timestamp := currentTime\<rparr>) (waitAcksDirect s4)\<rparr>,
                                   outs2))))"

section \<open>Flow counter\<close>

record FlowCounter =
  currentCounter :: int
  que :: "(int \<times> int) list"

definition COUNTER_DURATION :: int where
  "COUNTER_DURATION = 1000000000"

fun expire_front :: "int \<Rightarrow> int \<Rightarrow> (int \<times> int) list \<Rightarrow> int \<times> (int \<times> int) list" where
  "expire_front now cnt [] = (cnt, [])"
| "expire_front now cnt ((sz, ts) # q) =
     (if now - ts > COUNTER_DURATION then expire_front now (cnt - sz) q else (cnt, (sz, ts) # q))"

definition maintain :: "int \<Rightarrow> FlowCounter \<Rightarrow> FlowCounter" where
  "maintain now f = (case expire_front now (currentCounter f) (que f) of
     (c, q) \<Rightarrow> f\<lparr>currentCounter := c, que := q\<rparr>)"

definition flow_Add :: "int \<Rightarrow> int \<Rightarrow> FlowCounter \<Rightarrow> FlowCounter" where
  "flow_Add now sz f =
     maintain now (f\<lparr>currentCounter := currentCounter f + sz, que := que f @ [(sz, now)]\<rparr>)"

text \<open>The window is one second, so the rate is the counter itself.\<close>

definition flow_Get :: "int \<Rightarrow> FlowCounter \<Rightarrow> rat \<times> FlowCounter" where
  "flow_Get now f = (let f1 = maintain now f in
     (of_int (currentCounter f1) / (of_int COUNTER_DURATION / 1000000000), f1))"

section \<open>Lemmas on the flow counter\<close>

lemma expire_front_sum:
  "expire_front now cnt q = (c, q') \<Longrightarrow>
   c - sum_list (map fst q') = cnt - sum_list (map fst q)"
  by (induction now cnt q rule: expire_front.induct) (auto split: if_splits)

lemma expire_front_dropWhile:
  "snd (expire_front now cnt q) = dropWhile (\<lambda>(_, ts). now - ts > COUNTER_DURATION) q"
  by (induction now cnt q rule: expire_front.induct) auto

definition flow_ok :: "FlowCounter \<Rightarrow> bool" where
  "flow_ok f = (currentCounter f = sum_list (map fst (que f)) \<and> sorted (map snd (que f)))"

lemma dropWhile_sorted_filter:
  "sorted (map snd q) \<Longrightarrow>
   dropWhile (\<lambda>(_, ts). now - ts > (d :: int)) q = filter (\<lambda>(_, ts). now - ts \<le> d) q"
proof (induction q)
  case (Cons e q)
  obtain s ts where e: "e = (s, ts)" by force
  show ?case
  proof (cases "now - ts > d")
    case True
    then show ?thesis using Cons e by simp
  next
    case False
    then have "\<forall>x \<in> set q. now - snd x \<le> d" using Cons.prems e by auto
    then have "filter (\<lambda>(_, ts). now - ts \<le> d) q = q"
      by (intro filter_True) auto
    then show ?thesis using False e by simp
  qed
qed simp

lemma maintain_window:
  assumes "flow_ok f"
  shows "que (maintain now f) = filter (\<lambda>(_, ts). now - ts \<le> COUNTER_DURATION) (que f)"
    and "flow_ok (maintain now f)"
proof -
  obtain c q where e: "expire_front now (currentCounter f) (que f) = (c, q)" by force
  have q: "q = filter (\<lambda>(_, ts). now - ts \<le> COUNTER_DURATION) (que f)"
    using expire_front_dropWhile [of now "currentCounter f" "que f"] e assms
    by (simp add: dropWhile_sorted_filter flow_ok_def)
  then show "que (maintain now f) = filter (\<lambda>(_, ts). now - ts \<le> COUNTER_DURATION) (que f)"
    by (simp add: maintain_def e)
  have "c = sum_list (map fst q)"
    using expire_front_sum [OF e] assms by (simp add: flow_ok_def)
  moreover have "sorted (map snd q)"
    using assms unfolding q flow_ok_def by (simp add: sorted_filter)
  ultimately show "flow_ok (maintain now f)" by (simp add: maintain_def e flow_ok_def)
qed

lemma flow_Add_ok:
  assumes "flow_ok f" and "\<forall>(_, ts) \<in> set (que f). ts \<le> now"
  shows "flow_ok (flow_Add now sz f)"
    and "que (flow_Add now sz f) =
      filter (\<lambda>(_, ts). now - ts \<le> COUNTER_DURATION) (que f) @ [(sz, now)]"
proof -
  let ?f = "f\<lparr>currentCounter := currentCounter f + sz, que := que f @ [(sz, now)]\<rparr>"
  have ok: "flow_ok ?f" using assms by (auto simp: flow_ok_def sorted_append)
  show "flow_ok (flow_Add now sz f)" using maintain_window(2) [OF ok] by (simp add: flow_Add_def)
  show "que (flow_Add now sz f) =
      filter (\<lambda>(_, ts). now - ts \<le> COUNTER_DURATION) (que f) @ [(sz, now)]"
    using maintain_window(1) [OF ok] by (simp add: flow_Add_def COUNTER_DURATION_def)
qed

primrec flow_adds :: "(int \<times> int) list \<Rightarrow> FlowCounter \<Rightarrow> FlowCounter" where
  "flow_adds [] f = f"
| "flow_adds (a # as) f = flow_adds as (flow_Add (snd a) (fst a) f)"

lemma flow_adds_window:
  assumes "flow_ok f" and "sorted (map snd (que f @ as))"
  shows "flow_ok (flow_adds as f) \<and>
    filter (\<lambda>(_, ts). now - ts \<le> COUNTER_DURATION) (que (flow_adds as f)) =
    filter (\<lambda>(_, ts). now - ts \<le> COUNTER_DURATION) (que f @ as) \<or> (\<exists>a \<in> set as. now < snd a)"
  using assms
proof (induction as arbitrary: f)
  case (Cons a as)
  obtain sz t where a: "a = (sz, t)" by force
  have le: "\<forall>(_, ts) \<in> set (que f). ts \<le> t" using Cons.prems(2) by (auto simp: a sorted_append)
  note add = flow_Add_ok [OF Cons.prems(1) le, of sz]
  have "sorted (map snd (que (flow_Add t sz f) @ as))"
    using Cons.prems(2) by (auto simp: add(2) a sorted_append sorted_filter)
  note IH = Cons.IH [OF add(1) this]
  have "filter (\<lambda>(_, ts). now - ts \<le> COUNTER_DURATION)
      (filter (\<lambda>(_, ts). t - ts \<le> COUNTER_DURATION) (que f))
      = filter (\<lambda>(_, ts). now - ts \<le> COUNTER_DURATION) (que f)" if "\<not> now < t"
    using that by (auto simp: intro!: filter_cong)
  then show ?case using IH by (auto simp: a add(2))
qed simp

text \<open>
  The bandwidth counter measures a sliding window: after any sequence of additions
  at non-decreasing times, \<open>Get\<close> returns the number of bytes added within the last second,
  exactly, and forgets the rest.
\<close>

theorem flow_counter_window:
  assumes "sorted (map snd as)" and "\<forall>a \<in> set as. snd a \<le> now"
  shows "fst (flow_Get now (flow_adds as \<lparr>currentCounter = 0, que = []\<rparr>)) =
    of_int (sum_list (map fst (filter (\<lambda>(_, ts). now - ts \<le> COUNTER_DURATION) as)))"
proof -
  let ?f0 = "\<lparr>currentCounter = 0, que = []\<rparr>"
  have f0: "flow_ok ?f0" by (simp add: flow_ok_def)
  have w: "flow_ok (flow_adds as ?f0)"
    "filter (\<lambda>(_, ts). now - ts \<le> COUNTER_DURATION) (que (flow_adds as ?f0)) =
     filter (\<lambda>(_, ts). now - ts \<le> COUNTER_DURATION) as"
    using flow_adds_window [OF f0, of as now] assms by auto
  show ?thesis
    using maintain_window [OF w(1), of now] w(2)
    by (simp add: flow_Get_def Let_def COUNTER_DURATION_def flow_ok_def)
qed

theorem flow_counter_window_witness:
  "fst (flow_Get 2500000000 (flow_adds [(10, 0), (20, 1600000000), (30, 2000000000)]
     \<lparr>currentCounter = 0, que = []\<rparr>)) = 50"
  using flow_counter_window [of "[(10, 0), (20, 1600000000), (30, 2000000000)]" 2500000000]
  by (simp add: COUNTER_DURATION_def)

end
