(* ===== verification/Gossip_Loop.thy ===== *)
theory Gossip_Loop
  imports Gossip_Swim
begin

text \<open>
  The gossip loop of a node (\<open>startGossipLoop\<close> in \<open>main.go\<close>): its timers, the handlers
  of the datagrams it receives, and the commands that leave and join the cluster.

  \<^item> One iteration of the \<open>select\<close> is one event; a step returns the new state of the node
    and what it emits: datagrams and started re-replication scans.
  \<^item> Send errors are ignored by every handler, so an attempted transmission is an output
    whether or not it succeeds.
  \<^item> \<open>range\<close> over a map that breaks at the first hit is \<open>find\<close> over the list. Two loops over
    the map of a message see it in the same order here; \<open>Merge\<close> does not depend on it.
\<close>

section \<open>State, events, outputs\<close>

record NodeState =
  RingID :: u64
  IsActive :: bool
  NMembership :: Membership

datatype loop_out = Send Message string int | RereplicationScan

definition loop_Tfail :: int where
  "loop_Tfail = 5 * 1000000000"

definition loop_Tcleanup :: int where
  "loop_Tcleanup = 30 * 1000000000"

definition same_address :: "string \<Rightarrow> int \<Rightarrow> Info \<Rightarrow> bool" where
  "same_address host port info = (Hostname info = host \<and> Port info = port)"

section \<open>Timers\<close>

definition gossip_tick :: "(nat \<Rightarrow> nat) \<Rightarrow> int \<Rightarrow> NodeState \<Rightarrow> NodeState \<times> loop_out list" where
  "gossip_tick rng now n =
     (if \<not> IsActive n then (n, [])
      else case Heartbeat (RingID n) now (NMembership n) of
        (Inl err, m1) \<Rightarrow> (n\<lparr>NMembership := m1\<rparr>, [])
      | (Inr _, m1) \<Rightarrow>
          (case GetTarget rng m1 of
             (Inl err, m2) \<Rightarrow> (n\<lparr>NMembership := m2\<rparr>, [])
           | (Inr target, m2) \<Rightarrow>
               let infoMap = GetInfoMap m2;
                   g = (plain_message GossipMsg infoMap)
                         \<lparr>SenderInfo := go_get zero_info infoMap (RingID n)\<rparr>
               in (n\<lparr>NMembership := m2\<rparr>, [Send g (Hostname target) (Port target)])))"

definition failure_tick :: "(nat \<Rightarrow> nat) \<Rightarrow> int \<Rightarrow> NodeState \<Rightarrow> NodeState \<times> loop_out list" where
  "failure_tick rng now n =
     (if \<not> IsActive n then (n, [])
      else case UpdateStateGossip rng now loop_Tfail loop_Tfail False (NMembership n) of
        (m, failureDetected) \<Rightarrow>
          (n\<lparr>NMembership := m\<rparr>, if failureDetected then [RereplicationScan] else []))"

definition cleanup_tick :: "int \<Rightarrow> NodeState \<Rightarrow> NodeState \<times> loop_out list" where
  "cleanup_tick now n = (n\<lparr>NMembership := Cleanup now loop_Tcleanup (NMembership n)\<rparr>, [])"

section \<open>Datagrams\<close>

definition on_probe ::
  "(nat \<Rightarrow> nat) \<Rightarrow> (nat \<Rightarrow> nat) \<Rightarrow> int \<Rightarrow> Message \<Rightarrow> NodeState \<Rightarrow> NodeState \<times> loop_out list" where
  "on_probe rng1 rng2 now msg n =
     (let host = Hostname (SenderInfo msg); port = Port (SenderInfo msg);
          newRingID = (case find (\<lambda>(mid, info). same_address host port info) (MsgInfoMap msg) of
                         None \<Rightarrow> 0 | Some (mid, _) \<Rightarrow> mid);
          currentInfo = GetInfoMap (NMembership n);
          m1 = (case find (\<lambda>(oldID, oldInfo). same_address host port oldInfo \<and> oldID \<noteq> newRingID)
                       currentInfo of
                  None \<Rightarrow> NMembership n
                | Some (oldID, _) \<Rightarrow> RemoveMember rng1 oldID (NMembership n));
          m2 = fst (Merge rng2 (MsgInfoMap msg) now m1);
          infoMap = GetInfoMap m2;
          ack = (plain_message ProbeAckGossip infoMap)
                  \<lparr>SenderInfo := go_get zero_info infoMap (RingID n)\<rparr>
      in (n\<lparr>NMembership := m2\<rparr>, [Send ack host port]))"

text \<open>
  The double loop over the incoming entries and the table as it was: each incoming entry
  removes the first failed entry found under its address with another id.
\<close>

definition drop_old_incarnation ::
  "(u64 \<Rightarrow> nat \<Rightarrow> nat) \<Rightarrow> infomap \<Rightarrow> u64 \<times> Info \<Rightarrow> Membership \<Rightarrow> Membership" where
  "drop_old_incarnation shuf currentInfo e m =
     (case e of (newID, newInfo) \<Rightarrow>
        case find (\<lambda>(oldID, oldInfo). same_address (Hostname newInfo) (Port newInfo) oldInfo
                     \<and> oldID \<noteq> newID \<and> State oldInfo = Failed) currentInfo of
          None \<Rightarrow> m
        | Some (oldID, _) \<Rightarrow> RemoveMember (shuf newID) oldID m)"

definition on_gossip ::
  "(u64 \<Rightarrow> nat \<Rightarrow> nat) \<Rightarrow> (nat \<Rightarrow> nat) \<Rightarrow> int \<Rightarrow> Message \<Rightarrow> NodeState \<Rightarrow> NodeState \<times> loop_out list" where
  "on_gossip shuf rng now msg n =
     (let currentInfo = GetInfoMap (NMembership n);
          m1 = fold (drop_old_incarnation shuf currentInfo) (MsgInfoMap msg) (NMembership n)
      in case Merge rng (MsgInfoMap msg) now m1 of
           (m2, changed) \<Rightarrow> (n\<lparr>NMembership := m2\<rparr>, if changed then [RereplicationScan] else []))"

definition on_leave ::
  "(nat \<Rightarrow> nat) \<Rightarrow> int \<Rightarrow> Message \<Rightarrow> NodeState \<Rightarrow> NodeState \<times> loop_out list" where
  "on_leave rng now msg n =
     (case find (\<lambda>(mid, info). same_address (Hostname (SenderInfo msg)) (Port (SenderInfo msg)) info)
             (GetInfoMap (NMembership n)) of
        None \<Rightarrow> (n, [])
      | Some (mid, _) \<Rightarrow>
          (case UpdateStateSwim rng now mid Failed False (NMembership n) of
             (m, changed) \<Rightarrow> (n\<lparr>NMembership := m\<rparr>, if changed then [RereplicationScan] else [])))"

definition on_message ::
  "(u64 \<Rightarrow> nat \<Rightarrow> nat) \<Rightarrow> (nat \<Rightarrow> nat) \<Rightarrow> int \<Rightarrow> Message \<Rightarrow> NodeState \<Rightarrow> NodeState \<times> loop_out list" where
  "on_message shuf rng now msg n =
     (case MsgType msg of
        Probe \<Rightarrow> on_probe (shuf 0) rng now msg n
      | GossipMsg \<Rightarrow> on_gossip shuf rng now msg n
      | Leave \<Rightarrow> on_leave rng now msg n
      | _ \<Rightarrow> (n\<lparr>NMembership := fst (Merge rng (MsgInfoMap msg) now (NMembership n))\<rparr>, []))"

section \<open>Leaving and joining\<close>

definition gracefulLeave :: "(nat \<Rightarrow> nat) \<Rightarrow> int \<Rightarrow> NodeState \<Rightarrow> NodeState \<times> loop_out list" where
  "gracefulLeave rng now n =
     (if \<not> IsActive n then (n, [])
      else
        let infoMap = GetInfoMap (NMembership n) in
        case map_of infoMap (RingID n) of
          None \<Rightarrow> (n\<lparr>IsActive := False\<rparr>, [])
        | Some self \<Rightarrow>
            if State self = Failed then (n\<lparr>IsActive := False\<rparr>, [])
            else
              let m = fst (UpdateStateSwim rng now (RingID n) Failed False (NMembership n));
                  leaveMsg = (plain_message Leave (GetInfoMap m))\<lparr>SenderInfo := self\<rparr>;
                  others = filter (\<lambda>(mid, info). \<not> (mid = RingID n \<or> State info \<noteq> Alive)) infoMap
              in (n\<lparr>IsActive := False, NMembership := m\<rparr>,
                  map (\<lambda>(mid, info). Send leaveMsg (Hostname info) (Port info)) others))"

text \<open>
  \<open>handleCLIJoin\<close> up to the start of \<open>joinGroup\<close>: a node whose own entry has failed takes
  a new incarnation. The flag says that the join procedure is started.
\<close>

definition handleCLIJoin :: "(int \<Rightarrow> string) \<Rightarrow> bool \<Rightarrow> int \<Rightarrow> NodeState \<Rightarrow> NodeState \<times> bool" where
  "handleCLIJoin fmtTime cfg_ok now n =
     (let self = map_of (GetInfoMap (NMembership n)) (RingID n) in
      if IsActive n \<and> (case self of None \<Rightarrow> False | Some info \<Rightarrow> State info = Alive) then (n, False)
      else
        let n1 = (case self of
                    None \<Rightarrow> n
                  | Some info \<Rightarrow>
                      if State info = Failed then
                        let newInfo = \<lparr>Hostname = Hostname info, Port = Port info, Version = now,
                                       Timestamp = now, Counter = 0, State = Alive\<rparr>;
                            newId = HashInfo fmtTime newInfo
                        in n\<lparr>NMembership := Reset fmtTime now (Hostname info) (Port info),
                             RingID := newId\<rparr>
                      else n)
        in (n1\<lparr>IsActive := True\<rparr>, cfg_ok))"

definition handleCLILeave :: "(nat \<Rightarrow> nat) \<Rightarrow> int \<Rightarrow> NodeState \<Rightarrow> NodeState \<times> loop_out list" where
  "handleCLILeave rng now n = (if \<not> IsActive n then (n, []) else gracefulLeave rng now n)"

text \<open>
  \<open>joinGroup\<close>: up to five probes to the introducer, until the table has more than one
  entry. \<open>send_ok k\<close> and \<open>table_after k\<close> are the outcome of the \<open>k\<close>-th transmission and the
  table found two seconds after it.
\<close>

datatype join_result = NoSelf | IsIntroducer | SendsFailed | Joined nat | NotJoined

definition maxRetries :: nat where
  "maxRetries = 5"

fun join_attempts ::
  "(nat \<Rightarrow> bool) \<Rightarrow> (nat \<Rightarrow> Membership) \<Rightarrow> nat \<Rightarrow> nat \<Rightarrow> nat list \<times> join_result" where
  "join_attempts send_ok table_after 0 attempt = ([], NotJoined)"
| "join_attempts send_ok table_after (Suc left) attempt =
     (if \<not> send_ok attempt then
        (if attempt < maxRetries then
           (case join_attempts send_ok table_after left (attempt + 1) of
              (ps, r) \<Rightarrow> (attempt # ps, r))
         else ([attempt], SendsFailed))
      else if length (GetInfoMap (table_after attempt)) > 1 then ([attempt], Joined attempt)
      else
        (case join_attempts send_ok table_after left (attempt + 1) of
           (ps, r) \<Rightarrow> (attempt # ps, r)))"

definition joinGroup ::
  "string \<Rightarrow> (nat \<Rightarrow> bool) \<Rightarrow> (nat \<Rightarrow> Membership) \<Rightarrow> NodeState \<Rightarrow> nat list \<times> join_result" where
  "joinGroup introducerHost send_ok table_after n =
     (case map_of (GetInfoMap (NMembership n)) (RingID n) of
        None \<Rightarrow> ([], NoSelf)
      | Some self \<Rightarrow>
          if Hostname self = introducerHost then ([], IsIntroducer)
          else join_attempts send_ok table_after maxRetries 1)"

section \<open>The loop as a machine\<close>

datatype node_event =
    GossipTick "nat \<Rightarrow> nat" int
  | FailureTick "nat \<Rightarrow> nat" int
  | CleanupTick int
  | Incoming "u64 \<Rightarrow> nat \<Rightarrow> nat" "nat \<Rightarrow> nat" int Message
  | LeaveCommand "nat \<Rightarrow> nat" int
  | JoinCommand "int \<Rightarrow> string" bool int

fun node_step :: "node_event \<Rightarrow> NodeState \<Rightarrow> NodeState \<times> loop_out list" where
  "node_step (GossipTick rng now) n = gossip_tick rng now n"
| "node_step (FailureTick rng now) n = failure_tick rng now n"
| "node_step (CleanupTick now) n = cleanup_tick now n"
| "node_step (Incoming shuf rng now msg) n = on_message shuf rng now msg n"
| "node_step (LeaveCommand rng now) n = handleCLILeave rng now n"
| "node_step (JoinCommand fmtTime cfg_ok now) n = (fst (handleCLIJoin fmtTime cfg_ok now n), [])"

definition node_ok :: "NodeState \<Rightarrow> bool" where
  "node_ok n = membership_ok (NMembership n)"

lemma fold_drop_ok:
  "membership_ok m \<Longrightarrow> membership_ok (fold (drop_old_incarnation shuf im) es m)"
  by (rule fold_invariant_mem)
    (auto simp: drop_old_incarnation_def RemoveMember_ok split: option.splits prod.splits)

lemma on_message_ok: "node_ok n \<Longrightarrow> node_ok (fst (on_message shuf rng now msg n))"
proof -
  assume ok: "node_ok n"
  then have m: "membership_ok (NMembership n)" by (simp add: node_ok_def)
  have "node_ok (fst (on_probe rng1 rng2 now msg n))" for rng1 rng2
    using m by (auto simp: on_probe_def Let_def node_ok_def intro!: Merge_ok RemoveMember_ok
        split: option.splits)
  moreover have "node_ok (fst (on_gossip shuf rng now msg n))"
    using Merge_ok [OF fold_drop_ok [OF m]]
    by (simp add: on_gossip_def Let_def node_ok_def split: prod.splits) (metis fst_conv)
  moreover have "node_ok (fst (on_leave rng now msg n))"
    using ok UpdateStateSwim_ok [OF m]
    by (simp add: on_leave_def node_ok_def split: option.splits prod.splits) (metis fst_conv)
  ultimately show ?thesis
    using Merge_ok [OF m] by (auto simp: on_message_def node_ok_def split: MessageType.splits)
qed

lemma gossip_tick_ok: "node_ok n \<Longrightarrow> node_ok (fst (gossip_tick rng now n))"
proof -
  assume ok: "node_ok n"
  obtain r m1 where h: "Heartbeat (RingID n) now (NMembership n) = (r, m1)" by force
  then have ok1: "membership_ok m1"
    using Heartbeat_ok [of "NMembership n" "RingID n" now] ok by (simp add: node_ok_def)
  obtain r2 m2 where g: "GetTarget rng m1 = (r2, m2)" by force
  then have "membership_ok m2" using GetTarget_ok [OF ok1, of rng] by simp
  then show ?thesis using ok ok1 h g
    by (auto simp: gossip_tick_def node_ok_def Let_def split: sum.splits)
qed

lemma failure_tick_ok: "node_ok n \<Longrightarrow> node_ok (fst (failure_tick rng now n))"
  using UpdateStateGossip_ok [of "NMembership n" rng now loop_Tfail loop_Tfail False]
  by (auto simp: failure_tick_def node_ok_def split: prod.splits)

lemma gracefulLeave_ok: "node_ok n \<Longrightarrow> node_ok (fst (gracefulLeave rng now n))"
  using UpdateStateSwim_ok [of "NMembership n" rng now "RingID n" Failed False]
  by (auto simp: gracefulLeave_def node_ok_def Let_def split: option.splits)

lemma handleCLIJoin_ok: "node_ok n \<Longrightarrow> node_ok (fst (handleCLIJoin fmtTime c now n))"
  by (auto simp: handleCLIJoin_def node_ok_def Let_def Reset_ok split: option.splits)

lemma cleanup_tick_ok: "node_ok n \<Longrightarrow> node_ok (fst (cleanup_tick now n))"
  by (simp add: cleanup_tick_def node_ok_def Cleanup_ok)

lemma node_step_ok: "node_ok n \<Longrightarrow> node_ok (fst (node_step e n))"
  by (cases e) (simp_all add: on_message_ok gossip_tick_ok failure_tick_ok gracefulLeave_ok
      handleCLIJoin_ok handleCLILeave_def cleanup_tick_ok)

interpretation node_machine: invariant_machine "\<lambda>e n. fst (node_step e n)" "\<lambda>_. True" node_ok
  by unfold_locales (rule node_step_ok)

section \<open>A node that has left\<close>

definition is_gossip :: "loop_out \<Rightarrow> bool" where
  "is_gossip out = (case out of Send msg _ _ \<Rightarrow> MsgType msg = GossipMsg | RereplicationScan \<Rightarrow> False)"

fun is_join :: "node_event \<Rightarrow> bool" where
  "is_join (JoinCommand fmtTime cfg_ok now) = True"
| "is_join e = False"

primrec node_run :: "node_event list \<Rightarrow> NodeState \<Rightarrow> NodeState \<times> loop_out list" where
  "node_run [] n = (n, [])"
| "node_run (e # es) n =
     (let (n1, o1) = node_step e n; (n2, o2) = node_run es n1 in (n2, o1 @ o2))"

lemma IsActive_on_message [simp]: "IsActive (fst (on_message shuf rng now msg n)) = IsActive n"
  by (auto simp: on_message_def on_probe_def on_gossip_def on_leave_def Let_def
      split: MessageType.splits prod.splits option.splits)

lemma quiet_on_message: "\<not> list_ex is_gossip (snd (on_message shuf rng now msg n))"
  by (auto simp: on_message_def on_probe_def on_gossip_def on_leave_def Let_def is_gossip_def
      plain_message_def split: MessageType.splits prod.splits option.splits)

lemma quiet_step:
  "\<not> IsActive n \<Longrightarrow> \<not> is_join e \<Longrightarrow>
   \<not> IsActive (fst (node_step e n)) \<and> \<not> list_ex is_gossip (snd (node_step e n))"
  by (cases e) (auto simp: gossip_tick_def failure_tick_def cleanup_tick_def handleCLILeave_def
      quiet_on_message)

lemma quiet_run:
  "\<not> IsActive n \<Longrightarrow> list_all (\<lambda>e. \<not> is_join e) es \<Longrightarrow>
   \<not> IsActive (fst (node_run es n)) \<and> \<not> list_ex is_gossip (snd (node_run es n))"
proof (induction es arbitrary: n)
  case (Cons e es)
  then have "\<not> IsActive (fst (node_step e n)) \<and> \<not> list_ex is_gossip (snd (node_step e n))"
    by (intro quiet_step) auto
  then show ?case using Cons.IH [of "fst (node_step e n)"] Cons.prems
    by (simp add: case_prod_beta Let_def)
qed simp


definition sample_node :: NodeState where
  "sample_node = \<lparr>RingID = 1, IsActive = True, NMembership = sample_table\<rparr>"

lemma sample_node_simps [simp]:
  "RingID sample_node = 1" "IsActive sample_node" "NMembership sample_node = sample_table"
  by (simp_all add: sample_node_def)


section \<open>New incarnations\<close>

lemma map_of_RemoveMember [gomap_lookup]:
  "map_of (InfoMap (RemoveMember rng x m)) = (map_of (InfoMap m))(x := None)"
  by (simp add: RemoveMember_def Let_def)

lemma Merge_adds_member:
  assumes "go_map (InfoMap m)" and "go_map mi" and "map_of mi x = Some info" and "valid_info info"
    and "State info \<noteq> Failed" and "map_of (InfoMap m) x = None"
  shows "map_of (InfoMap (fst (Merge rng mi t m))) x = Some (info\<lparr>Timestamp := t\<rparr>)
    \<and> x \<in> set (Members (fst (Merge rng mi t m)))"
proof -
  have e: "map_of (InfoMap (fst (Merge rng mi t m))) x = Some (info\<lparr>Timestamp := t\<rparr>)"
    using assms by (simp add: map_of_Merge merge_view_def)
  have "snd (Merge rng mi t m)"
    using assms map_of_SomeD [OF assms(3)]
    by (auto simp: snd_Merge entry_changes_def intro!: bexI [of _ "(x, info)"])
  then show ?thesis
    using e assms(5) by (simp add: Members_Merge set_live_ids go_map_Merge assms(1) is_live_def)
qed

text \<open>
  Joining replaces the previous incarnation: when a node that restarted under a new id
  probes the introducer, and the introducer knows its address under the old id only, then
  the handler removes the old entry, adds the new id as a live member, and answers the
  prober with the resulting table.
\<close>

theorem probe_replaces_incarnation:
  assumes "node_ok n" and "MsgType msg = Probe" and "SenderInfo msg = info"
    and "MsgInfoMap msg = [(new, info)]" and "valid_info info" and "State info = Alive"
    and "map_of (InfoMap (NMembership n)) new = None"
    and "map_of (InfoMap (NMembership n)) old = Some oldInfo"
    and "\<forall>x i. map_of (InfoMap (NMembership n)) x = Some i \<and>
           same_address (Hostname info) (Port info) i \<longleftrightarrow> x = old \<and> i = oldInfo"
    and "on_message shuf rng now msg n = (n', outs)"
  shows "map_of (InfoMap (NMembership n')) old = None
    \<and> map_of (InfoMap (NMembership n')) new = Some (info\<lparr>Timestamp := now\<rparr>)
    \<and> new \<in> set (Members (NMembership n'))
    \<and> (\<exists>ack. outs = [Send ack (Hostname info) (Port info)] \<and> MsgType ack = ProbeAckGossip
         \<and> MsgInfoMap ack = InfoMap (NMembership n'))"
proof -
  let ?m = "NMembership n"
  have k: "go_map (InfoMap ?m)" using assms(1) by (simp add: node_ok_def membership_ok_def)
  have ne: "old \<noteq> new" using assms(7,8) by auto
  have "find (\<lambda>(x, i). same_address (Hostname info) (Port info) i \<and> x \<noteq> new) (InfoMap ?m)
      = Some (old, oldInfo)"
  proof (cases "find (\<lambda>(x, i). same_address (Hostname info) (Port info) i \<and> x \<noteq> new) (InfoMap ?m)")
    case None
    then show ?thesis using assms(8,9) ne by (auto simp: find_None_iff dest: map_of_SomeD)
  next
    case (Some e)
    then obtain x i where e: "e = (x, i)" "(x, i) \<in> set (InfoMap ?m)"
      "same_address (Hostname info) (Port info) i"
      by (auto simp: find_Some_iff) (metis nth_mem surj_pair)
    then have "map_of (InfoMap ?m) x = Some i" using k by simp
    then have "x = old \<and> i = oldInfo" using assms(9) e(3) by blast
    then show ?thesis using Some e by simp
  qed
  then have out: "n' = n\<lparr>NMembership := fst (Merge rng [(new, info)] now (RemoveMember (shuf 0) old ?m))\<rparr>"
      "\<exists>ack. outs = [Send ack (Hostname info) (Port info)] \<and> MsgType ack = ProbeAckGossip
         \<and> MsgInfoMap ack = GetInfoMap (NMembership n')"
    using assms(2-6,10) k
    by (auto simp: on_message_def on_probe_def Let_def GetInfoMap_id same_address_def plain_message_def)
  have ok: "membership_ok (RemoveMember (shuf 0) old ?m)"
    using assms(1) RemoveMember_ok by (simp add: node_ok_def)
  then have "membership_ok (NMembership n')" using out(1) by (simp add: Merge_ok)
  then have "GetInfoMap (NMembership n') = InfoMap (NMembership n')"
    by (simp add: GetInfoMap_id membership_ok_def)
  moreover have k1: "go_map (InfoMap (RemoveMember (shuf 0) old ?m))"
    using ok by (simp add: membership_ok_def)
  moreover have "map_of (InfoMap (NMembership n')) old = None"
    using k1 ne unfolding out(1) by (simp add: map_of_Merge map_of_RemoveMember merge_view_def)
  ultimately show ?thesis
    using Merge_adds_member [OF k1, of "[(new, info)]" new info rng now] assms(5-7) out(2)
    unfolding out(1) by (simp add: map_of_RemoveMember)
qed

theorem probe_replaces_incarnation_witness:
  "map_of (InfoMap (NMembership (fst (on_message (\<lambda>_ _. 0) (\<lambda>_. 0) 70
     \<lparr>MsgType = Probe, SenderInfo = sample_info 2 Alive 0 60, TargetInfo = zero_info,
      RequesterInfo = zero_info, MsgInfoMap = [(7, sample_info 2 Alive 0 60)]\<rparr> sample_node)))) 2 = None"
proof -
  let ?msg = "\<lparr>MsgType = Probe, SenderInfo = sample_info 2 Alive 0 60, TargetInfo = zero_info,
      RequesterInfo = zero_info, MsgInfoMap = [(7, sample_info 2 Alive 0 60)]\<rparr>"
  show ?thesis
    by (rule probe_replaces_incarnation [OF _ _ _ _ _ _ _ _ _ prod.collapse [symmetric],
        where info = "sample_info 2 Alive 0 60" and new = 7 and oldInfo = "sample_info 2 Alive 9 0",
        THEN conjunct1])
      (auto simp: node_ok_def sample_table_ok valid_info_def same_address_def split: if_splits)
qed

text \<open>
  The \<open>Leave\<close> handler looks the sender up by address and stops at the first match, so
  when a node is known under two incarnations the outcome depends on the order in which
  the table happens to be enumerated: with the failed incarnation first, the leave is lost
  and the live incarnation stays a live member; with the live one first, it is failed.
\<close>

theorem leave_depends_on_enumeration:
  assumes "go_map (InfoMap (NMembership n))"
    and "InfoMap (NMembership n) = [(old, dead), (new, live)]"
    and "MsgType msg = Leave" and "State dead = Failed" and "State live = Alive"
    and "same_address (Hostname (SenderInfo msg)) (Port (SenderInfo msg)) dead"
    and "same_address (Hostname (SenderInfo msg)) (Port (SenderInfo msg)) live"
  shows "on_message shuf rng now msg n = (n, [])
    \<and> map_of (InfoMap (NMembership (fst (on_message shuf rng now msg
           (n\<lparr>NMembership := (NMembership n)\<lparr>InfoMap := [(new, live), (old, dead)]\<rparr>\<rparr>))))) new
         = Some (live\<lparr>Timestamp := now, State := Failed\<rparr>)"
  using assms
  by (simp_all add: on_message_def on_leave_def GetInfoMap_id UpdateStateSwim_def Let_def
      split: prod.splits)

theorem leave_depends_on_enumeration_witness:
  "on_message (\<lambda>_ _. 0) (\<lambda>_. 0) 9 ((plain_message Leave [])\<lparr>SenderInfo := sample_info 1 Alive 0 0\<rparr>)
     (sample_node\<lparr>NMembership := \<lparr>Members = [7],
        InfoMap = [(3, sample_info 1 Failed 4 0), (7, sample_info 1 Alive 2 0)], roundRobinIndex = 0\<rparr>\<rparr>)
   = (sample_node\<lparr>NMembership := \<lparr>Members = [7],
        InfoMap = [(3, sample_info 1 Failed 4 0), (7, sample_info 1 Alive 2 0)], roundRobinIndex = 0\<rparr>\<rparr>, [])"
  by (rule leave_depends_on_enumeration [where old = 3 and new = 7
      and dead = "sample_info 1 Failed 4 0" and live = "sample_info 1 Alive 2 0", THEN conjunct1])
    (simp_all add: plain_message_def same_address_def)

end
