(* ===== verification/Cluster.thy ===== *)
theory Cluster
  imports Gossip_Loop
begin

text \<open>
  A cluster of nodes: the step relation over the states of all the nodes and the datagrams
  between them, built from \<open>node_step\<close>, one iteration of the gossip loop of \<open>main.go\<close>.

  \<^item> \<open>wire\<close> holds every datagram ever sent: UDP may lose, delay, reorder and repeat
    them, so a step may deliver any of them, at any node, any number of times.
  \<^item> \<open>beats x\<close> counts the gossip ticks that the owner of the id \<open>x\<close> has really made. No
    code reads it: it is what the invariant speaks about.
  \<^item> Nodes have clocks of their own: every event carries its own time.
\<close>

record cluster =
  nodes :: "nat \<Rightarrow> NodeState"
  wire :: "Message set"
  beats :: "u64 \<Rightarrow> nat"

definition out_messages :: "loop_out list \<Rightarrow> Message set" where
  "out_messages outs = {msg. \<exists>host port. Send msg host port \<in> set outs}"

fun event_on_wire :: "Message set \<Rightarrow> node_event \<Rightarrow> bool" where
  "event_on_wire w (Incoming shuf rng now msg) = (msg \<in> w)"
| "event_on_wire w e = True"

fun ticks :: "node_event \<Rightarrow> nat" where
  "ticks (GossipTick rng now) = 1"
| "ticks e = 0"

inductive cluster_step :: "cluster \<Rightarrow> cluster \<Rightarrow> bool" where
  node: "event_on_wire (wire c) e \<Longrightarrow> node_step e (nodes c i) = (n, outs) \<Longrightarrow>
     x = RingID (nodes c i) \<Longrightarrow>
     cluster_step c (c\<lparr>nodes := (nodes c)(i := n), wire := wire c \<union> out_messages outs,
       beats := (beats c)(x := beats c x + ticks e)\<rparr>)"
| probe: "msg = \<lparr>MsgType = Probe, SenderInfo = self, TargetInfo = zero_info,
       RequesterInfo = zero_info, MsgInfoMap = GetInfoMap (NMembership (nodes c i))\<rparr> \<Longrightarrow>
     cluster_step c (c\<lparr>wire := insert msg (wire c)\<rparr>)"
| reboot: "n = \<lparr>RingID = hd (Members m), IsActive = True, NMembership = m\<rparr> \<Longrightarrow>
     m = Reset fmtTime now host port \<Longrightarrow>
     cluster_step c (c\<lparr>nodes := (nodes c)(i := n)\<rparr>)"

inductive cluster_reachable :: "cluster \<Rightarrow> bool" where
  start: "(\<And>i. \<exists>now host port. NMembership (nodes c i) = Reset fmtTime now host port) \<Longrightarrow>
    wire c = {} \<Longrightarrow> cluster_reachable c"
| step: "cluster_reachable c \<Longrightarrow> cluster_step c c' \<Longrightarrow> cluster_reachable c'"

inductive_cases cluster_step_cases: "cluster_step c c'"

section \<open>Counters are genuine\<close>

definition genuine :: "(u64 \<Rightarrow> nat) \<Rightarrow> infomap \<Rightarrow> bool" where
  "genuine b im = (go_map im \<and> (\<forall>(x, info) \<in> set im. unat (Counter info) \<le> b x))"

lemma genuine_lookup: "genuine b im \<Longrightarrow> map_of im x = Some info \<Longrightarrow> unat (Counter info) \<le> b x"
  by (auto simp: genuine_def dest: map_of_SomeD)

lemma genuine_iff:
  "genuine b im \<longleftrightarrow> go_map im \<and> (\<forall>x info. map_of im x = Some info \<longrightarrow> unat (Counter info) \<le> b x)"
  by (auto simp: genuine_def dest: map_of_SomeD)

lemma genuine_mono: "genuine b im \<Longrightarrow> (\<And>x. b x \<le> b' x) \<Longrightarrow> genuine b' im"
  by (auto simp: genuine_def intro: order_trans)

lemma genuine_Merge:
  assumes "genuine b (InfoMap m)" and "genuine b mi"
  shows "genuine b (InfoMap (fst (Merge rng mi t m)))"
proof -
  have k: "go_map (InfoMap m)" "go_map mi" using assms by (auto simp: genuine_def)
  then show ?thesis
    using genuine_lookup [OF assms(1)] genuine_lookup [OF assms(2)]
    by (auto simp: genuine_iff go_map_Merge map_of_Merge merge_view_def
        split: option.splits if_splits)
qed

lemma genuine_Heartbeat:
  assumes "genuine b (InfoMap m)"
  shows "genuine (b(x := Suc (b x))) (InfoMap (snd (Heartbeat x t m)))"
proof -
  have g: "genuine (b(x := Suc (b x))) (InfoMap m)"
    using assms by (rule genuine_mono) simp
  have up: "unat (Counter info + 1) \<le> Suc (b x)" if "map_of (InfoMap m) x = Some info" for info
  proof -
    have "unat (Counter info + 1) \<le> unat (Counter info) + 1" by (simp add: unat_word_ariths)
    then show ?thesis using genuine_lookup [OF assms that] by simp
  qed
  show ?thesis
  proof (cases "map_of (InfoMap m) x")
    case None
    then show ?thesis using g by (simp add: Heartbeat_def)
  next
    case (Some info)
    let ?im = "AList.update x (info\<lparr>Timestamp := t, Counter := Counter info + 1\<rparr>) (InfoMap m)"
    have k: "go_map ?im" using g by (simp add: genuine_def)
    have "unat (Counter i) \<le> (b(x := Suc (b x))) y" if "map_of ?im y = Some i" for y i
      using that up [OF Some] genuine_lookup [OF g, of y i] by (auto split: if_splits)
    then have "genuine (b(x := Suc (b x))) ?im" using k genuine_iff by blast
    then show ?thesis using g Some by (simp add: Heartbeat_def)
  qed
qed

lemma Counter_gossip_timeout [simp]: "Counter (fst (gossip_timeout t Tf Ts s info)) = Counter info"
  by (simp add: gossip_timeout_def Let_def)

lemma genuine_UpdateStateGossip:
  "genuine b (InfoMap m) \<Longrightarrow> genuine b (InfoMap (fst (UpdateStateGossip rng t Tf Ts s m)))"
  by (auto simp: genuine_def UpdateStateGossip_InfoMap)

lemma genuine_Cleanup: "genuine b (InfoMap m) \<Longrightarrow> genuine b (InfoMap (Cleanup t Tc m))"
  by (auto simp: genuine_def Cleanup_def)

lemma GetTarget_InfoMap [simp]: "InfoMap (snd (GetTarget rng m)) = InfoMap m"
  by (auto simp: GetTarget_def Let_def split: option.splits)

lemma genuine_RemoveMember: "genuine b (InfoMap m) \<Longrightarrow> genuine b (InfoMap (RemoveMember rng x m))"
  by (simp add: genuine_iff map_of_RemoveMember) (simp add: RemoveMember_def Let_def)

lemma genuine_UpdateStateSwim:
  assumes "genuine b (InfoMap m)"
  shows "genuine b (InfoMap (fst (UpdateStateSwim rng t x st s m)))"
proof (cases "map_of (InfoMap m) x")
  case None
  then show ?thesis using assms by (simp add: UpdateStateSwim_def)
next
  case (Some info)
  have "genuine b (AList.update x (info\<lparr>Timestamp := t, State := st'\<rparr>) (InfoMap m))" for st'
    using assms genuine_lookup [OF assms] Some by (auto simp: genuine_iff)
  then show ?thesis using assms Some by (simp add: UpdateStateSwim_def Let_def)
qed

lemma genuine_Reset: "genuine b (InfoMap (Reset fmtTime t host port))"
  by (simp add: Reset_def Let_def genuine_def)

lemma genuine_GetInfoMap: "genuine b (InfoMap m) \<Longrightarrow> genuine b (GetInfoMap m)"
  by (simp add: GetInfoMap_id genuine_def)

lemma genuine_fold_drop:
  "genuine b (InfoMap m) \<Longrightarrow> genuine b (InfoMap (fold (drop_old_incarnation shuf im) es m))"
  by (rule fold_invariant_mem [where P = "\<lambda>m. genuine b (InfoMap m)"])
    (auto simp: drop_old_incarnation_def genuine_RemoveMember split: option.splits prod.splits)

text \<open>A step of a node is genuine when its table and all the tables it sends are.\<close>

definition step_genuine :: "(u64 \<Rightarrow> nat) \<Rightarrow> NodeState \<times> loop_out list \<Rightarrow> bool" where
  "step_genuine b r = (genuine b (InfoMap (NMembership (fst r)))
     \<and> (\<forall>msg \<in> out_messages (snd r). genuine b (MsgInfoMap msg)))"

lemma out_messages_simps [simp]:
  "out_messages [] = {}" "out_messages (RereplicationScan # outs) = out_messages outs"
  "out_messages (Send msg h p # outs) = insert msg (out_messages outs)"
  by (auto simp: out_messages_def)

lemma genuine_on_message:
  assumes "genuine b (InfoMap (NMembership n))" and "genuine b (MsgInfoMap msg)"
  shows "step_genuine b (on_message shuf rng now msg n)"
proof -
  have "step_genuine b (on_probe rng1 rng2 now msg n)" for rng1 rng2
    using assms by (auto simp: on_probe_def Let_def step_genuine_def plain_message_def
        intro!: genuine_Merge genuine_RemoveMember genuine_GetInfoMap split: option.splits)
  moreover have "step_genuine b (on_gossip shuf rng now msg n)"
    using genuine_Merge [OF genuine_fold_drop [OF assms(1)] assms(2)]
    by (simp add: on_gossip_def Let_def step_genuine_def split: prod.splits) (metis fst_conv)
  moreover have "step_genuine b (on_leave rng now msg n)"
    using assms(1) genuine_UpdateStateSwim [OF assms(1)]
    by (simp add: on_leave_def step_genuine_def split: option.splits prod.splits) (metis fst_conv)
  ultimately show ?thesis using genuine_Merge [OF assms]
    by (auto simp: on_message_def step_genuine_def split: MessageType.splits)
qed

lemma genuine_gossip_tick:
  assumes "genuine b (InfoMap (NMembership n))"
  shows "step_genuine (b(RingID n := Suc (b (RingID n)))) (gossip_tick rng now n)"
proof -
  let ?b = "b(RingID n := Suc (b (RingID n)))"
  have g0: "genuine ?b (InfoMap (NMembership n))" using assms by (rule genuine_mono) simp
  obtain r m1 where h: "Heartbeat (RingID n) now (NMembership n) = (r, m1)" by force
  then have g1: "genuine ?b (InfoMap m1)"
    using genuine_Heartbeat [OF assms, of "RingID n" now] by simp
  obtain r2 m2 where t: "GetTarget rng m1 = (r2, m2)" by force
  then have "genuine ?b (InfoMap m2)" using g1 GetTarget_InfoMap [of rng m1] by simp
  then show ?thesis using g0 g1 h t genuine_GetInfoMap
    by (auto simp: gossip_tick_def step_genuine_def Let_def plain_message_def split: sum.splits)
qed

lemma genuine_leave:
  assumes "genuine b (InfoMap (NMembership n))"
  shows "step_genuine b (gracefulLeave rng now n)"
  using assms genuine_UpdateStateSwim [OF assms, of rng now "RingID n" Failed False]
  by (auto simp: gracefulLeave_def step_genuine_def Let_def out_messages_def plain_message_def
      intro: genuine_GetInfoMap split: option.splits)

lemma genuine_node_step:
  assumes "genuine b (InfoMap (NMembership n))"
    and "\<And>shuf rng now msg. e = Incoming shuf rng now msg \<Longrightarrow> genuine b (MsgInfoMap msg)"
  shows "step_genuine (b(RingID n := b (RingID n) + ticks e)) (node_step e n)"
proof (cases e)
  case (GossipTick rng now)
  then show ?thesis using genuine_gossip_tick [OF assms(1)] by simp
next
  case (FailureTick rng now)
  then show ?thesis
    using assms(1) genuine_UpdateStateGossip [OF assms(1), of rng now loop_Tfail loop_Tfail False]
    by (auto simp: failure_tick_def step_genuine_def split: prod.splits)
next
  case (CleanupTick now)
  then show ?thesis using genuine_Cleanup [OF assms(1)] by (simp add: cleanup_tick_def step_genuine_def)
next
  case (Incoming shuf rng now msg)
  then show ?thesis using genuine_on_message [OF assms(1)] assms(2) by simp
next
  case (LeaveCommand rng now)
  then show ?thesis using genuine_leave [OF assms(1)] assms(1)
    by (simp add: handleCLILeave_def) (simp add: step_genuine_def)
next
  case (JoinCommand fmtTime cfg_ok now)
  then show ?thesis using assms(1)
    by (auto simp: handleCLIJoin_def Let_def step_genuine_def genuine_Reset split: option.splits)
qed

definition cluster_inv :: "cluster \<Rightarrow> bool" where
  "cluster_inv c = ((\<forall>i. genuine (beats c) (InfoMap (NMembership (nodes c i))))
     \<and> (\<forall>msg \<in> wire c. genuine (beats c) (MsgInfoMap msg)))"

lemma cluster_inv_step:
  assumes "cluster_step c c'" and "cluster_inv c"
  shows "cluster_inv c'"
  using assms
proof (induction rule: cluster_step.induct)
  case (node c e i n outs x)
  let ?b = "(beats c)(x := beats c x + ticks e)"
  have g: "genuine (beats c) (InfoMap (NMembership (nodes c i)))"
    using node.prems by (simp add: cluster_inv_def)
  have "step_genuine ?b (node_step e (nodes c i))"
    unfolding node.hyps(3)
    by (rule genuine_node_step [OF g]) (use node.hyps(1) node.prems in \<open>auto simp: cluster_inv_def\<close>)
  moreover have "genuine (beats c) im \<Longrightarrow> genuine ?b im" for im
    by (erule genuine_mono) simp
  ultimately show ?case using node.prems node.hyps(2)
    by (auto simp: cluster_inv_def step_genuine_def)
next
  case (probe msg self c i)
  then show ?case by (auto simp: cluster_inv_def intro: genuine_GetInfoMap)
next
  case (reboot n m fmtTime now host port c i)
  then show ?case by (auto simp: cluster_inv_def genuine_Reset)
qed

lemma cluster_inv_reachable: "cluster_reachable c \<Longrightarrow> cluster_inv c"
proof (induction rule: cluster_reachable.induct)
  case (start c fmtTime)
  have "genuine b (InfoMap (NMembership (nodes c i)))" for i b
  proof -
    obtain now host port where "NMembership (nodes c i) = Reset fmtTime now host port"
      using start(1) [of i] by blast
    then show ?thesis by (simp add: genuine_Reset)
  qed
  then show ?case using start(2) by (simp add: cluster_inv_def)
next
  case (step c c')
  then show ?case using cluster_inv_step by blast
qed

text \<open>
  C9. Heartbeats cannot be forged by gossip: in every state a cluster can reach, by ticks,
  deliveries (late, repeated, out of order, to anybody), losses, probes, leaves, joins and
  reboots, no table and no datagram holds a heartbeat counter for a member above the
  number of gossip ticks that the member's owner has made.
\<close>

theorem heartbeat_counters_genuine:
  assumes "cluster_reachable c" and "map_of (InfoMap (NMembership (nodes c i))) x = Some info"
  shows "unat (Counter info) \<le> beats c x"
  using cluster_inv_reachable [OF assms(1)] genuine_lookup [OF _ assms(2)]
  by (simp add: cluster_inv_def)

definition sample_cluster :: cluster where
  "sample_cluster = \<lparr>nodes = \<lambda>_. \<lparr>RingID = 1, IsActive = True,
     NMembership = Reset (\<lambda>_. []) 0 ''a'' 1\<rparr>, wire = {}, beats = \<lambda>_. 0\<rparr>"

theorem heartbeat_counters_genuine_witness:
  "\<exists>x info. map_of (InfoMap (NMembership (nodes sample_cluster 0))) x = Some info
     \<and> unat (Counter info) \<le> beats sample_cluster x"
proof -
  have "NMembership (nodes sample_cluster i) = Reset (\<lambda>_. []) 0 ''a'' 1" for i
    by (simp add: sample_cluster_def)
  then have "cluster_reachable sample_cluster"
    by (intro cluster_reachable.start) (auto simp: sample_cluster_def)
  moreover have "map_of (InfoMap (NMembership (nodes sample_cluster 0)))
      (hd (Members (NMembership (nodes sample_cluster 0)))) \<noteq> None"
    by (simp add: sample_cluster_def Reset_def Let_def)
  then obtain x info where e: "map_of (InfoMap (NMembership (nodes sample_cluster 0))) x = Some info"
    by blast
  ultimately have "unat (Counter info) \<le> beats sample_cluster x"
    by (rule heartbeat_counters_genuine)
  then show ?thesis using e by blast
qed

end
