(* ===== verification/Ring.thy ===== *)
theory Ring
  imports Membership
begin

text \<open>
  Placement on the consistent-hash ring: \<open>HashString\<close>, \<open>GetSuccessors\<close>
  (\<open>pkg/hashing/ring.go\<close>), \<open>GetFileID\<close>, \<open>GetCoordinatorAndReplicas\<close>
  (\<open>pkg/fileops/storage.go\<close>).

  \<^item> The abstract ring is \<open>ring_order h\<close>: the ids from \<open>h\<close> upwards, then those below it.
    It is the order of the clockwise distance from \<open>h\<close>.
  \<^item> The locale \<open>ring_placement\<close> is what a placement promises; both placements of the code
    are interpretations of it, over different sets of nodes.
  \<^item> \<open>sort.Slice\<close> on distinct keys is \<open>sort\<close>; \<open>sort.Search\<close> is its binary search.
\<close>

section \<open>The code\<close>

definition NumReplicas :: nat where
  "NumReplicas = 3"

definition HashString :: "string \<Rightarrow> u64" where
  "HashString s = sha256_u64 s"

function search_loop :: "(nat \<Rightarrow> bool) \<Rightarrow> nat \<Rightarrow> nat \<Rightarrow> nat" where
  "search_loop f i j =
     (if i < j then let h = (i + j) div 2 in
        if \<not> f h then search_loop f (h + 1) j else search_loop f i h
      else i)"
  by pat_completeness auto
termination
  by (relation "measure (\<lambda>(f, i, j). j - i)") (auto simp: less_diff_conv)

declare search_loop.simps [simp del]

definition sort_Search :: "nat \<Rightarrow> (nat \<Rightarrow> bool) \<Rightarrow> nat" where
  "sort_Search n f = search_loop f 0 n"

definition alive_ids :: "infomap \<Rightarrow> u64 list" where
  "alive_ids im = map fst (filter (\<lambda>(x, info). State info = Alive) im)"

definition ring_walk :: "u64 list \<Rightarrow> nat \<Rightarrow> nat \<Rightarrow> u64 list" where
  "ring_walk nodeIDs idx n =
     map (\<lambda>i. nodeIDs ! ((idx + i) mod length nodeIDs)) [0..<min n (length nodeIDs)]"

definition GetSuccessors :: "u64 \<Rightarrow> infomap \<Rightarrow> nat \<Rightarrow> u64 list" where
  "GetSuccessors fileHash infoMap n =
     (if infoMap = [] then []
      else
        let nodeIDs = alive_ids infoMap in
        if nodeIDs = [] then []
        else
          let nodeIDs = sort nodeIDs;
              idx = sort_Search (length nodeIDs) (\<lambda>i. nodeIDs ! i \<ge> fileHash);
              idx = (if idx = length nodeIDs then 0 else idx)
          in ring_walk nodeIDs idx n)"

record ReplicaNode =
  RRingID :: u64
  RHostname :: string
  RPort :: int

definition GetFileID :: "string \<Rightarrow> u64" where
  "GetFileID hydfsFilename = sha1_u64 hydfsFilename"

fun coordinator_index :: "u64 \<Rightarrow> nat \<Rightarrow> u64 list \<Rightarrow> nat option" where
  "coordinator_index fileID i [] = None"
| "coordinator_index fileID i (x # xs) =
     (if x \<ge> fileID then Some i else coordinator_index fileID (i + 1) xs)"

definition coordinator_ids :: "u64 \<Rightarrow> infomap \<Rightarrow> nat \<Rightarrow> u64 list" where
  "coordinator_ids fileID infoMap n =
     (let nodeIDs = sort (go_keys infoMap);
          coordinatorIdx = (case coordinator_index fileID 0 nodeIDs of None \<Rightarrow> 0 | Some i \<Rightarrow> i)
      in ring_walk nodeIDs coordinatorIdx n)"

definition GetCoordinatorAndReplicas :: "string \<Rightarrow> Membership \<Rightarrow> ReplicaNode list option" where
  "GetCoordinatorAndReplicas hydfsFilename m =
     (let fileID = GetFileID hydfsFilename; infoMap = GetInfoMap m in
      if infoMap = [] then None
      else Some (map (\<lambda>x. let info = go_get zero_info infoMap x in
             \<lparr>RRingID = x, RHostname = Hostname info, RPort = Port info\<rparr>)
           (coordinator_ids fileID infoMap 3)))"

section \<open>The abstract ring\<close>

definition ring_order :: "u64 \<Rightarrow> u64 list \<Rightarrow> u64 list" where
  "ring_order h ids = filter (\<lambda>x. x \<ge> h) (sort ids) @ filter (\<lambda>x. x < h) (sort ids)"

lemma mset_ring_order [simp]: "mset (ring_order h ids) = mset ids"
proof -
  have "filter (\<lambda>x. x < h) (sort ids) = filter (\<lambda>x. \<not> x \<ge> h) (sort ids)" by (simp add: not_le)
  then show ?thesis
    by (simp only: ring_order_def mset_append mset_filter mset_sort multiset_partition [symmetric])
qed

lemma set_ring_order [simp]: "set (ring_order h ids) = set ids"
  by (metis mset_ring_order set_mset_mset)

lemma length_ring_order [simp]: "length (ring_order h ids) = length ids"
  by (metis mset_ring_order size_mset)

lemma distinct_ring_order [simp]: "distinct (ring_order h ids) = distinct ids"
  by (metis mset_ring_order mset_eq_imp_distinct_iff)

lemma ring_order_cong: "mset ids = mset ids' \<Longrightarrow> ring_order h ids = ring_order h ids'"
proof -
  assume "mset ids = mset ids'"
  then have "sort ids = sort ids'" by (intro properties_for_sort) simp_all
  then show ?thesis by (simp only: ring_order_def)
qed

lemma sort_removeAll: "sort (removeAll x xs) = removeAll x (sort xs)"
  by (simp add: removeAll_filter_not_eq filter_sort)

lemma ring_order_removeAll: "ring_order h (removeAll x ids) = removeAll x (ring_order h ids)"
  unfolding ring_order_def sort_removeAll
  by (simp add: removeAll_filter_not_eq conj_commute)

text \<open>The clockwise distance from \<open>h\<close>; subtraction wraps.\<close>

definition clockwise :: "u64 \<Rightarrow> u64 \<Rightarrow> nat" where
  "clockwise h x = unat (x - h)"

lemma clockwise_ge: "h \<le> x \<Longrightarrow> clockwise h x = unat x - unat h"
  by (simp add: clockwise_def unat_sub)

lemma clockwise_lt: "x < h \<Longrightarrow> clockwise h x = 2 ^ 64 - unat h + unat x"
proof -
  assume "x < h"
  then have lt: "unat x < unat h" by (simp add: word_less_nat_alt)
  have "unat (x - h) = (if unat h \<le> unat x then unat x - unat h else unat x + 2 ^ 64 - unat h)"
    by (simp add: unat_sub_if')
  moreover have "unat h < 2 ^ 64" using unsigned_less [of h] by simp
  ultimately show ?thesis using lt by (simp add: clockwise_def)
qed

lemma sorted_ring_order: "sorted (map (clockwise h) (ring_order h ids))"
proof -
  have s: "sorted (sort ids)" by simp
  have up: "sorted (map (clockwise h) (filter (\<lambda>x. x \<ge> h) (sort ids)))"
  proof (rule sorted_map_mono)
    show "sorted (filter (\<lambda>x. x \<ge> h) (sort ids))" using s by (rule sorted_filter [where f = id, simplified])
    show "mono_on (set (filter (\<lambda>x. x \<ge> h) (sort ids))) (clockwise h)"
      by (auto simp: mono_on_def clockwise_ge word_le_nat_alt intro: diff_le_mono)
  qed
  have down: "sorted (map (clockwise h) (filter (\<lambda>x. x < h) (sort ids)))"
  proof (rule sorted_map_mono)
    show "sorted (filter (\<lambda>x. x < h) (sort ids))" using s by (rule sorted_filter [where f = id, simplified])
    show "mono_on (set (filter (\<lambda>x. x < h) (sort ids))) (clockwise h)"
      by (auto simp: mono_on_def clockwise_lt word_le_nat_alt)
  qed
  have "clockwise h x \<le> clockwise h y" if "h \<le> x" and "y < h" for x y
  proof -
    have "unat x < 2 ^ 64" using unsigned_less [of x] by simp
    then show ?thesis using that by (simp add: clockwise_ge clockwise_lt)
  qed
  then show ?thesis using up down by (auto simp: ring_order_def sorted_append)
qed

section \<open>The walk of the code is the abstract ring\<close>

lemma search_loop_correct:
  assumes "\<forall>k < i. \<not> f k" and "\<forall>k. j \<le> k \<and> k < n \<longrightarrow> f k" and "i \<le> j" and "j \<le> n"
    and mono: "\<And>k l. k \<le> l \<Longrightarrow> l < n \<Longrightarrow> f k \<Longrightarrow> f l"
  shows "search_loop f i j \<le> n \<and> (\<forall>k < search_loop f i j. \<not> f k)
    \<and> (\<forall>k. search_loop f i j \<le> k \<and> k < n \<longrightarrow> f k)"
  using assms(1-4)
proof (induction "j - i" arbitrary: i j rule: less_induct)
  case less
  show ?case
  proof (cases "i < j")
    case False
    then have "search_loop f i j = i" by (simp add: search_loop.simps [of f i j])
    moreover have "i = j" using False less.prems(3) by simp
    ultimately show ?thesis using less.prems by simp
  next
    case True
    let ?h = "(i + j) div 2"
    have h: "i \<le> ?h" "?h < j" using True by auto
    show ?thesis
    proof (cases "f ?h")
      case fh: True
      have eq: "search_loop f i j = search_loop f i ?h"
        using True fh by (subst search_loop.simps) (simp add: Let_def)
      show ?thesis unfolding eq
      proof (rule less.hyps)
        show "?h - i < j - i" using h True by arith
        show "\<forall>k. ?h \<le> k \<and> k < n \<longrightarrow> f k" using mono fh by blast
      qed (use less.prems h in auto)
    next
      case fh: False
      have eq: "search_loop f i j = search_loop f (?h + 1) j"
        using True fh by (subst search_loop.simps) (simp add: Let_def)
      show ?thesis unfolding eq
      proof (rule less.hyps)
        show "j - (?h + 1) < j - i" using h True by arith
        show "\<forall>k < ?h + 1. \<not> f k"
        proof (intro allI impI notI)
          fix k assume "k < ?h + 1" and "f k"
          then show False using fh mono [of k ?h] h less.prems(4) by auto
        qed
      qed (use less.prems h in auto)
    qed
  qed
qed

lemma sort_Search_takeWhile:
  assumes "sorted xs"
  shows "sort_Search (length xs) (\<lambda>i. xs ! i \<ge> (h :: u64)) = length (takeWhile (\<lambda>x. x < h) xs)"
proof -
  let ?s = "sort_Search (length xs) (\<lambda>i. xs ! i \<ge> h)"
  let ?t = "length (takeWhile (\<lambda>x. x < h) xs)"
  have s: "?s \<le> length xs" "\<forall>k < ?s. \<not> xs ! k \<ge> h" "\<forall>k. ?s \<le> k \<and> k < length xs \<longrightarrow> xs ! k \<ge> h"
  proof -
    have mono: "xs ! l \<ge> h" if "k \<le> l" "l < length xs" "xs ! k \<ge> h" for k l
      using sorted_nth_mono [OF assms that(1,2)] that(3) by (rule order_trans [rotated])
    have "?s \<le> length xs \<and> (\<forall>k < ?s. \<not> xs ! k \<ge> h) \<and> (\<forall>k. ?s \<le> k \<and> k < length xs \<longrightarrow> xs ! k \<ge> h)"
      unfolding sort_Search_def by (rule search_loop_correct) (use mono in auto)
    then show "?s \<le> length xs" "\<forall>k < ?s. \<not> xs ! k \<ge> h"
      "\<forall>k. ?s \<le> k \<and> k < length xs \<longrightarrow> xs ! k \<ge> h"
      by blast+
  qed
  have "?t \<le> ?s"
  proof (rule ccontr)
    assume "\<not> ?t \<le> ?s"
    then have lt: "?s < ?t" by simp
    then have "?s < length xs" using length_takeWhile_le order_less_le_trans by blast
    then have "xs ! ?s \<ge> h" using s(3) by blast
    moreover have "xs ! ?s < h"
    proof -
      have "takeWhile (\<lambda>x. x < h) xs ! ?s \<in> set (takeWhile (\<lambda>x. x < h) xs)" using lt by (rule nth_mem)
      then show ?thesis using set_takeWhileD takeWhile_nth [OF lt] by metis
    qed
    ultimately show False by simp
  qed
  moreover have "?s \<le> ?t"
  proof (rule ccontr)
    assume "\<not> ?s \<le> ?t"
    then have lt: "?t < ?s" by simp
    then have "\<not> xs ! ?t \<ge> h" using s(2) by blast
    moreover have "?t < length xs" using lt s(1) by simp
    ultimately show False using nth_length_takeWhile [of "\<lambda>x. x < h" xs] by simp
  qed
  ultimately show ?thesis by simp
qed

lemma ring_split:
  "sorted (xs :: u64 list) \<Longrightarrow> filter (\<lambda>x. x < h) xs = takeWhile (\<lambda>x. x < h) xs
     \<and> filter (\<lambda>x. x \<ge> h) xs = dropWhile (\<lambda>x. x < h) xs"
proof (induction xs)
  case (Cons x xs)
  show ?case
  proof (cases "x < h")
    case True
    then show ?thesis using Cons by simp
  next
    case False
    then have "\<forall>y \<in> set xs. h \<le> y" using Cons.prems by auto
    then have "filter (\<lambda>x. x < h) xs = []" and "filter (\<lambda>x. x \<ge> h) xs = xs"
      by (auto simp: filter_empty_conv filter_id_conv)
    then show ?thesis using False by simp
  qed
qed simp

lemma ring_walk_rotate:
  assumes "xs \<noteq> []" and "idx \<le> length xs"
  shows "ring_walk xs (if idx = length xs then 0 else idx) n = take n (drop idx xs @ take idx xs)"
proof (rule nth_equalityI)
  let ?i = "if idx = length xs then 0 else idx"
  show "length (ring_walk xs ?i n) = length (take n (drop idx xs @ take idx xs))"
    using assms by (simp add: ring_walk_def)
  fix k assume "k < length (ring_walk xs ?i n)"
  then have k: "k < n" "k < length xs" by (simp_all add: ring_walk_def)
  then have "ring_walk xs ?i n ! k = xs ! ((?i + k) mod length xs)"
    by (simp add: ring_walk_def)
  also have "\<dots> = (drop idx xs @ take idx xs) ! k"
  proof (cases "idx + k < length xs")
    case True
    then have "k < length xs - idx" by linarith
    then show ?thesis using assms True by (simp add: nth_append)
  next
    case False
    show ?thesis
    proof (cases "idx = length xs")
      case True
      then show ?thesis using k by (simp add: nth_append)
    next
      case ne: False
      then have "(idx + k) mod length xs = idx + k - length xs"
        using False k assms by (simp add: le_mod_geq)
      moreover have "\<not> k < length xs - idx" using False by linarith
      moreover have "take idx xs ! (k - (length xs - idx)) = xs ! (k - (length xs - idx))"
        by (rule nth_take) (use False k ne assms(2) in arith)
      moreover have "k - (length xs - idx) = idx + k - length xs" using assms ne by linarith
      ultimately show ?thesis using ne by (simp add: nth_append)
    qed
  qed
  finally have "ring_walk xs ?i n ! k = (drop idx xs @ take idx xs) ! k" .
  then show "ring_walk xs ?i n ! k = take n (drop idx xs @ take idx xs) ! k"
    unfolding nth_take [OF k(1)] .
qed

lemma ring_walk_order:
  assumes "ids \<noteq> []" and "idx = length (takeWhile (\<lambda>x. x < h) (sort ids))"
  shows "ring_walk (sort ids) (if idx = length (sort ids) then 0 else idx) n = take n (ring_order h ids)"
proof -
  have "idx \<le> length (sort ids)" using assms(2) length_takeWhile_le by blast
  moreover have "sort ids \<noteq> []" using assms(1) by (metis length_sort length_0_conv)
  moreover have "drop idx (sort ids) = filter (\<lambda>x. x \<ge> h) (sort ids)"
    "take idx (sort ids) = filter (\<lambda>x. x < h) (sort ids)"
    by (simp_all add: ring_split assms(2) dropWhile_eq_drop takeWhile_eq_take [symmetric])
  ultimately show ?thesis using ring_walk_rotate [of "sort ids" idx n]
    by (simp add: ring_order_def)
qed

lemma GetSuccessors_ring_order: "GetSuccessors h im n = take n (ring_order h (alive_ids im))"
proof (cases "alive_ids im = []")
  case True
  then show ?thesis by (simp add: GetSuccessors_def ring_order_def)
next
  case False
  then have "im \<noteq> []" by (auto simp: alive_ids_def)
  then show ?thesis
    using False ring_walk_order [OF False sort_Search_takeWhile [OF sorted_sort]]
    by (simp add: GetSuccessors_def Let_def)
qed

lemma coordinator_index_takeWhile:
  "coordinator_index h i xs =
     (if length (takeWhile (\<lambda>x. x < h) xs) = length xs then None
      else Some (i + length (takeWhile (\<lambda>x. x < h) xs)))"
  by (induction xs arbitrary: i) auto

lemma coordinator_ids_ring_order: "coordinator_ids h im n = take n (ring_order h (go_keys im))"
proof (cases "im = []")
  case True
  then show ?thesis by (simp add: coordinator_ids_def ring_walk_def ring_order_def)
next
  case False
  then show ?thesis
    using ring_walk_order [of "go_keys im" _ h n, OF _ refl]
    by (simp add: coordinator_ids_def Let_def coordinator_index_takeWhile split: if_splits)
qed

section \<open>What a placement promises\<close>

locale ring_placement =
  fixes nodes_of :: "infomap \<Rightarrow> u64 list"
    and place :: "u64 \<Rightarrow> infomap \<Rightarrow> nat \<Rightarrow> u64 list"
  assumes nodes_distinct: "go_map im \<Longrightarrow> distinct (nodes_of im)"
    and nodes_delete: "nodes_of (AList.delete x im) = removeAll x (nodes_of im)"
    and place_ring: "place h im n = take n (ring_order h (nodes_of im))"
begin

lemma place_distinct: "go_map im \<Longrightarrow> distinct (place h im n)"
  by (simp add: place_ring nodes_distinct distinct_take)

lemma place_length: "length (place h im n) = min n (length (nodes_of im))"
  by (simp add: place_ring)

lemma place_subset: "set (place h im n) \<subseteq> set (nodes_of im)"
  by (metis place_ring set_ring_order set_take_subset)

lemma place_prefix: "n \<le> k \<Longrightarrow> take n (place h im k) = place h im n"
  by (simp add: place_ring min_absorb1)

lemma place_closest:
  assumes "x \<in> set (place h im n)" and "y \<in> set (nodes_of im) - set (place h im n)"
  shows "clockwise h x \<le> clockwise h y"
proof -
  let ?r = "ring_order h (nodes_of im)"
  have "y \<in> set (drop n ?r)"
  proof -
    have "y \<in> set (take n ?r @ drop n ?r)" and "y \<notin> set (take n ?r)"
      using assms(2) by (simp_all add: place_ring)
    then show ?thesis unfolding set_append Un_iff by blast
  qed
  moreover have "sorted (map (clockwise h) (take n ?r @ drop n ?r))"
    using sorted_ring_order by simp
  ultimately show ?thesis
    using assms(1) unfolding place_ring map_append sorted_append set_map by blast
qed

lemma place_sorted: "sorted (map (clockwise h) (place h im n))"
  by (simp add: place_ring sorted_ring_order sorted_wrt_take flip: take_map)

lemma place_order: "mset im = mset im' \<Longrightarrow> mset (nodes_of im) = mset (nodes_of im') \<Longrightarrow>
    place h im n = place h im' n"
  by (simp add: place_ring) (metis ring_order_cong)

lemma place_removed:
  assumes "x \<notin> set (place h im n)"
  shows "place h (AList.delete x im) n = place h im n"
  using take_removeAll_notin [of x n "ring_order h (nodes_of im)"] assms
  by (simp add: place_ring nodes_delete ring_order_removeAll)

lemma place_replaced:
  assumes "go_map im" and "x \<in> set (place h im n)"
  shows "place h (AList.delete x im) n = removeAll x (place h im n)
      @ take 1 (drop n (ring_order h (nodes_of im)))"
proof -
  let ?r = "ring_order h (nodes_of im)"
  have d: "distinct ?r" using assms(1) by (simp add: nodes_distinct)
  have x: "x \<in> set (take n ?r)" using assms(2) by (simp add: place_ring)
  have xd: "x \<notin> set (drop n ?r)"
  proof -
    have "distinct (take n ?r @ drop n ?r)" using d by simp
    then show ?thesis using x by (auto simp only: distinct_append)
  qed
  have len: "length (removeAll x (take n ?r)) = length (take n ?r) - 1"
    using d x by (metis distinct_remove1_removeAll distinct_take length_remove1)
  have n: "n > 0" using x by (cases n) auto
  have "removeAll x ?r = removeAll x (take n ?r) @ drop n ?r"
    using xd by (metis append_take_drop_id removeAll_append removeAll_id)
  then have "take n (removeAll x ?r) = removeAll x (take n ?r) @ take (n - (length (take n ?r) - 1)) (drop n ?r)"
    using len n by simp
  moreover have "take (n - (length (take n ?r) - 1)) (drop n ?r) = take 1 (drop n ?r)"
    using n by (cases "n \<le> length ?r") (simp_all add: min_absorb2)
  ultimately show ?thesis by (simp add: place_ring nodes_delete ring_order_removeAll)
qed

end

lemma alive_ids_delete: "alive_ids (AList.delete x im) = removeAll x (alive_ids im)"
  by (induction im) (auto simp: alive_ids_def)

lemma keys_delete_removeAll: "go_keys (AList.delete x im) = removeAll x (go_keys im)"
  by (induction im) auto

interpretation alive_ring: ring_placement alive_ids GetSuccessors
proof unfold_locales
  show "go_map im \<Longrightarrow> distinct (alive_ids im)" for im
    unfolding alive_ids_def by (rule go_map_filter)
qed (simp_all add: alive_ids_delete GetSuccessors_ring_order)

interpretation member_ring: ring_placement go_keys coordinator_ids
  by unfold_locales (simp_all add: keys_delete_removeAll coordinator_ids_ring_order)

lemma set_alive_ids:
  "go_map im \<Longrightarrow> x \<in> set (alive_ids im) \<longleftrightarrow> (\<exists>info. map_of im x = Some info \<and> State info = Alive)"
  by (auto simp: alive_ids_def go_map_lookup_iff image_iff)

lemma alive_ids_fail:
  "go_map im \<Longrightarrow> State dead \<noteq> Alive \<Longrightarrow>
   alive_ids (AList.update x dead im) = removeAll x (alive_ids im)"
proof (induction im)
  case (Cons e im)
  obtain y i where e: "e = (y, i)" by force
  show ?case
  proof (cases "y = x")
    case True
    then have "x \<notin> set (alive_ids im)" using Cons.prems e by (auto simp: alive_ids_def)
    then show ?thesis using True Cons.prems(2) by (auto simp: e alive_ids_def)
  next
    case False
    then show ?thesis using Cons e by (auto simp: alive_ids_def)
  qed
qed (simp add: alive_ids_def)

lemma GetSuccessors_fail:
  "go_map im \<Longrightarrow> State dead \<noteq> Alive \<Longrightarrow>
   GetSuccessors h (AList.update x dead im) n = GetSuccessors h (AList.delete x im) n"
  by (simp add: GetSuccessors_ring_order alive_ids_fail alive_ids_delete)

lemma mset_alive_ids: "mset im = mset im' \<Longrightarrow> mset (alive_ids im) = mset (alive_ids im')"
  by (simp add: alive_ids_def mset_map mset_filter)

section \<open>Properties\<close>

text \<open>
  C2. \<open>GetSuccessors\<close> implements consistent hashing: it returns distinct alive nodes, as
  many as asked for when there are enough, in the order of their clockwise distance from
  the hash, no alive node that it leaves out is closer than one it returns, and the answer
  does not depend on the order in which Go enumerates the membership map. So all nodes
  with the same membership agree on the replicas and on the primary.
\<close>

theorem GetSuccessors_closest:
  assumes "go_map im" and "mset im' = mset im"
  shows "distinct (GetSuccessors h im n)
    \<and> (\<forall>x \<in> set (GetSuccessors h im n). \<exists>info. map_of im x = Some info \<and> State info = Alive)
    \<and> length (GetSuccessors h im n) = min n (length (alive_ids im))
    \<and> sorted (map (clockwise h) (GetSuccessors h im n))
    \<and> (\<forall>x \<in> set (GetSuccessors h im n). \<forall>y \<in> set (alive_ids im) - set (GetSuccessors h im n).
         clockwise h x \<le> clockwise h y)
    \<and> GetSuccessors h im' n = GetSuccessors h im n"
proof (intro conjI ballI)
  show "GetSuccessors h im' n = GetSuccessors h im n"
    using alive_ring.place_order [OF assms(2) mset_alive_ids [OF assms(2)]] .
  fix x assume "x \<in> set (GetSuccessors h im n)"
  then show "\<exists>info. map_of im x = Some info \<and> State info = Alive"
    using alive_ring.place_subset set_alive_ids [OF assms(1)] by blast
qed (use alive_ring.place_distinct [OF assms(1)] alive_ring.place_length alive_ring.place_sorted
    alive_ring.place_closest in auto)

definition sample_ring :: infomap where
  "sample_ring = [(40, sample_info 4 Alive 0 0), (10, sample_info 1 Alive 0 0),
     (20, sample_info 2 Failed 0 0), (30, sample_info 3 Alive 0 0), (50, sample_info 5 Alive 0 0)]"

theorem GetSuccessors_closest_witness:
  "length (GetSuccessors 35 sample_ring 3) = 3"
  using GetSuccessors_closest [of sample_ring sample_ring 35 3]
  by (simp add: sample_ring_def alive_ids_def)



lemma hd_take_removeAll2:
  assumes "distinct r" and "3 \<le> length r"
  shows "hd (take 3 (removeAll y (removeAll x r))) \<in> set (take 3 r)"
proof -
  obtain a b c rest where "r = a # b # c # rest"
    using assms(2) by (auto simp: numeral_3_eq_3 Suc_le_length_iff)
  then show ?thesis using assms(1) by (auto simp: numeral_3_eq_3)
qed

text \<open>
  C17. Three replicas tolerate two failures: with at least three alive nodes, whichever two
  nodes fail, the new primary of a file is one of the nodes that held it before, so the
  re-replication scan, which the primary runs, finds a copy to send.
\<close>

theorem two_failures_keep_a_holder:
  assumes "go_map im" and "3 \<le> length (alive_ids im)"
    and "State deadx \<noteq> Alive" and "State deady \<noteq> Alive"
  shows "hd (GetSuccessors h (AList.update y deady (AList.update x deadx im)) NumReplicas)
    \<in> set (GetSuccessors h im NumReplicas)"
proof -
  have "go_map (AList.update x deadx im)" using assms(1) by simp
  then show ?thesis
    using hd_take_removeAll2 [of "ring_order h (alive_ids im)" y x] assms
      alive_ring.nodes_distinct [OF assms(1)]
    by (simp add: GetSuccessors_ring_order alive_ids_fail ring_order_removeAll NumReplicas_def)
qed

theorem two_failures_keep_a_holder_witness:
  "hd (GetSuccessors 35 (AList.update 50 (sample_info 5 Failed 0 0)
      (AList.update 40 (sample_info 4 Failed 0 0) sample_ring)) NumReplicas)
    \<in> set (GetSuccessors 35 sample_ring NumReplicas)"
  by (rule two_failures_keep_a_holder) (simp_all add: sample_ring_def alive_ids_def)

text \<open>
  The second placement of the code, used by \<open>HandleCreateFile\<close>, walks the same ring
  from the SHA-1 id of the file, but over every node of the table, failed or not: it
  returns the three closest ids among all entries, which are those of \<open>GetSuccessors\<close> for
  that id when every entry is alive, and include every failed node when there are at most
  three entries.
\<close>

theorem coordinator_ring_placement:
  assumes "go_map (InfoMap m)" and "InfoMap m \<noteq> []"
  shows "\<exists>rs. GetCoordinatorAndReplicas f m = Some rs
    \<and> map RRingID rs = take 3 (ring_order (GetFileID f) (go_keys (InfoMap m)))
    \<and> (list_all (\<lambda>(x, info). State info = Alive) (InfoMap m) \<longrightarrow>
         map RRingID rs = GetSuccessors (GetFileID f) (InfoMap m) 3)
    \<and> (length (InfoMap m) \<le> 3 \<longrightarrow> set (map RRingID rs) = set (go_keys (InfoMap m)))"
proof -
  let ?im = "InfoMap m"
  let ?rs = "map (\<lambda>x. let info = go_get zero_info ?im x in
    \<lparr>RRingID = x, RHostname = Hostname info, RPort = Port info\<rparr>) (coordinator_ids (GetFileID f) ?im 3)"
  have get: "GetCoordinatorAndReplicas f m = Some ?rs"
    using assms by (simp add: GetCoordinatorAndReplicas_def GetInfoMap_id Let_def)
  have ids: "map RRingID ?rs = coordinator_ids (GetFileID f) ?im 3"
    by (simp add: comp_def Let_def)
  have "alive_ids ?im = go_keys ?im" if "list_all (\<lambda>(x, info). State info = Alive) ?im"
    using that by (auto simp: alive_ids_def list_all_iff filter_id_conv)
  moreover have "set (coordinator_ids (GetFileID f) ?im 3) = set (go_keys ?im)" if "length ?im \<le> 3"
    using that by (simp add: coordinator_ids_ring_order)
  ultimately have rest: "(list_all (\<lambda>(x, info). State info = Alive) ?im \<longrightarrow>
        map RRingID ?rs = GetSuccessors (GetFileID f) ?im 3)
      \<and> (length ?im \<le> 3 \<longrightarrow> set (map RRingID ?rs) = set (go_keys ?im))"
    unfolding ids by (simp add: coordinator_ids_ring_order GetSuccessors_ring_order)
  show ?thesis
    by (rule exI [of _ ?rs])
      (intro conjI get trans [OF ids coordinator_ids_ring_order] rest [THEN conjunct1] rest [THEN conjunct2])
qed

theorem coordinator_ring_placement_witness:
  "\<exists>rs. GetCoordinatorAndReplicas ''a'' \<lparr>Members = [1], InfoMap = [(1, sample_info 1 Alive 0 0),
     (2, sample_info 2 Failed 0 0)], roundRobinIndex = 0\<rparr> = Some rs \<and> 2 \<in> set (map RRingID rs)"
  using coordinator_ring_placement [of "\<lparr>Members = [1], InfoMap = [(1, sample_info 1 Alive 0 0),
     (2, sample_info 2 Failed 0 0)], roundRobinIndex = 0\<rparr>" "''a''"]
  by auto

end
