(* ===== verification/Blockstore.thy ===== *)
theory Blockstore
  imports Go_Text
begin

text \<open>
  The on-disk layer of HyDFS: the block store (\<open>pkg/storage/blockstore.go\<close>) and the plain
  file manager (\<open>pkg/storage/manager.go\<close>), which share the directory \<open>./hydfs_storage\<close>.

  \<^item> \<open>fs\<close> is the content of that directory: plain files, and directories of one level
    (\<open>Directory\<close>) holding block files (\<open>Raw\<close>) and a metadata file (\<open>Json\<close>, the value whose
    encoding the file holds; names and client ids are valid UTF-8, which JSON keeps).
    File names are single path elements.
  \<^item> \<open>io\<close> is the outcome of each write of an operation, by the name of the file: success,
    failure, or failure that leaves other bytes in the file. \<open>rm\<close> is the same for removals.
    \<open>RemoveAll\<close> after a failed creation succeeds.
  \<^item> Every operation holds the mutex of the store throughout, so it is one step.
\<close>

section \<open>Files\<close>

record BlockMeta =
  BlockNumber :: nat
  BmClientID :: string
  BmClientSequence :: int

record FileMetadata =
  FileID :: u64
  HyDFSFilename :: string
  PrimaryReplicaNodeID :: u64
  TotalBlocks :: nat
  ClientSequenceMap :: "(string, int) gomap"
  BlockMetadata :: "BlockMeta list"

record BlockInfo =
  Content :: bytes
  ClientID :: string
  ClientSequence :: int
  BiBlockNumber :: nat

datatype fcontent = Raw bytes | Json FileMetadata
type_synonym dir = "(string, fcontent) gomap"
datatype fsnode = PlainFile bytes | Directory dir
type_synonym fs = "(string, fsnode) gomap"

datatype io = IoOk | IoFail | IoTorn bytes

datatype store_error =
    FileAlreadyExists | MkdirFailed | WriteBlockFailed nat | WriteMetadataFailed
  | ReadMetadataFailed | ReadBlockFailed nat | NotExist | IsDirectory | RemoveFailed

definition write_file :: "io \<Rightarrow> string \<Rightarrow> fcontent \<Rightarrow> dir \<Rightarrow> bool \<times> dir" where
  "write_file res name c d =
     (case res of
        IoOk \<Rightarrow> (True, AList.update name c d)
      | IoFail \<Rightarrow> (False, d)
      | IoTorn b \<Rightarrow> (False, AList.update name (Raw b) d))"

section \<open>Names\<close>

text \<open>\<open>filepath.Ext\<close>: from the last dot of the last path element.\<close>

definition file_ext :: "string \<Rightarrow> string" where
  "file_ext f =
     (let r = takeWhile (\<lambda>c. c \<noteq> CHR ''.'' \<and> c \<noteq> CHR ''/'') (rev f);
          rest = drop (length r) (rev f)
      in if rest \<noteq> [] \<and> hd rest = CHR ''.'' then CHR ''.'' # rev r else [])"

definition getFileDir :: "string \<Rightarrow> string" where
  "getFileDir hydfsFilename = trim_suffix hydfsFilename (file_ext hydfsFilename)"

definition block_name :: "nat \<Rightarrow> string" where
  "block_name i = ''block_'' @ pad_zero 2 (dec i) @ ''.txt''"

definition metadata_name :: string where
  "metadata_name = ''_metadata.json''"

section \<open>The block store\<close>

definition get_dir :: "fs \<Rightarrow> string \<Rightarrow> dir option" where
  "get_dir fs key = (case map_of fs key of Some (Directory d) \<Rightarrow> Some d | _ \<Rightarrow> None)"

definition dir_metadata :: "dir \<Rightarrow> FileMetadata option" where
  "dir_metadata d = (case map_of d metadata_name of Some (Json md) \<Rightarrow> Some md | _ \<Rightarrow> None)"

definition readMetadata :: "fs \<Rightarrow> string \<Rightarrow> FileMetadata option" where
  "readMetadata fs key = (case get_dir fs key of None \<Rightarrow> None | Some d \<Rightarrow> dir_metadata d)"

definition CreateFile ::
  "(string \<Rightarrow> io) \<Rightarrow> bool \<Rightarrow> string \<Rightarrow> bytes \<Rightarrow> u64 \<Rightarrow> u64 \<Rightarrow> string \<Rightarrow> fs \<Rightarrow> (store_error + unit) \<times> fs" where
  "CreateFile io mkdir hydfsFilename content fileID primaryNodeID clientID fs =
     (let fileDir = getFileDir hydfsFilename in
      if map_of fs fileDir \<noteq> None then (Inl FileAlreadyExists, fs)
      else if \<not> mkdir then (Inl MkdirFailed, fs)
      else case write_file (io (block_name 1)) (block_name 1) (Raw content) [] of (ok1, d1) \<Rightarrow>
        if \<not> ok1 then (Inl (WriteBlockFailed 1), fs)
        else
          let metadata = \<lparr>FileID = fileID, HyDFSFilename = hydfsFilename,
                PrimaryReplicaNodeID = primaryNodeID, TotalBlocks = 1,
                ClientSequenceMap = [(clientID, 1)],
                BlockMetadata = [\<lparr>BlockNumber = 1, BmClientID = clientID, BmClientSequence = 1\<rparr>]\<rparr>
          in case write_file (io metadata_name) metadata_name (Json metadata) d1 of (ok2, d2) \<Rightarrow>
               if \<not> ok2 then (Inl WriteMetadataFailed, fs)
               else (Inr (), AList.update fileDir (Directory d2) fs))"

definition read_block :: "dir \<Rightarrow> nat \<Rightarrow> bytes option" where
  "read_block d i = (case map_of d (block_name i) of Some (Raw b) \<Rightarrow> Some b | _ \<Rightarrow> None)"

fun read_blocks :: "dir \<Rightarrow> nat list \<Rightarrow> bytes \<Rightarrow> store_error + bytes" where
  "read_blocks d [] content = Inr content"
| "read_blocks d (i # is) content =
     (case read_block d i of
        None \<Rightarrow> Inl (ReadBlockFailed i)
      | Some blockData \<Rightarrow> read_blocks d is (content @ blockData))"

definition ReadFile :: "string \<Rightarrow> fs \<Rightarrow> store_error + bytes" where
  "ReadFile hydfsFilename fs =
     (case get_dir fs (getFileDir hydfsFilename) of
        None \<Rightarrow> Inl ReadMetadataFailed
      | Some d \<Rightarrow>
          case dir_metadata d of
            None \<Rightarrow> Inl ReadMetadataFailed
          | Some metadata \<Rightarrow> read_blocks d [1..<Suc (TotalBlocks metadata)] [])"

text \<open>The exchange sort of \<open>MergeFile\<close>: by client, then by client sequence.\<close>

definition block_after :: "BlockInfo \<Rightarrow> BlockInfo \<Rightarrow> bool" where
  "block_after a b =
     (ClientID a > ClientID b \<or> ClientID a = ClientID b \<and> ClientSequence a > ClientSequence b)"

definition exchange :: "nat \<Rightarrow> nat \<Rightarrow> BlockInfo list \<Rightarrow> BlockInfo list" where
  "exchange i j bs = (if block_after (bs ! i) (bs ! j) then swap_cells i j bs else bs)"

definition sort_blocks :: "BlockInfo list \<Rightarrow> BlockInfo list" where
  "sort_blocks blocks =
     fold (\<lambda>i. fold (exchange i) [i + 1..<length blocks]) [0..<length blocks] blocks"

fun write_blocks :: "(string \<Rightarrow> io) \<Rightarrow> nat \<Rightarrow> BlockInfo list \<Rightarrow> dir \<Rightarrow> (store_error + BlockMeta list) \<times> dir" where
  "write_blocks io i [] d = (Inr [], d)"
| "write_blocks io i (b # bs) d =
     (case write_file (io (block_name i)) (block_name i) (Raw (Content b)) d of (ok, d1) \<Rightarrow>
        if \<not> ok then (Inl (WriteBlockFailed i), d1)
        else case write_blocks io (i + 1) bs d1 of
               (Inl err, d2) \<Rightarrow> (Inl err, d2)
             | (Inr metas, d2) \<Rightarrow>
                 (Inr (\<lparr>BlockNumber = i, BmClientID = ClientID b,
                        BmClientSequence = ClientSequence b\<rparr> # metas), d2))"

definition rebuild_sequences :: "BlockInfo list \<Rightarrow> (string, int) gomap" where
  "rebuild_sequences bs =
     fold (\<lambda>b m. if ClientSequence b > go_get 0 m (ClientID b)
                 then AList.update (ClientID b) (ClientSequence b) m else m) bs []"

definition MergeFile ::
  "(string \<Rightarrow> io) \<Rightarrow> (string \<Rightarrow> bool) \<Rightarrow> string \<Rightarrow> BlockInfo list \<Rightarrow> fs \<Rightarrow> (store_error + unit) \<times> fs" where
  "MergeFile io rm hydfsFilename allBlocksData fs =
     (let fileDir = getFileDir hydfsFilename in
      case get_dir fs fileDir of
        None \<Rightarrow> (Inl ReadMetadataFailed, fs)
      | Some d \<Rightarrow>
          case dir_metadata d of
            None \<Rightarrow> (Inl ReadMetadataFailed, fs)
          | Some metadata \<Rightarrow>
              let sortedBlocks = sort_blocks allBlocksData;
                  d1 = filter (\<lambda>(n, _). \<not> (prefix ''block_'' n \<and> rm n)) d
              in case write_blocks io 1 sortedBlocks d1 of
                   (Inl err, d2) \<Rightarrow> (Inl err, AList.update fileDir (Directory d2) fs)
                 | (Inr newBlockMetadata, d2) \<Rightarrow>
                     let metadata = metadata\<lparr>TotalBlocks := length sortedBlocks,
                                             BlockMetadata := newBlockMetadata,
                                             ClientSequenceMap := rebuild_sequences sortedBlocks\<rparr>
                     in case write_file (io metadata_name) metadata_name (Json metadata) d2 of
                          (ok, d3) \<Rightarrow>
                            (if ok then Inr () else Inl WriteMetadataFailed,
                             AList.update fileDir (Directory d3) fs))"

definition block_info :: "FileMetadata \<Rightarrow> nat \<Rightarrow> bytes \<Rightarrow> BlockInfo" where
  "block_info metadata i content =
     (if i \<le> length (BlockMetadata metadata)
      then let bm = BlockMetadata metadata ! (i - 1) in
        \<lparr>Content = content, ClientID = BmClientID bm, ClientSequence = BmClientSequence bm,
         BiBlockNumber = i\<rparr>
      else \<lparr>Content = content, ClientID = ''unknown_block_'' @ dec i, ClientSequence = int i,
            BiBlockNumber = i\<rparr>)"

fun all_blocks :: "dir \<Rightarrow> FileMetadata \<Rightarrow> nat list \<Rightarrow> store_error + BlockInfo list" where
  "all_blocks d metadata [] = Inr []"
| "all_blocks d metadata (i # is) =
     (case read_block d i of
        None \<Rightarrow> Inl (ReadBlockFailed i)
      | Some content \<Rightarrow>
          case all_blocks d metadata is of
            Inl err \<Rightarrow> Inl err
          | Inr blocks \<Rightarrow> Inr (block_info metadata i content # blocks))"

definition GetAllBlocks :: "string \<Rightarrow> fs \<Rightarrow> store_error + BlockInfo list" where
  "GetAllBlocks hydfsFilename fs =
     (case get_dir fs (getFileDir hydfsFilename) of
        None \<Rightarrow> Inl ReadMetadataFailed
      | Some d \<Rightarrow>
          case dir_metadata d of
            None \<Rightarrow> Inl ReadMetadataFailed
          | Some metadata \<Rightarrow> all_blocks d metadata [1..<Suc (TotalBlocks metadata)])"

definition FileExists :: "string \<Rightarrow> fs \<Rightarrow> bool" where
  "FileExists hydfsFilename fs = go_has fs (getFileDir hydfsFilename)"

definition DeleteFile :: "string \<Rightarrow> fs \<Rightarrow> fs" where
  "DeleteFile hydfsFilename fs = AList.delete (getFileDir hydfsFilename) fs"

definition ListFiles :: "fs \<Rightarrow> string list" where
  "ListFiles fs =
     concat (map (\<lambda>(n, node).
       case node of
         PlainFile _ \<Rightarrow> []
       | Directory d \<Rightarrow>
           if prefix ''.'' n then []
           else case dir_metadata d of None \<Rightarrow> [] | Some md \<Rightarrow> [HyDFSFilename md]) fs)"

definition GetMetadata :: "string \<Rightarrow> fs \<Rightarrow> FileMetadata option" where
  "GetMetadata hydfsFilename fs = readMetadata fs (getFileDir hydfsFilename)"

definition empty_metadata :: "string \<Rightarrow> FileMetadata" where
  "empty_metadata hydfsFilename = \<lparr>FileID = 0, HyDFSFilename = hydfsFilename,
     PrimaryReplicaNodeID = 0, TotalBlocks = 0, ClientSequenceMap = [], BlockMetadata = []\<rparr>"

text \<open>\<open>io0\<close> is the outcome of writing the initial metadata of a missing file.\<close>

definition append_block ::
  "(string \<Rightarrow> io) \<Rightarrow> bytes \<Rightarrow> string \<Rightarrow> dir \<Rightarrow> (store_error + unit) \<times> dir" where
  "append_block io content clientID d =
     (case dir_metadata d of
        None \<Rightarrow> (Inl ReadMetadataFailed, d)
      | Some md \<Rightarrow>
          let total = TotalBlocks md + 1;
              csn = go_get 0 (ClientSequenceMap md) clientID + 1;
              metadata = md\<lparr>TotalBlocks := total,
                ClientSequenceMap := AList.update clientID csn (ClientSequenceMap md),
                BlockMetadata := BlockMetadata md
                  @ [\<lparr>BlockNumber = total, BmClientID = clientID, BmClientSequence = csn\<rparr>]\<rparr>
          in case write_file (io (block_name total)) (block_name total) (Raw content) d of (ok, d1) \<Rightarrow>
               if \<not> ok then (Inl (WriteBlockFailed total), d1)
               else case write_file (io metadata_name) metadata_name (Json metadata) d1 of (ok2, d2) \<Rightarrow>
                      (if ok2 then Inr () else Inl WriteMetadataFailed, d2))"

definition AppendFile ::
  "(string \<Rightarrow> io) \<Rightarrow> io \<Rightarrow> bool \<Rightarrow> string \<Rightarrow> bytes \<Rightarrow> string \<Rightarrow> fs \<Rightarrow> (store_error + unit) \<times> fs" where
  "AppendFile io io0 mkdir hydfsFilename content clientID fs =
     (let fileDir = getFileDir hydfsFilename in
      case map_of fs fileDir of
        None \<Rightarrow>
          if \<not> mkdir then (Inl MkdirFailed, fs)
          else (case write_file io0 metadata_name (Json (empty_metadata hydfsFilename)) [] of (ok, d0) \<Rightarrow>
             if \<not> ok then (Inl WriteMetadataFailed, AList.update fileDir (Directory d0) fs)
             else case append_block io content clientID d0 of
                    (r, d1) \<Rightarrow> (r, AList.update fileDir (Directory d1) fs))
      | Some (Directory d) \<Rightarrow>
          (case append_block io content clientID d of
             (r, d1) \<Rightarrow> (r, AList.update fileDir (Directory d1) fs))
      | Some (PlainFile _) \<Rightarrow> (Inl ReadMetadataFailed, fs))"

section \<open>The plain file manager\<close>

definition Manager_WriteFile :: "io \<Rightarrow> string \<Rightarrow> bytes \<Rightarrow> fs \<Rightarrow> (store_error + unit) \<times> fs" where
  "Manager_WriteFile res filename data fs =
     (case map_of fs filename of
        Some (Directory _) \<Rightarrow> (Inl IsDirectory, fs)
      | _ \<Rightarrow>
          (case res of
             IoOk \<Rightarrow> (Inr (), AList.update filename (PlainFile data) fs)
           | IoFail \<Rightarrow> (Inl (WriteBlockFailed 0), fs)
           | IoTorn b \<Rightarrow> (Inl (WriteBlockFailed 0), AList.update filename (PlainFile b) fs)))"

definition Manager_ReadFile :: "string \<Rightarrow> fs \<Rightarrow> store_error + bytes" where
  "Manager_ReadFile filename fs =
     (case map_of fs filename of
        None \<Rightarrow> Inl NotExist
      | Some (Directory _) \<Rightarrow> Inl IsDirectory
      | Some (PlainFile b) \<Rightarrow> Inr b)"

definition Manager_FileExists :: "string \<Rightarrow> fs \<Rightarrow> bool" where
  "Manager_FileExists filename fs = go_has fs filename"

definition Manager_DeleteFile :: "string \<Rightarrow> fs \<Rightarrow> (store_error + unit) \<times> fs" where
  "Manager_DeleteFile filename fs =
     (case map_of fs filename of
        None \<Rightarrow> (Inl NotExist, fs)
      | Some (PlainFile _) \<Rightarrow> (Inr (), AList.delete filename fs)
      | Some (Directory d) \<Rightarrow>
          if d = [] then (Inr (), AList.delete filename fs) else (Inl RemoveFailed, fs))"

definition Manager_ListFiles :: "fs \<Rightarrow> string list" where
  "Manager_ListFiles fs =
     concat (map (\<lambda>(n, node). case node of PlainFile _ \<Rightarrow> [n] | Directory _ \<Rightarrow> []) fs)"

end
