(* ===== verification/Blockstore_Log.thy ===== *)
theory Blockstore_Log
  imports Blockstore "HOL-Library.Product_Lexorder"
begin

text \<open>
  What the block store promises: a file is a log of blocks, reading it concatenates them,
  appending adds one block with the next sequence number of its client, and merging sorts.

  \<^item> \<open>dir_ok d md\<close>: the directory holds the metadata \<open>md\<close> and all its blocks.
  \<^item> \<open>dir_log d md\<close> is the abstract content, the list of blocks with their clients.
  \<^item> The locale \<open>append_log\<close> is the contract that the clients of the store use (the
    \<open>BlockStore\<close> interface of \<open>pkg/rainstorm/server.go\<close>); the block store interprets it.
\<close>

section \<open>Names of blocks\<close>

lemma block_name_inject [simp]: "block_name i = block_name j \<longleftrightarrow> i = j"
proof
  assume "block_name i = block_name j"
  then have "pad_zero 2 (dec i) = pad_zero 2 (dec j)" by (simp add: block_name_def)
  then show "i = j" by (metis undec_dec undec_pad_zero)
qed simp

lemma block_name_not_metadata [simp]:
  "block_name i \<noteq> metadata_name" "metadata_name \<noteq> block_name i"
  by (simp_all add: block_name_def metadata_name_def)

lemma prefix_block_name [simp]:
  "prefix ''block_'' (block_name i)" "\<not> prefix ''block_'' metadata_name"
  by (simp_all add: block_name_def metadata_name_def)

section \<open>A directory as a log\<close>

definition dir_ok :: "dir \<Rightarrow> FileMetadata \<Rightarrow> bool" where
  "dir_ok d md =
     (dir_metadata d = Some md \<and> length (BlockMetadata md) = TotalBlocks md
      \<and> (\<forall>i. 1 \<le> i \<and> i \<le> TotalBlocks md \<longrightarrow> read_block d i \<noteq> None))"

definition dir_log :: "dir \<Rightarrow> FileMetadata \<Rightarrow> BlockInfo list" where
  "dir_log d md = map (\<lambda>i. block_info md i (the (read_block d i))) [1..<Suc (TotalBlocks md)]"

lemma read_blocks_all:
  "\<forall>i \<in> set is. read_block d i \<noteq> None \<Longrightarrow>
   read_blocks d is content = Inr (content @ concat (map (\<lambda>i. the (read_block d i)) is))"
  by (induction "is" arbitrary: content) auto

lemma all_blocks_all:
  "\<forall>i \<in> set is. read_block d i \<noteq> None \<Longrightarrow>
   all_blocks d md is = Inr (map (\<lambda>i. block_info md i (the (read_block d i))) is)"
  by (induction "is") auto

lemma Content_block_info [simp]: "Content (block_info md i c) = c"
  by (simp add: block_info_def Let_def)

lemma dir_log_reads:
  assumes "dir_ok d md"
  shows "read_blocks d [1..<Suc (TotalBlocks md)] [] = Inr (concat (map Content (dir_log d md)))"
    and "all_blocks d md [1..<Suc (TotalBlocks md)] = Inr (dir_log d md)"
proof -
  have "\<forall>i \<in> set [1..<Suc (TotalBlocks md)]. read_block d i \<noteq> None"
    using assms by (auto simp: dir_ok_def)
  then show "read_blocks d [1..<Suc (TotalBlocks md)] [] = Inr (concat (map Content (dir_log d md)))"
    and "all_blocks d md [1..<Suc (TotalBlocks md)] = Inr (dir_log d md)"
    by (simp_all only: read_blocks_all all_blocks_all) (simp_all add: dir_log_def comp_def)
qed

lemma length_dir_log [simp]: "length (dir_log d md) = TotalBlocks md"
  by (simp add: dir_log_def)

section \<open>Files of the store\<close>

definition file_ok :: "fs \<Rightarrow> string \<Rightarrow> bool" where
  "file_ok fs f = (\<exists>d md. get_dir fs (getFileDir f) = Some d \<and> dir_ok d md)"

definition file_log :: "fs \<Rightarrow> string \<Rightarrow> BlockInfo list" where
  "file_log fs f = (case GetAllBlocks f fs of Inr bs \<Rightarrow> bs | Inl _ \<Rightarrow> [])"

lemma file_log_dir:
  "get_dir fs (getFileDir f) = Some d \<Longrightarrow> dir_ok d md \<Longrightarrow> file_log fs f = dir_log d md"
  using dir_log_reads(2) [of d md]
  by (simp add: file_log_def GetAllBlocks_def) (simp add: dir_ok_def)

lemma ReadFile_log:
  "file_ok fs f \<Longrightarrow> ReadFile f fs = Inr (concat (map Content (file_log fs f)))"
  using dir_log_reads(1)
  by (auto simp: file_ok_def ReadFile_def file_log_dir) (auto simp: dir_ok_def)

lemma get_dir_update [simp]:
  "get_dir (AList.update k (Directory d) fs) k' = (if k' = k then Some d else get_dir fs k')"
  by (simp add: get_dir_def)

lemma file_frame:
  assumes "get_dir fs' (getFileDir g) = get_dir fs (getFileDir g)"
  shows "file_log fs' g = file_log fs g" and "file_ok fs' g = file_ok fs g"
    and "ReadFile g fs' = ReadFile g fs"
  using assms by (simp_all add: file_log_def GetAllBlocks_def file_ok_def ReadFile_def)

lemma write_file_ok [simp]: "write_file IoOk n c d = (True, AList.update n c d)"
  by (simp add: write_file_def)

lemma read_block_other [simp]:
  "read_block (AList.update metadata_name c d) i = read_block d i"
  "i \<noteq> j \<Longrightarrow> read_block (AList.update (block_name j) c d) i = read_block d i"
  by (simp_all add: read_block_def)

lemma read_block_same [simp]: "read_block (AList.update (block_name i) (Raw b) d) i = Some b"
  by (simp add: read_block_def)

lemma dir_metadata_other [simp]:
  "dir_metadata (AList.update (block_name i) c d) = dir_metadata d"
  "dir_metadata (AList.update metadata_name (Json md) d) = Some md"
  "dir_metadata (AList.update metadata_name (Raw b) d) = None"
  by (simp_all add: dir_metadata_def)

section \<open>Appending\<close>

definition next_block :: "FileMetadata \<Rightarrow> bytes \<Rightarrow> string \<Rightarrow> BlockInfo" where
  "next_block md content c = \<lparr>Content = content, ClientID = c,
     ClientSequence = go_get 0 (ClientSequenceMap md) c + 1, BiBlockNumber = TotalBlocks md + 1\<rparr>"

lemma append_block_appends:
  assumes "dir_ok d md" and "append_block io content c d = (Inr (), d')"
  shows "\<exists>md'. dir_ok d' md' \<and> dir_log d' md' = dir_log d md @ [next_block md content c]
    \<and> ClientSequenceMap md' =
        AList.update c (go_get 0 (ClientSequenceMap md) c + 1) (ClientSequenceMap md)
    \<and> BlockMetadata md' = BlockMetadata md @ [\<lparr>BlockNumber = TotalBlocks md + 1, BmClientID = c,
        BmClientSequence = go_get 0 (ClientSequenceMap md) c + 1\<rparr>]"
proof -
  let ?n = "TotalBlocks md + 1"
  let ?csn = "go_get 0 (ClientSequenceMap md) c + 1"
  let ?md = "md\<lparr>TotalBlocks := ?n, ClientSequenceMap := AList.update c ?csn (ClientSequenceMap md),
    BlockMetadata := BlockMetadata md
      @ [\<lparr>BlockNumber = ?n, BmClientID = c, BmClientSequence = ?csn\<rparr>]\<rparr>"
  have md: "dir_metadata d = Some md" using assms(1) by (simp add: dir_ok_def)
  have d': "d' = AList.update metadata_name (Json ?md) (AList.update (block_name ?n) (Raw content) d)"
    using assms(2) md
    by (simp add: append_block_def Let_def write_file_def split: io.splits if_splits)
  have len: "length (BlockMetadata md) = TotalBlocks md" using assms(1) by (simp add: dir_ok_def)
  have old: "read_block d' i = read_block d i" if "i \<le> TotalBlocks md" for i
    using that by (simp add: d')
  have ok: "dir_ok d' ?md"
    using assms(1) len old by (auto simp: dir_ok_def d' le_Suc_eq)
  have "block_info ?md i b = block_info md i b" if "1 \<le> i" "i \<le> TotalBlocks md" for i b
  proof -
    have "i - Suc 0 < TotalBlocks md" using that by linarith
    then show ?thesis using that len by (simp add: block_info_def Let_def nth_append)
  qed
  then have "map (\<lambda>i. block_info ?md i (the (read_block d' i))) [1..<Suc (TotalBlocks md)] = dir_log d md"
    unfolding dir_log_def using old by (intro map_cong) auto
  moreover have "block_info ?md ?n (the (read_block d' ?n)) = next_block md content c"
    using len by (simp add: d' block_info_def next_block_def Let_def nth_append)
  ultimately have "dir_log d' ?md = dir_log d md @ [next_block md content c]"
    by (simp add: dir_log_def)
  then show ?thesis using ok by (intro exI [of _ ?md]) simp
qed

lemma append_block_fails:
  assumes "dir_ok d md" and "append_block io content c d = (Inl err, d')"
    and "\<forall>b. io metadata_name \<noteq> IoTorn b"
  shows "dir_ok d' md \<and> dir_log d' md = dir_log d md"
proof -
  have md: "dir_metadata d = Some md" using assms(1) by (simp add: dir_ok_def)
  have "\<exists>c. d' = AList.update (block_name (TotalBlocks md + 1)) c d \<or> d' = d"
    using assms(2,3) md
    by (auto simp: append_block_def Let_def write_file_def split: io.splits if_splits)
  moreover have "read_block (AList.update (block_name (TotalBlocks md + 1)) c d) i = read_block d i"
    if "i \<le> TotalBlocks md" for c i
    using that by simp
  ultimately have "dir_metadata d' = Some md" and "\<forall>i \<le> TotalBlocks md. read_block d' i = read_block d i"
    using md by auto
  then show ?thesis using assms(1) by (auto simp: dir_ok_def dir_log_def)
qed

lemma AppendFile_existing:
  assumes "get_dir fs (getFileDir f) = Some d"
  shows "AppendFile io io0 mkdir f content c fs =
    (fst (append_block io content c d),
     AList.update (getFileDir f) (Directory (snd (append_block io content c d))) fs)"
  using assms by (auto simp: AppendFile_def get_dir_def Let_def split: option.splits fsnode.splits prod.splits)

lemma AppendFile_appends:
  assumes "file_ok fs f" and "AppendFile io io0 mkdir f content c fs = (Inr (), fs')"
  shows "file_ok fs' f \<and> map Content (file_log fs' f) = map Content (file_log fs f) @ [content]
    \<and> map ClientID (file_log fs' f) = map ClientID (file_log fs f) @ [c]"
proof -
  obtain d md where d: "get_dir fs (getFileDir f) = Some d" "dir_ok d md"
    using assms(1) by (auto simp: file_ok_def)
  obtain r d' where a: "append_block io content c d = (r, d')" by force
  then have r: "r = Inr ()" and fs': "fs' = AList.update (getFileDir f) (Directory d') fs"
    using assms(2) AppendFile_existing [OF d(1)] by auto
  obtain md' where md': "dir_ok d' md'" "dir_log d' md' = dir_log d md @ [next_block md content c]"
    using append_block_appends [OF d(2)] a r by blast
  have "get_dir fs' (getFileDir f) = Some d'" by (simp add: fs')
  then show ?thesis
    using file_log_dir [OF _ md'(1)] file_log_dir [OF d] md' by (auto simp: file_ok_def next_block_def)
qed

lemma AppendFile_fails:
  assumes "file_ok fs f" and "AppendFile io io0 mkdir f content c fs = (Inl err, fs')"
    and "\<forall>b. io metadata_name \<noteq> IoTorn b"
  shows "file_ok fs' f \<and> file_log fs' f = file_log fs f"
proof -
  obtain d md where d: "get_dir fs (getFileDir f) = Some d" "dir_ok d md"
    using assms(1) by (auto simp: file_ok_def)
  obtain r d' where a: "append_block io content c d = (r, d')" by force
  then have "r = Inl err" and fs': "fs' = AList.update (getFileDir f) (Directory d') fs"
    using assms(2) AppendFile_existing [OF d(1)] by auto
  then have "dir_ok d' md \<and> dir_log d' md = dir_log d md"
    using append_block_fails [OF d(2), of io content c err d'] assms(3) a by blast
  moreover have "get_dir fs' (getFileDir f) = Some d'" by (simp add: fs')
  ultimately show ?thesis using file_log_dir d by (auto simp: file_ok_def)
qed

lemma AppendFile_other:
  assumes "getFileDir g \<noteq> getFileDir f"
  shows "get_dir (snd (AppendFile io io0 mkdir f content c fs)) (getFileDir g) = get_dir fs (getFileDir g)"
  using assms
  by (auto simp: AppendFile_def Let_def split: option.splits fsnode.splits prod.splits)

definition empty_dir :: "string \<Rightarrow> dir" where
  "empty_dir f = [(metadata_name, Json (empty_metadata f))]"

lemma empty_dir_ok: "dir_ok (empty_dir f) (empty_metadata f)" "dir_log (empty_dir f) (empty_metadata f) = []"
  by (simp_all add: dir_ok_def empty_dir_def empty_metadata_def dir_metadata_def dir_log_def)

lemma AppendFile_new:
  assumes "map_of fs (getFileDir f) = None"
  shows "AppendFile io IoOk True f content c fs =
    (fst (append_block io content c (empty_dir f)),
     AList.update (getFileDir f) (Directory (snd (append_block io content c (empty_dir f)))) fs)"
  using assms by (simp add: AppendFile_def Let_def empty_dir_def split: prod.splits)

lemma append_block_succeeds:
  assumes "dir_metadata d = Some md" and "\<And>n. io n = IoOk"
  shows "fst (append_block io content c d) = Inr ()"
  using assms by (simp add: append_block_def Let_def)

lemma AppendFile_creates:
  assumes "map_of fs (getFileDir f) = None" and "\<And>n. io n = IoOk"
    and "AppendFile io IoOk True f content c fs = (r, fs')"
  shows "r = Inr () \<and> file_ok fs' f \<and> map Content (file_log fs' f) = [content]
    \<and> map ClientID (file_log fs' f) = [c]"
proof -
  obtain r1 d1 where a: "append_block io content c (empty_dir f) = (r1, d1)" by force
  have "dir_metadata (empty_dir f) = Some (empty_metadata f)"
    using empty_dir_ok(1) by (simp add: dir_ok_def)
  then have r1: "r1 = Inr ()" using append_block_succeeds [of "empty_dir f" _ io content c] a assms(2) by simp
  then have r: "r = Inr ()" and fs': "fs' = AList.update (getFileDir f) (Directory d1) fs"
    using assms(3) AppendFile_new [OF assms(1)] a by simp_all
  obtain md' where md': "dir_ok d1 md'" "dir_log d1 md' = [next_block (empty_metadata f) content c]"
    using append_block_appends [OF empty_dir_ok(1)] a r1 empty_dir_ok(2) by fastforce
  have "get_dir fs' (getFileDir f) = Some d1" by (simp add: fs')
  then show ?thesis
    using r md' file_log_dir [OF _ md'(1)] by (auto simp: file_ok_def next_block_def)
qed

lemma CreateFile_creates:
  assumes "CreateFile io mkdir f content fid prim c fs = (Inr (), fs')"
  shows "file_log fs' f = [\<lparr>Content = content, ClientID = c, ClientSequence = 1, BiBlockNumber = 1\<rparr>]
    \<and> file_ok fs' f \<and> map Content (file_log fs' f) = [content]
    \<and> map ClientID (file_log fs' f) = [c] \<and> map_of fs (getFileDir f) = None"
proof -
  let ?md = "\<lparr>FileID = fid, HyDFSFilename = f, PrimaryReplicaNodeID = prim, TotalBlocks = 1,
    ClientSequenceMap = [(c, 1)],
    BlockMetadata = [\<lparr>BlockNumber = 1, BmClientID = c, BmClientSequence = 1\<rparr>]\<rparr>"
  let ?d = "[(block_name 1, Raw content), (metadata_name, Json ?md)]"
  have fs': "fs' = AList.update (getFileDir f) (Directory ?d) fs" and new: "map_of fs (getFileDir f) = None"
    using assms by (auto simp: CreateFile_def Let_def write_file_def split: if_splits io.splits prod.splits)
  have ok: "dir_ok ?d ?md"
    by (auto simp: dir_ok_def dir_metadata_def read_block_def le_Suc_eq)
  have "dir_log ?d ?md = [\<lparr>Content = content, ClientID = c, ClientSequence = 1, BiBlockNumber = 1\<rparr>]"
    by (simp add: dir_log_def read_block_def block_info_def)
  moreover have "get_dir fs' (getFileDir f) = Some ?d" by (simp add: fs')
  ultimately show ?thesis using file_log_dir [OF _ ok] new ok by (auto simp: file_ok_def)
qed

lemma create_log:
  assumes "CreateFile io mkdir f content fid prim c fs = (Inr (), fs')"
  shows "GetAllBlocks f fs' = Inr [\<lparr>Content = content, ClientID = c, ClientSequence = 1, BiBlockNumber = 1\<rparr>]"
proof -
  have "file_log fs' f = [\<lparr>Content = content, ClientID = c, ClientSequence = 1, BiBlockNumber = 1\<rparr>]"
    using CreateFile_creates [OF assms] by blast
  then show ?thesis by (simp add: file_log_def split: sum.splits)
qed

lemma create_content:
  "CreateFile io mkdir f content fid prim c fs = (Inr (), fs') \<Longrightarrow> ReadFile f fs' = Inr content"
  using CreateFile_creates [of io mkdir f content fid prim c fs fs'] ReadFile_log [of fs' f] by simp

lemma CreateFile_fails: "CreateFile io mkdir f content fid prim c fs = (Inl err, fs') \<Longrightarrow> fs' = fs"
  by (auto simp: CreateFile_def Let_def split: if_splits prod.splits)

section \<open>The contract of an append-only store\<close>

locale append_log =
  fixes append :: "string \<Rightarrow> bytes \<Rightarrow> string \<Rightarrow> 's \<Rightarrow> 's"
    and contents :: "string \<Rightarrow> 's \<Rightarrow> bytes"
    and usable :: "string \<Rightarrow> 's \<Rightarrow> bool"
    and apart :: "string \<Rightarrow> string \<Rightarrow> bool"
  assumes append_contents: "usable f s \<Longrightarrow> contents f (append f x c s) = contents f s @ x"
    and append_usable: "usable f s \<Longrightarrow> usable f (append f x c s)"
    and append_frame: "apart f g \<Longrightarrow> contents g (append f x c s) = contents g s"
    and append_frame_usable: "apart f g \<Longrightarrow> usable g (append f x c s) = usable g s"
begin

definition run :: "(string \<times> bytes \<times> string) list \<Rightarrow> 's \<Rightarrow> 's" where
  "run ops s = fold (\<lambda>(f, x, c). append f x c) ops s"

lemma run_contents:
  assumes "usable f s" and "\<forall>op \<in> set ops. fst op = f \<or> apart (fst op) f"
  shows "usable f (run ops s) \<and> contents f (run ops s)
    = contents f s @ concat (map (\<lambda>op. fst (snd op)) (filter (\<lambda>op. fst op = f) ops))"
  using assms
proof (induction ops arbitrary: s)
  case (Cons op ops)
  obtain g x c where op: "op = (g, x, c)" by (cases op)
  show ?case
  proof (cases "g = f")
    case True
    then show ?thesis
      using Cons.IH [of "append f x c s"] Cons.prems append_contents append_usable
      by (simp add: run_def op)
  next
    case False
    then have "apart g f" using Cons.prems op by auto
    then show ?thesis
      using Cons.IH [of "append g x c s"] Cons.prems append_frame append_frame_usable False
      by (simp add: run_def op)
  qed
qed (simp add: run_def)

end

definition healthy_append :: "string \<Rightarrow> bytes \<Rightarrow> string \<Rightarrow> fs \<Rightarrow> fs" where
  "healthy_append f content c fs = snd (AppendFile (\<lambda>_. IoOk) IoOk True f content c fs)"

definition contents_of :: "string \<Rightarrow> fs \<Rightarrow> bytes" where
  "contents_of f fs = (case ReadFile f fs of Inr b \<Rightarrow> b | Inl _ \<Rightarrow> [])"

definition usable_file :: "string \<Rightarrow> fs \<Rightarrow> bool" where
  "usable_file f fs = (file_ok fs f \<or> map_of fs (getFileDir f) = None)"

definition separate_files :: "string \<Rightarrow> string \<Rightarrow> bool" where
  "separate_files f g = (getFileDir f \<noteq> getFileDir g)"

lemma contents_of_log: "file_ok fs f \<Longrightarrow> contents_of f fs = concat (map Content (file_log fs f))"
  by (simp add: contents_of_def ReadFile_log)

lemma contents_of_missing: "map_of fs (getFileDir f) = None \<Longrightarrow> contents_of f fs = []"
  by (simp add: contents_of_def ReadFile_def get_dir_def)

lemma AppendFile_succeeds:
  assumes "file_ok fs f"
  shows "fst (AppendFile (\<lambda>_. IoOk) IoOk True f content c fs) = Inr ()"
  using assms AppendFile_existing append_block_succeeds [of _ _ "\<lambda>_. IoOk"]
  by (auto simp: file_ok_def dir_ok_def)

lemma healthy_append_contents:
  assumes "usable_file f fs"
  shows "file_ok (healthy_append f content c fs) f
    \<and> contents_of f (healthy_append f content c fs) = contents_of f fs @ content"
proof (cases "file_ok fs f")
  case True
  obtain r fs' where a: "AppendFile (\<lambda>_. IoOk) IoOk True f content c fs = (r, fs')" by force
  then have "r = Inr ()" using AppendFile_succeeds [OF True, of content c] by simp
  then show ?thesis using AppendFile_appends [OF True] a contents_of_log True
    by (simp add: healthy_append_def)
next
  case False
  then have new: "map_of fs (getFileDir f) = None" using assms by (simp add: usable_file_def)
  obtain r fs' where a: "AppendFile (\<lambda>_. IoOk) IoOk True f content c fs = (r, fs')" by force
  then show ?thesis using AppendFile_creates [OF new _ a] contents_of_log contents_of_missing [OF new]
    by (simp add: healthy_append_def)
qed

lemma AppendFile_map_of_other:
  "getFileDir f \<noteq> k \<Longrightarrow> map_of (snd (AppendFile io io0 mkdir f content c fs)) k = map_of fs k"
  by (auto simp: AppendFile_def Let_def split: option.splits fsnode.splits prod.splits)

interpretation blockstore_log: append_log healthy_append contents_of usable_file separate_files
proof unfold_locales
  fix f g content c fs assume "separate_files f g"
  then have k: "getFileDir f \<noteq> getFileDir g" by (simp add: separate_files_def)
  then have d: "get_dir (healthy_append f content c fs) (getFileDir g) = get_dir fs (getFileDir g)"
    by (simp add: healthy_append_def get_dir_def AppendFile_map_of_other)
  show "contents_of g (healthy_append f content c fs) = contents_of g fs"
    using file_frame(3) [OF d] by (simp add: contents_of_def)
  show "usable_file g (healthy_append f content c fs) = usable_file g fs"
    using file_frame(2) [OF d] k
    by (simp add: usable_file_def healthy_append_def AppendFile_map_of_other)
qed (use healthy_append_contents in \<open>auto simp: usable_file_def\<close>)

section \<open>Sequence numbers\<close>

definition client_sequences :: "FileMetadata \<Rightarrow> string \<Rightarrow> int list" where
  "client_sequences md c = map BmClientSequence (filter (\<lambda>bm. BmClientID bm = c) (BlockMetadata md))"

definition sequences_ok :: "FileMetadata \<Rightarrow> bool" where
  "sequences_ok md = (\<forall>c. client_sequences md c =
     map (\<lambda>k. int k + 1) [0..<length (client_sequences md c)]
     \<and> go_get 0 (ClientSequenceMap md) c = int (length (client_sequences md c)))"

lemma sequences_ok_append:
  assumes "sequences_ok md"
    and "BlockMetadata md' = BlockMetadata md @ [\<lparr>BlockNumber = n, BmClientID = c,
      BmClientSequence = go_get 0 (ClientSequenceMap md) c + 1\<rparr>]"
    and "ClientSequenceMap md' =
      AList.update c (go_get 0 (ClientSequenceMap md) c + 1) (ClientSequenceMap md)"
  shows "sequences_ok md'"
proof -
  have "client_sequences md' e = client_sequences md e
      @ (if e = c then [go_get 0 (ClientSequenceMap md) c + 1] else [])" for e
    using assms(2) by (simp add: client_sequences_def)
  then show ?thesis using assms(1,3) by (auto simp: sequences_ok_def go_get_update)
qed

section \<open>The merge sort\<close>

definition block_key :: "BlockInfo \<Rightarrow> string \<times> int" where
  "block_key b = (ClientID b, ClientSequence b)"

lemma block_after_key: "block_after a b \<longleftrightarrow> block_key b < block_key a"
  by (auto simp: block_after_def block_key_def less_prod_def)

lemma exchange_props:
  assumes "i < j" and "j < length bs"
  shows "length (exchange i j bs) = length bs" and "mset (exchange i j bs) = mset bs"
    and "take i (exchange i j bs) = take i bs"
    and "block_key (exchange i j bs ! i) \<le> block_key (exchange i j bs ! j)"
    and "block_key (exchange i j bs ! i) \<le> block_key (bs ! i)"
    and "\<And>k. k \<noteq> i \<Longrightarrow> k \<noteq> j \<Longrightarrow> exchange i j bs ! k = bs ! k"
proof -
  show "mset (exchange i j bs) = mset bs" using assms by (simp add: exchange_def)
qed (use assms in \<open>auto simp: exchange_def block_after_key swap_cells_def\<close>)

lemma inner_loop:
  assumes "i < length bs" and "m \<le> length bs"
  shows "length (fold (exchange i) [i + 1..<m] bs) = length bs
    \<and> mset (fold (exchange i) [i + 1..<m] bs) = mset bs
    \<and> take i (fold (exchange i) [i + 1..<m] bs) = take i bs
    \<and> (\<forall>k. i < k \<and> k < m \<longrightarrow>
        block_key (fold (exchange i) [i + 1..<m] bs ! i) \<le> block_key (fold (exchange i) [i + 1..<m] bs ! k))"
  using assms
proof (induction m)
  case (Suc m)
  show ?case
  proof (cases "i < m")
    case False
    then have "[i + 1..<Suc m] = []" and "\<forall>k. \<not> (i < k \<and> k < Suc m)" by auto
    then show ?thesis by (simp only: fold_simps simp_thms)
  next
    case True
    let ?r = "fold (exchange i) [i + 1..<m] bs"
    have IH: "length ?r = length bs" "mset ?r = mset bs" "take i ?r = take i bs"
      "\<And>k. i < k \<Longrightarrow> k < m \<Longrightarrow> block_key (?r ! i) \<le> block_key (?r ! k)"
      using Suc.IH Suc.prems by auto
    have step: "fold (exchange i) [i + 1..<Suc m] bs = exchange i m ?r" using True by simp
    have m: "m < length ?r" using Suc.prems IH(1) by simp
    note e = exchange_props [OF True m]
    have "block_key (exchange i m ?r ! i) \<le> block_key (exchange i m ?r ! k)" if "i < k" "k < Suc m" for k
    proof (cases "k = m")
      case True
      then show ?thesis using e(4) by simp
    next
      case False
      then have "exchange i m ?r ! k = ?r ! k" using e(6) that by simp
      moreover have "block_key (?r ! i) \<le> block_key (?r ! k)" using IH(4) that False by simp
      ultimately show ?thesis using e(5) by simp
    qed
    then show ?thesis unfolding step using e(1-3) IH by simp
  qed
qed simp

lemma outer_loop:
  assumes "m \<le> length bs"
  shows "let r = fold (\<lambda>i. fold (exchange i) [i + 1..<length bs]) [0..<m] bs in
    length r = length bs \<and> mset r = mset bs \<and> sorted (map block_key (take m r))
    \<and> (\<forall>x \<in> set (take m r). \<forall>y \<in> set (drop m r). block_key x \<le> block_key y)"
  using assms
proof (induction m)
  case (Suc m)
  let ?r = "fold (\<lambda>i. fold (exchange i) [i + 1..<length bs]) [0..<m] bs"
  let ?s = "fold (exchange m) [m + 1..<length bs] ?r"
  have IH: "length ?r = length bs" "mset ?r = mset bs" "sorted (map block_key (take m ?r))"
    "\<forall>x \<in> set (take m ?r). \<forall>y \<in> set (drop m ?r). block_key x \<le> block_key y"
    using Suc by (auto simp: Let_def)
  have m: "m < length ?r" using Suc.prems IH(1) by simp
  have s: "length ?s = length bs" "mset ?s = mset bs" "take m ?s = take m ?r"
    "\<forall>k. m < k \<and> k < length bs \<longrightarrow> block_key (?s ! m) \<le> block_key (?s ! k)"
    using inner_loop [OF m, of "length bs"] IH by auto
  have "mset (take m ?s @ drop m ?s) = mset (take m ?r @ drop m ?r)" using s(2) IH(2) by simp
  then have "mset (drop m ?s) = mset (drop m ?r)" unfolding mset_append s(3) by simp
  then have dr: "set (drop m ?s) = set (drop m ?r)" by (rule mset_eq_setD)
  have d: "drop m ?s = ?s ! m # drop (Suc m) ?s" using m s(1) IH(1) by (simp add: Cons_nth_drop_Suc)
  have t: "take (Suc m) ?s = take m ?r @ [?s ! m]" using m s(1,3) IH(1) by (simp add: take_Suc_conv_app_nth)
  have le1: "\<forall>x \<in> set (take m ?r). \<forall>y \<in> set (?s ! m # drop (Suc m) ?s). block_key x \<le> block_key y"
    using IH(4) unfolding d [symmetric] dr .
  have le2: "\<forall>y \<in> set (drop (Suc m) ?s). block_key (?s ! m) \<le> block_key y"
    using s(1,4) by (auto simp: in_set_conv_nth)
  have "sorted (map block_key (take (Suc m) ?s))"
    using IH(3) le1 unfolding t by (simp add: sorted_append)
  moreover have "\<forall>x \<in> set (take (Suc m) ?s). \<forall>y \<in> set (drop (Suc m) ?s). block_key x \<le> block_key y"
    using le1 le2 unfolding t by simp
  ultimately show ?case using s(1,2) by (simp add: Let_def)
qed simp

lemma sort_blocks_sorts: "mset (sort_blocks bs) = mset bs" "sorted (map block_key (sort_blocks bs))"
  using outer_loop [of "length bs" bs] by (auto simp: sort_blocks_def Let_def)

lemma length_sort_blocks [simp]: "length (sort_blocks bs) = length bs"
  by (metis sort_blocks_sorts(1) size_mset)

lemma sort_blocks_unique:
  assumes "mset bs = mset cs" and "inj_on block_key (set bs)"
  shows "sort_blocks bs = sort_blocks cs"
proof -
  have "mset (map block_key (sort_blocks bs)) = mset (map block_key (sort_blocks cs))"
    using assms(1) by (simp add: sort_blocks_sorts mset_map)
  then have keys: "map block_key (sort_blocks bs) = map block_key (sort_blocks cs)"
    using sort_blocks_sorts(2) by (metis properties_for_sort)
  have "set (sort_blocks bs) = set bs" "set (sort_blocks cs) = set bs"
    using sort_blocks_sorts(1) assms(1) by (metis mset_eq_setD)+
  then show ?thesis using keys assms(2) by (metis map_inj_on Un_absorb)
qed

end
