(* ===== verification/Blockstore_Merge.thy ===== *)
theory Blockstore_Merge
  imports Blockstore_Log
begin

text \<open>
  The properties of the block store: creation, appending, merging, and what two files share
  when their names differ only in the extension.
\<close>

section \<open>Writing merged blocks\<close>

lemma write_file_True: "write_file r n c d = (True, d') \<Longrightarrow> d' = AList.update n c d"
  by (auto simp: write_file_def split: io.splits)

lemma write_blocks_result:
  assumes "write_blocks io i bs d = (Inr metas, d')"
  shows "length metas = length bs
    \<and> (\<forall>k < length bs. metas ! k = \<lparr>BlockNumber = i + k, BmClientID = ClientID (bs ! k),
         BmClientSequence = ClientSequence (bs ! k)\<rparr>
         \<and> read_block d' (i + k) = Some (Content (bs ! k)))
    \<and> (\<forall>j < i. read_block d' j = read_block d j) \<and> dir_metadata d' = dir_metadata d"
  using assms
proof (induction io i bs d arbitrary: metas d' rule: write_blocks.induct)
  case (1 io i d)
  then show ?case by simp
next
  case (2 io i b bs d)
  obtain ok d1 where w: "write_file (io (block_name i)) (block_name i) (Raw (Content b)) d = (ok, d1)"
    by force
  with 2(2) have ok by (simp split: if_splits)
  with w have d1: "d1 = AList.update (block_name i) (Raw (Content b)) d" by (simp add: write_file_True)
  obtain r d2 where rec: "write_blocks io (i + 1) bs d1 = (r, d2)" by force
  with 2(2) w \<open>ok\<close> obtain ms where r: "r = Inr ms" and d': "d' = d2"
    and metas: "metas = \<lparr>BlockNumber = i, BmClientID = ClientID b, BmClientSequence = ClientSequence b\<rparr> # ms"
    by (auto split: sum.splits)
  have "\<not> \<not> ok" using \<open>ok\<close> by simp
  note IH = 2(1) [OF w [symmetric] this rec [unfolded r]]
  have "read_block d' (i + k) = Some (Content ((b # bs) ! k)) \<and> metas ! k = \<lparr>BlockNumber = i + k,
      BmClientID = ClientID ((b # bs) ! k), BmClientSequence = ClientSequence ((b # bs) ! k)\<rparr>"
    if "k < length (b # bs)" for k
    using IH that d' d1 metas by (cases k) auto
  then show ?case using IH d' d1 metas by auto
qed

lemma MergeFile_merges:
  assumes "MergeFile io rm f bs fs = (Inr (), fs')"
  shows "file_ok fs' f \<and> map Content (file_log fs' f) = map Content (sort_blocks bs)
    \<and> map block_key (file_log fs' f) = map block_key (sort_blocks bs)"
proof -
  let ?s = "sort_blocks bs"
  obtain d md where d: "get_dir fs (getFileDir f) = Some d" "dir_metadata d = Some md"
    using assms by (auto simp: MergeFile_def Let_def split: option.splits)
  let ?d1 = "filter (\<lambda>(n, _). \<not> (prefix ''block_'' n \<and> rm n)) d"
  obtain r d2 where w: "write_blocks io 1 ?s ?d1 = (r, d2)" by force
  with assms d obtain metas where r: "r = Inr metas"
    by (auto simp: MergeFile_def Let_def split: sum.splits prod.splits)
  let ?md = "md\<lparr>TotalBlocks := length ?s, BlockMetadata := metas,
    ClientSequenceMap := rebuild_sequences ?s\<rparr>"
  have fs': "fs' = AList.update (getFileDir f) (Directory (AList.update metadata_name (Json ?md) d2)) fs"
    using assms d w r by (auto simp: MergeFile_def Let_def dest: write_file_True split: prod.splits if_splits)
  let ?d3 = "AList.update metadata_name (Json ?md) d2"
  note res = write_blocks_result [OF w [unfolded r]]
  have rd: "read_block ?d3 i = Some (Content (?s ! (i - 1)))" if "1 \<le> i" "i \<le> length ?s" for i
  proof -
    have "i - 1 < length ?s" using that by linarith
    then have "read_block d2 (1 + (i - 1)) = Some (Content (?s ! (i - 1)))" using res by blast
    then show ?thesis using that by simp
  qed
  have ok: "dir_ok ?d3 ?md" using res rd by (auto simp: dir_ok_def)
  have "dir_log ?d3 ?md ! k = (?s ! k)\<lparr>BiBlockNumber := k + 1\<rparr>" if "k < length ?s" for k
  proof -
    have "metas ! k = \<lparr>BlockNumber = 1 + k, BmClientID = ClientID (?s ! k),
        BmClientSequence = ClientSequence (?s ! k)\<rparr>" and "length metas = length ?s"
      using res that by blast+
    then show ?thesis using rd [of "Suc k"] that by (simp add: dir_log_def block_info_def del: upt_Suc)
  qed
  then have "dir_log ?d3 ?md = map (\<lambda>k. (?s ! k)\<lparr>BiBlockNumber := k + 1\<rparr>) [0..<length ?s]"
    by (intro nth_equalityI) simp_all
  moreover have "map Content (map (\<lambda>k. (?s ! k)\<lparr>BiBlockNumber := k + 1\<rparr>) [0..<length ?s]) = map Content ?s"
    "map block_key (map (\<lambda>k. (?s ! k)\<lparr>BiBlockNumber := k + 1\<rparr>) [0..<length ?s]) = map block_key ?s"
    by (intro nth_equalityI; simp add: block_key_def)+
  moreover have "get_dir fs' (getFileDir f) = Some ?d3" by (simp add: fs')
  ultimately show ?thesis
    using ok file_log_dir [OF _ ok, of fs' f] unfolding file_ok_def by metis
qed

lemma map_concat_Content: "map Content xs = map Content ys \<Longrightarrow> concat (map Content xs) = concat (map Content ys)"
  by simp

section \<open>Properties\<close>

text \<open>
  C21. Creation: a successful \<open>CreateFile\<close> makes a file that reads back as the given bytes,
  is a single block of the given client, and touches no other file; any failure of the
  directory, the block or the metadata leaves the store exactly as it was; and it fails
  when something of that name is there.
\<close>

theorem create_reads_back:
  assumes "CreateFile io mkdir f content fid prim c fs = (r, fs')"
  shows "case r of
      Inr _ \<Rightarrow> ReadFile f fs' = Inr content \<and> map ClientID (file_log fs' f) = [c]
        \<and> \<not> FileExists f fs \<and> FileExists f fs'
        \<and> (\<forall>g. getFileDir g \<noteq> getFileDir f \<longrightarrow> ReadFile g fs' = ReadFile g fs)
    | Inl err \<Rightarrow> fs' = fs \<and> (err = FileAlreadyExists \<longleftrightarrow> FileExists f fs)"
proof (cases r)
  case (Inl err)
  then show ?thesis using assms CreateFile_fails [of io mkdir f content fid prim c fs err fs']
    by (auto simp: CreateFile_def FileExists_def go_has_def Let_def split: if_splits prod.splits)
next
  case (Inr u)
  then have cr: "CreateFile io mkdir f content fid prim c fs = (Inr (), fs')" using assms by simp
  note res = CreateFile_creates [OF cr]
  obtain d where fs': "fs' = AList.update (getFileDir f) (Directory d) fs"
    using cr by (auto simp: CreateFile_def Let_def split: if_splits prod.splits)
  have "ReadFile g fs' = ReadFile g fs" if "getFileDir g \<noteq> getFileDir f" for g
    by (rule file_frame(3)) (use that in \<open>simp add: fs'\<close>)
  then show ?thesis
    using res ReadFile_log [of fs' f] Inr by (auto simp: FileExists_def go_has_def fs')
qed

theorem create_reads_back_witness:
  "ReadFile ''a.txt'' (snd (CreateFile (\<lambda>_. IoOk) True ''a.txt'' ''hello'' 1 2 ''c'' [])) = Inr ''hello''"
  using create_reads_back [of "\<lambda>_. IoOk" True "''a.txt''" "''hello''" 1 2 "''c''" "[]", OF prod.collapse [symmetric]]
  by (simp add: CreateFile_def split: sum.splits)

text \<open>
  C25. Appending is atomic as long as the metadata file is not torn: either the file gains
  exactly the new block, last and owned by its client, or, whatever was left of the block
  file, the file reads as before.
\<close>

theorem append_atomic:
  assumes "file_ok fs f" and "\<forall>b. io metadata_name \<noteq> IoTorn b"
    and "AppendFile io io0 mkdir f content c fs = (r, fs')"
  shows "file_ok fs' f \<and> (case r of
      Inr _ \<Rightarrow> (\<exists>old. ReadFile f fs = Inr old \<and> ReadFile f fs' = Inr (old @ content))
        \<and> map ClientID (file_log fs' f) = map ClientID (file_log fs f) @ [c]
    | Inl _ \<Rightarrow> ReadFile f fs' = ReadFile f fs)"
proof (cases r)
  case (Inl err)
  then show ?thesis
    using AppendFile_fails [of fs f io io0 mkdir content c err fs'] assms ReadFile_log by auto
next
  case (Inr u)
  then have "AppendFile io io0 mkdir f content c fs = (Inr (), fs')" using assms(3) by simp
  note res = AppendFile_appends [OF assms(1) this]
  then show ?thesis using ReadFile_log [OF assms(1)] ReadFile_log [of fs' f] Inr by simp
qed

definition sample_store :: fs where
  "sample_store = snd (CreateFile (\<lambda>_. IoOk) True ''a.txt'' ''hello'' 1 2 ''c'' [])"

lemma sample_store_ok: "file_ok sample_store ''a.txt''"
  using CreateFile_creates [of "\<lambda>_. IoOk" True "''a.txt''" "''hello''" 1 2 "''c''" "[]"]
  by (simp add: sample_store_def CreateFile_def)

theorem append_atomic_witness:
  "file_ok (snd (AppendFile (\<lambda>n. if n = block_name 2 then IoTorn ''x'' else IoOk) IoOk True
     ''a.txt'' ''more'' ''d'' sample_store)) ''a.txt''"
  by (rule append_atomic [OF sample_store_ok _ prod.collapse [symmetric], THEN conjunct1]) simp

text \<open>
  A metadata file torn by a failed write makes the whole file unreadable: the metadata
  is overwritten in place, so an append (of any content) that fails at that point loses
  access to everything that was stored.
\<close>

theorem torn_metadata_loses_file:
  assumes "file_ok fs f" and "\<And>i. io (block_name i) = IoOk" and "io metadata_name = IoTorn b"
  shows "fst (AppendFile io io0 mkdir f content c fs) = Inl WriteMetadataFailed
    \<and> ReadFile f (snd (AppendFile io io0 mkdir f content c fs)) = Inl ReadMetadataFailed
    \<and> GetAllBlocks f (snd (AppendFile io io0 mkdir f content c fs)) = Inl ReadMetadataFailed"
proof -
  obtain d md where d: "get_dir fs (getFileDir f) = Some d" "dir_metadata d = Some md"
    using assms(1) by (auto simp: file_ok_def dir_ok_def)
  have "append_block io content c d = (Inl WriteMetadataFailed,
      AList.update metadata_name (Raw b) (AList.update (block_name (TotalBlocks md + 1)) (Raw content) d))"
    using d(2) assms(2,3) by (simp add: append_block_def Let_def write_file_def)
  then show ?thesis
    by (simp add: AppendFile_existing [OF d(1)] ReadFile_def GetAllBlocks_def)
qed

theorem torn_metadata_loses_file_witness:
  "ReadFile ''a.txt'' (snd (AppendFile (\<lambda>n. if n = metadata_name then IoTorn [] else IoOk) IoOk True
     ''a.txt'' ''more'' ''d'' sample_store)) = Inl ReadMetadataFailed"
  by (rule torn_metadata_loses_file [OF sample_store_ok, THEN conjunct2, THEN conjunct1]) simp_all



text \<open>
  Appending numbers the blocks of every client 1, 2, 3, ... without gaps and keeps the
  sequence map equal to the last number: the invariant holds of an empty log and of a
  created one, and every successful append keeps it.
\<close>

theorem append_sequences:
  assumes "dir_ok d md" and "sequences_ok md" and "append_block io content c d = (Inr (), d')"
  shows "\<exists>md'. dir_ok d' md' \<and> sequences_ok md'
    \<and> client_sequences md' c = map (\<lambda>k. int k + 1) [0..<Suc (length (client_sequences md c))]
    \<and> (\<forall>e. e \<noteq> c \<longrightarrow> client_sequences md' e = client_sequences md e)"
proof -
  obtain md' where md': "dir_ok d' md'"
    "ClientSequenceMap md' = AList.update c (go_get 0 (ClientSequenceMap md) c + 1) (ClientSequenceMap md)"
    "BlockMetadata md' = BlockMetadata md @ [\<lparr>BlockNumber = TotalBlocks md + 1, BmClientID = c,
        BmClientSequence = go_get 0 (ClientSequenceMap md) c + 1\<rparr>]"
    using append_block_appends [OF assms(1,3)] by blast
  have ok: "sequences_ok md'" using sequences_ok_append [OF assms(2) md'(3,2)] .
  have len: "length (client_sequences md' c) = Suc (length (client_sequences md c))"
    and other: "\<forall>e. e \<noteq> c \<longrightarrow> client_sequences md' e = client_sequences md e"
    using md'(3) by (simp_all add: client_sequences_def)
  have "client_sequences md' c = map (\<lambda>k. int k + 1) [0..<length (client_sequences md' c)]"
    using ok unfolding sequences_ok_def by blast
  then show ?thesis using md'(1) ok other unfolding len by blast
qed

theorem append_sequences_witness:
  "\<exists>md'. dir_ok (snd (append_block (\<lambda>_. IoOk) ''x'' ''c'' (empty_dir ''f''))) md' \<and> sequences_ok md'"
proof -
  have "sequences_ok (empty_metadata ''f'')"
    by (simp add: sequences_ok_def client_sequences_def empty_metadata_def go_get_def)
  moreover have "append_block (\<lambda>_. IoOk) ''x'' ''c'' (empty_dir ''f'')
      = (Inr (), snd (append_block (\<lambda>_. IoOk) ''x'' ''c'' (empty_dir ''f'')))"
    using append_block_succeeds [of "empty_dir ''f''" _ "\<lambda>_. IoOk"] empty_dir_ok(1) [of "''f''"]
    by (simp add: dir_ok_def prod_eq_iff)
  ultimately show ?thesis using append_sequences [OF empty_dir_ok(1)] by blast
qed

text \<open>
  C5. Merging converges: the merged file is the sorted permutation of the given blocks by
  client and sequence number, so each client's blocks are in their order; and two replicas
  that merge the same blocks, received in any order and over whatever blocks they stored
  before, end with the same content, provided no two blocks have the same client and number.
\<close>

theorem merge_converges:
  assumes "mset bs1 = mset bs2" and "inj_on block_key (set bs1)"
    and "MergeFile io1 rm1 f bs1 fs1 = (Inr (), fs1')" and "MergeFile io2 rm2 f bs2 fs2 = (Inr (), fs2')"
  shows "ReadFile f fs1' = ReadFile f fs2'
    \<and> (\<exists>merged. mset merged = mset bs1 \<and> sorted (map block_key merged)
         \<and> ReadFile f fs1' = Inr (concat (map Content merged)))"
proof -
  note m1 = MergeFile_merges [OF assms(3)] and m2 = MergeFile_merges [OF assms(4)]
  have eq: "sort_blocks bs1 = sort_blocks bs2" using sort_blocks_unique [OF assms(1,2)] .
  have r1: "ReadFile f fs1' = Inr (concat (map Content (sort_blocks bs1)))"
    using m1 ReadFile_log [of fs1' f] by simp
  have "ReadFile f fs2' = Inr (concat (map Content (sort_blocks bs1)))"
    using m2 ReadFile_log [of fs2' f] by (simp add: eq)
  then show ?thesis using r1 sort_blocks_sorts [of bs1] by auto
qed

theorem merge_converges_witness:
  "ReadFile ''a.txt'' (snd (MergeFile (\<lambda>_. IoOk) (\<lambda>_. True) ''a.txt''
      [\<lparr>Content = ''x'', ClientID = ''d'', ClientSequence = 1, BiBlockNumber = 1\<rparr>,
       \<lparr>Content = ''y'', ClientID = ''c'', ClientSequence = 1, BiBlockNumber = 2\<rparr>] sample_store))
   = ReadFile ''a.txt'' (snd (MergeFile (\<lambda>_. IoOk) (\<lambda>_. False) ''a.txt''
      [\<lparr>Content = ''y'', ClientID = ''c'', ClientSequence = 1, BiBlockNumber = 2\<rparr>,
       \<lparr>Content = ''x'', ClientID = ''d'', ClientSequence = 1, BiBlockNumber = 1\<rparr>] sample_store))"
proof -
  obtain d md where d: "get_dir sample_store (getFileDir ''a.txt'') = Some d" "dir_ok d md"
    using sample_store_ok by (auto simp: file_ok_def)
  have w: "\<exists>ms d'. write_blocks (\<lambda>_. IoOk) i bs e = (Inr ms, d')" for i bs e
    by (induction bs arbitrary: i e) (auto, metis (no_types, lifting) old.prod.case sum.case(2))
  have ok: "MergeFile (\<lambda>_. IoOk) rm ''a.txt'' bs sample_store
      = (Inr (), snd (MergeFile (\<lambda>_. IoOk) rm ''a.txt'' bs sample_store))" for rm bs
    using d w [of 1 "sort_blocks bs" "filter (\<lambda>(n, _). \<not> (prefix ''block_'' n \<and> rm n)) d"]
    by (auto simp: MergeFile_def Let_def dir_ok_def)
  show ?thesis
    by (rule merge_converges [OF _ _ ok ok, THEN conjunct1]) (auto simp: block_key_def)
qed

text \<open>
  Merging orders by client name first, not by time: when a file created by client \<open>c\<close>
  was extended by a client \<open>a\<close> whose name is smaller, the merge moves the appended block
  before the content that the file was created with.
\<close>

theorem merge_reorders_append:
  assumes "a < c" and "n > 0"
    and "MergeFile io rm f [\<lparr>Content = created, ClientID = c, ClientSequence = 1, BiBlockNumber = 1\<rparr>,
        \<lparr>Content = appended, ClientID = a, ClientSequence = n, BiBlockNumber = 2\<rparr>] fs = (Inr (), fs')"
  shows "ReadFile f fs' = Inr (appended @ created)"
proof -
  let ?bs = "[\<lparr>Content = created, ClientID = c, ClientSequence = 1, BiBlockNumber = 1\<rparr>,
        \<lparr>Content = appended, ClientID = a, ClientSequence = n, BiBlockNumber = 2\<rparr>]"
  have "sort_blocks ?bs = [?bs ! 1, ?bs ! 0]"
    using assms(1) by (simp add: sort_blocks_def exchange_def block_after_def swap_cells_def upt_rec)
  then show ?thesis using MergeFile_merges [OF assms(3)] ReadFile_log [of fs' f] by simp
qed

theorem merge_reorders_append_witness:
  "ReadFile ''a.txt'' (snd (MergeFile (\<lambda>_. IoOk) (\<lambda>_. True) ''a.txt''
      [\<lparr>Content = ''old'', ClientID = ''node2'', ClientSequence = 1, BiBlockNumber = 1\<rparr>,
       \<lparr>Content = ''new'', ClientID = ''node1'', ClientSequence = 1, BiBlockNumber = 2\<rparr>] sample_store))
   = Inr ''newold''"
proof -
  let ?bs = "[\<lparr>Content = ''old'', ClientID = ''node2'', ClientSequence = 1, BiBlockNumber = 1\<rparr>,
       \<lparr>Content = ''new'', ClientID = ''node1'', ClientSequence = 1, BiBlockNumber = 2\<rparr>]"
  obtain d md where d: "get_dir sample_store (getFileDir ''a.txt'') = Some d" "dir_ok d md"
    using sample_store_ok by (auto simp: file_ok_def)
  have w: "\<exists>ms d'. write_blocks (\<lambda>_. IoOk) i bs e = (Inr ms, d')" for i bs e
    by (induction bs arbitrary: i e) (auto, metis (no_types, lifting) old.prod.case sum.case(2))
  have "MergeFile (\<lambda>_. IoOk) (\<lambda>_. True) ''a.txt'' ?bs sample_store
      = (Inr (), snd (MergeFile (\<lambda>_. IoOk) (\<lambda>_. True) ''a.txt'' ?bs sample_store))"
    using d w [of 1 "sort_blocks ?bs" "filter (\<lambda>(n, _). \<not> prefix ''block_'' n) d"]
    by (auto simp: MergeFile_def Let_def dir_ok_def)
  from merge_reorders_append [OF _ _ this] show ?thesis by (simp add: less_char_def)
qed

text \<open>
  Files whose names differ only in the extension share one directory: creating the
  second is refused, reading it returns the first one's content, and deleting it deletes
  the first.
\<close>

theorem extensions_collide:
  assumes "list_all (\<lambda>ch. ch \<noteq> CHR ''.'' \<and> ch \<noteq> CHR ''/'') (e1 @ e2)"
  shows "let f = base @ ''.'' @ e1; g = base @ ''.'' @ e2 in
    ReadFile g fs = ReadFile f fs \<and> FileExists g fs = FileExists f fs
    \<and> (FileExists f fs \<longrightarrow> fst (CreateFile io mkdir g content fid prim c fs) = Inl FileAlreadyExists)
    \<and> \<not> FileExists f (DeleteFile g fs)"
proof -
  have dir: "getFileDir (base @ ''.'' @ e) = base"
    if "list_all (\<lambda>ch. ch \<noteq> CHR ''.'' \<and> ch \<noteq> CHR ''/'') e" for e
  proof -
    have "takeWhile (\<lambda>ch. ch \<noteq> CHR ''.'' \<and> ch \<noteq> CHR ''/'') (rev (base @ ''.'' @ e)) = rev e"
      using that by (simp add: takeWhile_append list_all_iff)
    then have "file_ext (base @ ''.'' @ e) = ''.'' @ e"
      by (simp add: file_ext_def Let_def)
    then show ?thesis by (simp add: getFileDir_def trim_suffix_def suffix_def)
  qed
  have "getFileDir (base @ ''.'' @ e1) = base" "getFileDir (base @ ''.'' @ e2) = base"
    using assms by (simp_all only: list_all_append dir)
  then show ?thesis
    by (simp add: Let_def ReadFile_def FileExists_def CreateFile_def DeleteFile_def go_has_def)
qed

theorem extensions_collide_witness:
  "ReadFile ''a.csv'' sample_store = ReadFile ''a.txt'' sample_store"
  using extensions_collide [of "''txt''" "''csv''" "''a''" sample_store] by (simp add: Let_def)

end
