(* ===== verification/Hydfs_Node.thy ===== *)
theory Hydfs_Node
  imports Gossip_Loop Ring Blockstore_Merge
begin

text \<open>
  The node-to-node side of HyDFS (\<open>handleNodeConnection\<close>, \<open>forwardReplication\<close>,
  \<open>checkAndRereplicate\<close>, \<open>broadcastOperation\<close> in \<open>main.go\<close>): replication chains,
  acknowledgements, reads, appends, merges and re-replication.

  \<^item> A message is the decoded \<open>NodeMessage\<close>; timestamps are left out. Its \<open>Data\<close> went
    through JSON: strings are \<open>json_string\<close> of what was sent, numbers are float64, so a
    64-bit id arrives rounded (\<open>f64_round\<close>).
  \<^item> \<open>env\<close> is what the outside decides during one step: outcomes of file writes
    (\<open>EIo\<close>, \<open>EMkdir\<close>, \<open>EIo0\<close>), whether an address can be dialled (\<open>EUp\<close>), the reply to a
    request over a connection (\<open>EAsk\<close>), the clock, \<open>EOvf\<close>, what the platform makes of
    a float64 that does not fit in \<open>uint64\<close>, and \<open>EErrText\<close>, how it words an error.
  \<^item> A handler returns the new node, the messages sent to other nodes, and the reply on
    the connection, if any.
\<close>

section \<open>Messages\<close>

datatype jval = JNum nat | JStr string | JBool bool | JArr "jval list"

record NodeMessage =
  NmType :: string
  NmSender :: string
  NmOperation :: string
  NmFilename :: string
  NmData :: "(string, jval) gomap"
  NmNextReplica :: string
  NmAckTarget :: string
  NmIsLastInChain :: bool

definition node_message :: "string \<Rightarrow> string \<Rightarrow> string \<Rightarrow> string \<Rightarrow> (string, jval) gomap \<Rightarrow> NodeMessage" where
  "node_message ty sndr op fname data =
     \<lparr>NmType = ty, NmSender = sndr, NmOperation = op, NmFilename = fname, NmData = data,
      NmNextReplica = [], NmAckTarget = [], NmIsLastInChain = False\<rparr>"

text \<open>Rounding to the nearest float64 (53 significant bits, ties to even).\<close>

fun bit_length :: "nat \<Rightarrow> nat" where
  "bit_length n = (if n = 0 then 0 else Suc (bit_length (n div 2)))"

declare bit_length.simps [simp del]

definition f64_round :: "nat \<Rightarrow> nat" where
  "f64_round n =
     (if n < 2 ^ 53 then n
      else let s = bit_length n - 53; q = n div 2 ^ s; r = n mod 2 ^ s; half = 2 ^ (s - 1)
           in (if r > half \<or> r = half \<and> odd q then q + 1 else q) * 2 ^ s)"

definition float64_of :: "u64 \<Rightarrow> nat" where
  "float64_of w = f64_round (unat w)"

definition uint64_of :: "u64 \<Rightarrow> nat \<Rightarrow> u64" where
  "uint64_of ovf f = (if f < 2 ^ 64 then of_nat f else ovf)"

definition data_num :: "NodeMessage \<Rightarrow> string \<Rightarrow> nat option" where
  "data_num msg k = (case map_of (NmData msg) k of Some (JNum x) \<Rightarrow> Some x | _ \<Rightarrow> None)"

definition data_str :: "NodeMessage \<Rightarrow> string \<Rightarrow> string option" where
  "data_str msg k = (case map_of (NmData msg) k of Some (JStr s) \<Rightarrow> Some s | _ \<Rightarrow> None)"

definition data_arr :: "NodeMessage \<Rightarrow> string \<Rightarrow> jval list" where
  "data_arr msg k = (case map_of (NmData msg) k of Some (JArr xs) \<Rightarrow> xs | _ \<Rightarrow> [])"

section \<open>State\<close>

record StoredMeta =
  SmFilename :: string
  SmFileID :: u64
  SmVersion :: nat
  SmSize :: nat
  SmCreatedAt :: nat

record HydfsNode =
  HNode :: NodeState
  Store :: fs
  FileStore :: "(string, StoredMeta) gomap"
  PendingAcks :: "(string, string) gomap"

record env =
  EIo :: "string \<Rightarrow> io"
  EMkdir :: bool
  EIo0 :: io
  EUp :: "string \<Rightarrow> bool"
  EAsk :: "string \<Rightarrow> NodeMessage \<Rightarrow> NodeMessage option"
  EOvf :: u64
  ENow :: nat
  EErrText :: "store_error \<Rightarrow> string"

type_synonym outs = "(string \<times> NodeMessage) list"

definition node_info :: "HydfsNode \<Rightarrow> infomap" where
  "node_info n = GetInfoMap (NMembership (HNode n))"

definition address :: "Info \<Rightarrow> string" where
  "address info = Hostname info @ '':'' @ dec_int (Port info)"

definition self_info :: "HydfsNode \<Rightarrow> Info" where
  "self_info n = go_get zero_info (node_info n) (RingID (HNode n))"

definition is_alive :: "infomap \<Rightarrow> u64 \<Rightarrow> bool" where
  "is_alive im x = (case map_of im x of None \<Rightarrow> False | Some info \<Rightarrow> State info = Alive)"

definition send_if_up :: "env \<Rightarrow> string \<Rightarrow> NodeMessage \<Rightarrow> outs" where
  "send_if_up e addr msg = (if EUp e addr then [(addr, msg)] else [])"

definition store_create :: "env \<Rightarrow> string \<Rightarrow> bytes \<Rightarrow> u64 \<Rightarrow> u64 \<Rightarrow> string \<Rightarrow> fs \<Rightarrow> (store_error + unit) \<times> fs" where
  "store_create e = CreateFile (EIo e) (EMkdir e)"

definition store_append :: "env \<Rightarrow> string \<Rightarrow> bytes \<Rightarrow> string \<Rightarrow> fs \<Rightarrow> (store_error + unit) \<times> fs" where
  "store_append e = AppendFile (EIo e) (EIo0 e) (EMkdir e)"

section \<open>Replication chains\<close>

definition broadcastOperation ::
  "env \<Rightarrow> string \<Rightarrow> string \<Rightarrow> (string, jval) gomap \<Rightarrow> HydfsNode \<Rightarrow> outs" where
  "broadcastOperation e operation filename additionalData n =
     (let msg = node_message ''operation_log'' (Hostname (self_info n)) operation filename additionalData
      in concat (map (\<lambda>(x, info).
           if x = RingID (HNode n) \<or> State info \<noteq> Alive then [] else send_if_up e (address info) msg)
         (node_info n)))"

definition successors_strings :: "u64 list \<Rightarrow> jval" where
  "successors_strings xs = JArr (map (\<lambda>x. JStr (dec_u64 x)) xs)"

definition replicate_data ::
  "u64 \<Rightarrow> bytes \<Rightarrow> nat \<Rightarrow> string \<Rightarrow> u64 \<Rightarrow> u64 list \<Rightarrow> nat \<Rightarrow> (string, jval) gomap" where
  "replicate_data fileID content createdAt clientID primaryNodeID successors chainIndex =
     [(''file_id'', JNum (float64_of fileID)), (''content'', JStr (json_string content)),
      (''created_at'', JNum createdAt), (''client_id'', JStr (json_string clientID)),
      (''primary_id'', JNum (float64_of primaryNodeID)),
      (''successors'', successors_strings successors), (''chain_index'', JNum chainIndex)]"

definition forwardReplication ::
  "env \<Rightarrow> HydfsNode \<Rightarrow> string \<Rightarrow> bytes \<Rightarrow> u64 \<Rightarrow> u64 \<Rightarrow> string \<Rightarrow> u64 list \<Rightarrow> nat \<Rightarrow> infomap \<Rightarrow> outs" where
  "forwardReplication e n hydfsFile content fileID primaryNodeID clientID successors chainIndex infoMap =
     (if chainIndex \<ge> length successors then []
      else
        let currentNodeID = successors ! chainIndex in
        if \<not> is_alive infoMap currentNodeID then []
        else
          let isLast = (chainIndex = length successors - 1);
              nextReplica = (if \<not> isLast
                then address (go_get zero_info infoMap (successors ! (chainIndex + 1))) else []);
              ackTarget = (if chainIndex > 0
                then address (go_get zero_info infoMap (successors ! (chainIndex - 1)))
                else address (go_get zero_info infoMap (RingID (HNode n))));
              msg = (node_message ''replicate_file''
                       (Hostname (go_get zero_info infoMap (RingID (HNode n)))) ''create'' hydfsFile
                       (replicate_data fileID content (ENow e) clientID primaryNodeID successors chainIndex))
                     \<lparr>NmNextReplica := nextReplica, NmAckTarget := ackTarget, NmIsLastInChain := isLast\<rparr>
          in send_if_up e (address (go_get zero_info infoMap currentNodeID)) msg)"

text \<open>The ids of the chain travel as decimal strings; one that does not parse counts as 0.\<close>

definition parse_successor :: "jval \<Rightarrow> u64" where
  "parse_successor v =
     (case v of JStr s \<Rightarrow> (case parse_uint64 s of Some x \<Rightarrow> x | None \<Rightarrow> 0) | _ \<Rightarrow> 0)"

definition chain_forward :: "env \<Rightarrow> NodeMessage \<Rightarrow> HydfsNode \<Rightarrow> outs" where
  "chain_forward e msg n =
     (if NmNextReplica msg \<noteq> [] \<and> \<not> NmIsLastInChain msg \<and> length (split_on (CHR '':'') (NmNextReplica msg)) = 2
      then
        let chainIndex = (case data_num msg ''chain_index'' of None \<Rightarrow> 0 | Some k \<Rightarrow> k) + 1;
            successors = map parse_successor (data_arr msg ''successors'');
            isNextLast = (int chainIndex = int (length successors) - 1);
            nextNextReplica =
              (if chainIndex + 1 < length successors
               then (case map_of (node_info n) (successors ! (chainIndex + 1)) of
                       None \<Rightarrow> [] | Some info \<Rightarrow> address info)
               else []);
            forwardMsg = msg\<lparr>NmNextReplica := nextNextReplica, NmAckTarget := address (self_info n),
              NmIsLastInChain := isNextLast,
              NmData := AList.update ''chain_index'' (JNum chainIndex) (NmData msg)\<rparr>
        in send_if_up e (NmNextReplica msg) forwardMsg
      else [])"

definition ack_message :: "HydfsNode \<Rightarrow> string \<Rightarrow> NodeMessage" where
  "ack_message n filename =
     node_message ''replication_ack'' (Hostname (self_info n)) ''create'' filename [(''success'', JBool True)]"

definition on_replicate_file :: "env \<Rightarrow> NodeMessage \<Rightarrow> HydfsNode \<Rightarrow> HydfsNode \<times> outs" where
  "on_replicate_file e msg n =
     (case (data_num msg ''file_id'', data_str msg ''content'', data_num msg ''created_at'') of
        (Some fileIDFloat, Some content, Some createdAt) \<Rightarrow>
          let fileID = uint64_of (EOvf e) fileIDFloat;
              clientID = (case data_str msg ''client_id'' of None \<Rightarrow> [] | Some s \<Rightarrow> s);
              primaryNodeID =
                uint64_of (EOvf e) (case data_num msg ''primary_id'' of None \<Rightarrow> 0 | Some f \<Rightarrow> f)
          in (case store_create e (NmFilename msg) content fileID primaryNodeID clientID (Store n) of
                (Inl err, fs) \<Rightarrow> (n\<lparr>Store := fs\<rparr>, [])
              | (Inr _, fs) \<Rightarrow>
                  let n1 = n\<lparr>Store := fs,
                        FileStore := AList.update (NmFilename msg)
                          \<lparr>SmFilename = NmFilename msg, SmFileID = fileID, SmVersion = 1,
                           SmSize = length content, SmCreatedAt = createdAt\<rparr> (FileStore n)\<rparr>;
                      n2 = (if NmAckTarget msg \<noteq> [] \<and> \<not> NmIsLastInChain msg
                            then n1\<lparr>PendingAcks :=
                                   AList.update (NmFilename msg) (NmAckTarget msg) (PendingAcks n1)\<rparr>
                            else n1);
                      acks = (if NmIsLastInChain msg \<and> NmAckTarget msg \<noteq> []
                              then send_if_up e (NmAckTarget msg) (ack_message n2 (NmFilename msg)) else [])
                  in (n2, chain_forward e msg n2 @ acks))
      | _ \<Rightarrow> (n, []))"

definition on_replication_ack :: "env \<Rightarrow> NodeMessage \<Rightarrow> HydfsNode \<Rightarrow> HydfsNode \<times> outs" where
  "on_replication_ack e msg n =
     (case map_of (PendingAcks n) (NmFilename msg) of
        None \<Rightarrow> (n, [])
      | Some ackTarget \<Rightarrow>
          let n1 = n\<lparr>PendingAcks := AList.delete (NmFilename msg) (PendingAcks n)\<rparr>
          in (n1, if ackTarget \<noteq> [] then send_if_up e ackTarget (ack_message n1 (NmFilename msg)) else []))"

section \<open>Reading\<close>

definition get_error :: "env \<Rightarrow> HydfsNode \<Rightarrow> string \<Rightarrow> store_error \<Rightarrow> NodeMessage" where
  "get_error e n filename err =
     node_message ''error'' (Hostname (self_info n)) ''get'' filename
       [(''message'', JStr (''file not found: '' @ EErrText e err))]"

definition get_response :: "HydfsNode \<Rightarrow> string \<Rightarrow> bytes \<Rightarrow> NodeMessage" where
  "get_response n filename content =
     node_message ''get_file_response'' (Hostname (self_info n)) ''get'' filename
       [(''content'', JStr (json_string content))]"

definition file_replicas :: "HydfsNode \<Rightarrow> string \<Rightarrow> u64 list" where
  "file_replicas n filename = GetSuccessors (HashString filename) (node_info n) NumReplicas"

definition on_get_file :: "env \<Rightarrow> NodeMessage \<Rightarrow> HydfsNode \<Rightarrow> outs \<times> NodeMessage" where
  "on_get_file e msg n =
     (case ReadFile (NmFilename msg) (Store n) of
        Inr content \<Rightarrow> ([], get_response n (NmFilename msg) content)
      | Inl err \<Rightarrow>
          let replicas = file_replicas n (NmFilename msg);
              isPrimary = (replicas \<noteq> [] \<and> hd replicas = RingID (HNode n))
          in if \<not> isPrimary \<and> replicas \<noteq> [] \<and> is_alive (node_info n) (hd replicas)
             then
               let primary = address (go_get zero_info (node_info n) (hd replicas));
                   forwardMsg = node_message ''get_file'' (NmSender msg) ''get'' (NmFilename msg) []
               in case EAsk e primary forwardMsg of
                    Some resp \<Rightarrow> ([(primary, forwardMsg)], resp)
                  | None \<Rightarrow> ([], get_error e n (NmFilename msg) err)
             else ([], get_error e n (NmFilename msg) err))"

section \<open>Re-replication\<close>

definition on_rereplicate_file :: "env \<Rightarrow> NodeMessage \<Rightarrow> HydfsNode \<Rightarrow> HydfsNode" where
  "on_rereplicate_file e msg n =
     (case (data_str msg ''content'', data_num msg ''file_id'') of
        (Some content, Some fileIDFloat) \<Rightarrow>
          let fileID = uint64_of (EOvf e) fileIDFloat;
              clientID = Hostname (self_info n) @ '':rereplicate'';
              successors = GetSuccessors fileID (node_info n) NumReplicas;
              primaryNodeID = (if successors \<noteq> [] then hd successors else RingID (HNode n))
          in n\<lparr>Store := snd (store_create e (NmFilename msg) content fileID primaryNodeID clientID (Store n))\<rparr>
      | _ \<Rightarrow> n)"

definition rereplicate_entry :: "env \<Rightarrow> HydfsNode \<Rightarrow> string \<times> fsnode \<Rightarrow> outs" where
  "rereplicate_entry e n entry =
     (case snd entry of
        PlainFile _ \<Rightarrow> []
      | Directory d \<Rightarrow>
          (case dir_metadata d of
             None \<Rightarrow> []
           | Some metadata \<Rightarrow>
               let hydfsFile = HyDFSFilename metadata;
                   infoMap = node_info n;
                   expected = GetSuccessors (FileID metadata) infoMap NumReplicas
               in if expected = [] \<or> RingID (HNode n) \<notin> set expected \<or> hd expected \<noteq> RingID (HNode n)
                  then []
                  else case ReadFile hydfsFile (Store n) of
                    Inl err \<Rightarrow> []
                  | Inr content \<Rightarrow>
                      concat (map (\<lambda>target.
                        if \<not> is_alive infoMap target \<or> target = RingID (HNode n) then []
                        else send_if_up e (address (go_get zero_info infoMap target))
                          (node_message ''rereplicate_file'' (Hostname (self_info n)) ''rereplicate'' hydfsFile
                             [(''file_id'', JNum (float64_of (FileID metadata))),
                              (''content'', JStr (json_string content)), (''created_at'', JNum (ENow e))]))
                        expected)))"

definition checkAndRereplicate :: "env \<Rightarrow> HydfsNode \<Rightarrow> outs" where
  "checkAndRereplicate e n = concat (map (rereplicate_entry e n) (Store n))"

section \<open>Appending and merging\<close>

definition append_message :: "string \<Rightarrow> string \<Rightarrow> bytes \<Rightarrow> string \<Rightarrow> NodeMessage" where
  "append_message sndr filename content clientID =
     node_message ''append_file'' sndr ''append'' filename
       [(''file_id'', JNum (float64_of (HashString filename))), (''content'', JStr (json_string content)),
        (''client_id'', JStr (json_string clientID))]"

definition on_append_file :: "env \<Rightarrow> NodeMessage \<Rightarrow> HydfsNode \<Rightarrow> HydfsNode \<times> outs" where
  "on_append_file e msg n =
     (case (data_str msg ''content'', data_str msg ''client_id'') of
        (Some content, Some clientID) \<Rightarrow>
          let replicas = file_replicas n (NmFilename msg) in
          if replicas = [] then (n, [])
          else if RingID (HNode n) \<in> set replicas
          then (n\<lparr>Store := snd (store_append e (NmFilename msg) content clientID (Store n))\<rparr>, [])
          else if \<not> is_alive (node_info n) (hd replicas) then (n, [])
          else (n, send_if_up e (address (go_get zero_info (node_info n) (hd replicas)))
                    (append_message (NmSender msg) (NmFilename msg) content clientID))
      | _ \<Rightarrow> (n, []))"

text \<open>The block list in the reply to \<open>merge_collect\<close>: contents are base64, other strings JSON.\<close>

definition on_merge_collect :: "NodeMessage \<Rightarrow> HydfsNode \<Rightarrow> BlockInfo list" where
  "on_merge_collect msg n =
     (case GetAllBlocks (NmFilename msg) (Store n) of
        Inl err \<Rightarrow> []
      | Inr blocks \<Rightarrow> map (\<lambda>b. b\<lparr>ClientID := json_string (ClientID b)\<rparr>) blocks)"

datatype panic = IndexOutOfRange | InterfaceConversion

text \<open>\<open>successors[0]\<close> and the type assertion on \<open>file_id\<close> are unchecked: the node panics.\<close>

definition on_merge_update :: "env \<Rightarrow> NodeMessage \<Rightarrow> HydfsNode \<Rightarrow> panic option \<times> HydfsNode" where
  "on_merge_update e msg n =
     (case data_str msg ''content'' of
        None \<Rightarrow> (None, n)
      | Some content \<Rightarrow>
          let n1 = n\<lparr>Store := DeleteFile (NmFilename msg) (Store n)\<rparr> in
          case data_num msg ''file_id'' of
            None \<Rightarrow> (Some InterfaceConversion, n1)
          | Some fileIDFloat \<Rightarrow>
              let fileID = uint64_of (EOvf e) fileIDFloat;
                  successors = GetSuccessors fileID (node_info n) NumReplicas
              in case successors of
                   [] \<Rightarrow> (Some IndexOutOfRange, n1)
                 | primaryNodeID # _ \<Rightarrow>
                     (None, n1\<lparr>Store := snd (store_create e (NmFilename msg) content fileID
                        primaryNodeID ''merged_content'' (Store n1))\<rparr>))"

section \<open>Dispatch\<close>

datatype node_reply = NoReply | Reply NodeMessage | ReplyBlocks "BlockInfo list"
datatype node_effect = Done | Panicked panic | StartMerge string

definition handle_message :: "env \<Rightarrow> NodeMessage \<Rightarrow> HydfsNode \<Rightarrow> HydfsNode \<times> outs \<times> node_reply \<times> node_effect" where
  "handle_message e msg n =
     (if NmType msg = ''replicate_file'' then
        (case on_replicate_file e msg n of (n1, os) \<Rightarrow> (n1, os, NoReply, Done))
      else if NmType msg = ''replication_ack'' then
        (case on_replication_ack e msg n of (n1, os) \<Rightarrow> (n1, os, NoReply, Done))
      else if NmType msg = ''get_file'' then
        (case on_get_file e msg n of (os, r) \<Rightarrow> (n, os, Reply r, Done))
      else if NmType msg = ''rereplicate_file'' then (on_rereplicate_file e msg n, [], NoReply, Done)
      else if NmType msg = ''append_file'' then
        (case on_append_file e msg n of (n1, os) \<Rightarrow> (n1, os, NoReply, Done))
      else if NmType msg = ''merge_request'' then (n, [], NoReply, StartMerge (NmFilename msg))
      else if NmType msg = ''merge_collect'' then (n, [], ReplyBlocks (on_merge_collect msg n), Done)
      else if NmType msg = ''merge_update'' then
        (case on_merge_update e msg n of
           (None, n1) \<Rightarrow> (n1, [], NoReply, Done) | (Some p, n1) \<Rightarrow> (n1, [], NoReply, Panicked p))
      else (n, [], NoReply, Done))"

end
