(* ===== verification/Hydfs_Client.thy ===== *)
theory Hydfs_Client
  imports Hydfs_Node
begin

text \<open>
  The client side of HyDFS: the commands of the client port (\<open>handleClientConnection\<close> in
  \<open>main.go\<close>) and of the interactive prompt that change files (\<open>handleCLICreate\<close>,
  \<open>handleCLIAppend\<close>, \<open>handleCLIMerge\<close>).

  \<^item> \<open>local\<close> is the content of the local file, or \<open>None\<close> when it cannot be read.
  \<^item> A response of \<open>None\<close> means that nothing is written to the client.
  \<^item> In a merge, \<open>collect x\<close> is the reply of the replica \<open>x\<close> to \<open>merge_collect\<close> (\<open>None\<close> for a
    failure), and \<open>order\<close> the order in which the collecting goroutines take the mutex.
    The \<open>metadata\<close> field of \<open>merge_update\<close>, which no handler reads, is left out.
\<close>

datatype client_reply =
    ErrExists | ErrReadLocal | ErrNoNodes | ErrStore store_error | ErrConnect | OkCreated
  | OkCreatedOn nat | ErrPrimaryUnavailable | ErrResponse | ErrMessage string | ErrWriteLocal
  | Retrieved string bytes

section \<open>The client port\<close>

definition client_create ::
  "env \<Rightarrow> string \<Rightarrow> bytes option \<Rightarrow> string \<Rightarrow> HydfsNode \<Rightarrow> HydfsNode \<times> outs \<times> client_reply option" where
  "client_create e remote local hydfsFile n =
     (if go_has (FileStore n) hydfsFile then (n, [], Some ErrExists)
      else case local of
        None \<Rightarrow> (n, [], Some ErrReadLocal)
      | Some content \<Rightarrow>
          let fileID = HashString hydfsFile; infoMap = node_info n;
              successors = file_replicas n hydfsFile in
          if successors = [] then (n, [], Some ErrNoNodes)
          else
            let primaryNodeID = hd successors;
                clientID = Hostname (self_info n) @ '':'' @ remote;
                nextReplica = (if length successors > 1
                  then address (go_get zero_info infoMap (successors ! 1)) else [])
            in
            if RingID (HNode n) = primaryNodeID then
              (case store_create e hydfsFile content fileID primaryNodeID clientID (Store n) of
                 (Inl err, fs) \<Rightarrow> (n\<lparr>Store := fs\<rparr>, [], Some (ErrStore err))
               | (Inr _, fs) \<Rightarrow>
                   let n1 = n\<lparr>Store := fs, FileStore := AList.update hydfsFile
                         \<lparr>SmFilename = hydfsFile, SmFileID = fileID, SmVersion = 1,
                          SmSize = length content, SmCreatedAt = ENow e\<rparr> (FileStore n)\<rparr>
                   in if nextReplica \<noteq> []
                      then (n1, forwardReplication e n1 hydfsFile content fileID primaryNodeID clientID
                              successors 1 infoMap, None)
                      else (n1, [], Some OkCreated))
            else
              let primary = address (go_get zero_info infoMap primaryNodeID);
                  msg = (node_message ''replicate_file'' (Hostname (self_info n)) ''create'' hydfsFile
                           (replicate_data fileID content (ENow e) clientID primaryNodeID successors 0))
                         \<lparr>NmNextReplica := nextReplica, NmAckTarget := address (self_info n),
                          NmIsLastInChain := (length successors = 1)\<rparr>
              in if \<not> EUp e primary then (n, [], Some ErrConnect)
                 else (n, [(primary, msg)], Some (OkCreatedOn (length successors))))"

text \<open>
  \<open>client_get\<close> saves the content under \<open>local_path\<close>; \<open>wr\<close> tells whether the directory and the
  file there can be written.
\<close>

definition local_path :: "string \<Rightarrow> string" where
  "local_path localFile = (if prefix ''/'' localFile then localFile else ''hydfs_local/'' @ localFile)"

definition client_get ::
  "env \<Rightarrow> (string \<Rightarrow> bool) \<Rightarrow> string \<Rightarrow> string \<Rightarrow> HydfsNode \<Rightarrow> outs \<times> client_reply" where
  "client_get e wr hydfsFile localFile n =
     (let infoMap = node_info n; successors = file_replicas n hydfsFile in
      if successors = [] then ([], ErrNoNodes)
      else if \<not> is_alive infoMap (hd successors) then ([], ErrPrimaryUnavailable)
      else
        let primary = address (go_get zero_info infoMap (hd successors));
            msg = node_message ''get_file'' (Hostname (self_info n)) ''get'' hydfsFile
                    [(''localfile'', JStr (json_string localFile))]
        in case EAsk e primary msg of
             None \<Rightarrow> ([], ErrConnect)
           | Some response \<Rightarrow>
               ([(primary, msg)],
                if NmType response = ''get_file_response'' then
                  (case data_str response ''content'' of
                     None \<Rightarrow> ErrResponse
                   | Some content \<Rightarrow>
                       if wr (local_path localFile) then Retrieved (local_path localFile) content
                       else ErrWriteLocal)
                else if NmType response = ''error'' then
                  ErrMessage (case data_str response ''message'' of None \<Rightarrow> [] | Some s \<Rightarrow> s)
                else ErrResponse))"

section \<open>The prompt\<close>

text \<open>
  \<open>handleCLICreate\<close> stores through the plain file manager, \<open>io\<close> being the outcome of its
  write, and sends the other replicas a message without chain and client.
\<close>

definition handleCLICreate ::
  "env \<Rightarrow> io \<Rightarrow> bytes option \<Rightarrow> string \<Rightarrow> HydfsNode \<Rightarrow> HydfsNode \<times> outs \<times> string list" where
  "handleCLICreate e io local hydfsFile n =
     (if go_has (FileStore n) hydfsFile then (n, [], [])
      else case local of
        None \<Rightarrow> (n, [], [])
      | Some content \<Rightarrow>
          let fileID = HashString hydfsFile; infoMap = node_info n;
              successors = file_replicas n hydfsFile;
              isReplica = (RingID (HNode n) \<in> set successors);
              msg = node_message ''replicate_file'' (Hostname (self_info n)) ''create'' hydfsFile
                      [(''file_id'', JNum (float64_of fileID)), (''content'', JStr (json_string content)),
                       (''created_at'', JNum (ENow e))];
              others = filter (\<lambda>x. x \<noteq> RingID (HNode n) \<and> is_alive infoMap x) successors;
              addr = (\<lambda>x. address (go_get zero_info infoMap x))
          in if successors = [] then (n, [], [])
             else if isReplica then
               (case Manager_WriteFile io hydfsFile content (Store n) of
                  (Inl err, fs) \<Rightarrow> (n\<lparr>Store := fs\<rparr>, [], [])
                | (Inr _, fs) \<Rightarrow>
                    (n\<lparr>Store := fs, FileStore := AList.update hydfsFile
                         \<lparr>SmFilename = hydfsFile, SmFileID = fileID, SmVersion = 1,
                          SmSize = length content, SmCreatedAt = ENow e\<rparr> (FileStore n)\<rparr>,
                     concat (map (\<lambda>x. send_if_up e (addr x) msg) others),
                     address (self_info n) # map addr others))
             else (n, concat (map (\<lambda>x. send_if_up e (addr x) msg) others), map addr others))"

text \<open>\<open>stamp\<close> is the \<open>UnixNano\<close> in the client id; the count is the number of transmissions.\<close>

definition handleCLIAppend ::
  "env \<Rightarrow> nat \<Rightarrow> bytes option \<Rightarrow> string \<Rightarrow> HydfsNode \<Rightarrow> outs \<times> nat" where
  "handleCLIAppend e stamp local hydfsFile n =
     (case local of
        None \<Rightarrow> ([], 0)
      | Some content \<Rightarrow>
          let infoMap = node_info n; expected = file_replicas n hydfsFile;
              clientID = Hostname (self_info n) @ ''_'' @ dec stamp;
              msg = append_message (Hostname (self_info n)) hydfsFile content clientID;
              sent = concat (map (\<lambda>x. if is_alive infoMap x
                then send_if_up e (address (go_get zero_info infoMap x)) msg else []) expected)
          in (sent, length sent))"

definition merge_key :: "BlockInfo \<Rightarrow> string" where
  "merge_key b = ClientID b @ '':'' @ dec_int (ClientSequence b)"

definition collect_blocks :: "BlockInfo list list \<Rightarrow> (string, BlockInfo) gomap" where
  "collect_blocks arrivals =
     fold (\<lambda>blocks m. fold (\<lambda>b m. AList.update (merge_key b) b m) blocks m) arrivals []"

datatype merge_result =
    MergeNoReplicas | MergePrimaryUnavailable | MergeFailed store_error | Merged nat | MergeRequested | MergeUnreachable

definition merge_update_message :: "string \<Rightarrow> string \<Rightarrow> bytes \<Rightarrow> NodeMessage" where
  "merge_update_message sndr hydfsFile content =
     node_message ''merge_update'' sndr ''merge'' hydfsFile
       [(''content'', JStr (json_string content)), (''file_id'', JNum (float64_of (HashString hydfsFile)))]"

definition merge_arrivals ::
  "(u64 \<Rightarrow> BlockInfo list option) \<Rightarrow> u64 list \<Rightarrow> string \<Rightarrow> HydfsNode \<Rightarrow> BlockInfo list list" where
  "merge_arrivals collect order hydfsFile n =
     concat (map (\<lambda>x.
       if x = RingID (HNode n)
       then (case GetAllBlocks hydfsFile (Store n) of Inl err \<Rightarrow> [] | Inr blocks \<Rightarrow> [blocks])
       else (case collect x of None \<Rightarrow> [] | Some blocks \<Rightarrow> [blocks])) order)"

text \<open>The merged file goes to every replica that is alive, the node itself included.\<close>

definition merge_redistribute :: "env \<Rightarrow> infomap \<Rightarrow> NodeMessage \<Rightarrow> u64 list \<Rightarrow> outs" where
  "merge_redistribute e infoMap msg successors =
     concat (map (\<lambda>x. if is_alive infoMap x
       then send_if_up e (address (go_get zero_info infoMap x)) msg else []) successors)"

definition merge_request_message :: "string \<Rightarrow> HydfsNode \<Rightarrow> NodeMessage" where
  "merge_request_message hydfsFile n =
     node_message ''merge_request'' (Hostname (self_info n)) ''merge'' hydfsFile
       [(''file_id'', JNum (float64_of (HashString hydfsFile)))]"

definition handleCLIMerge ::
  "env \<Rightarrow> (string \<Rightarrow> bool) \<Rightarrow> (u64 \<Rightarrow> BlockInfo list option) \<Rightarrow> u64 list \<Rightarrow> string \<Rightarrow> HydfsNode \<Rightarrow>
   HydfsNode \<times> outs \<times> merge_result" where
  "handleCLIMerge e rm collect order hydfsFile n =
     (let infoMap = node_info n; successors = file_replicas n hydfsFile in
      if successors = [] then (n, [], MergeNoReplicas)
      else if \<not> is_alive infoMap (hd successors) then (n, [], MergePrimaryUnavailable)
      else
        let primaryInfo = go_get zero_info infoMap (hd successors) in
        if hd successors = RingID (HNode n) then
          let blockSlice = map snd (collect_blocks (merge_arrivals collect order hydfsFile n)) in
          (case MergeFile (EIo e) rm hydfsFile blockSlice (Store n) of
             (Inl err, fs) \<Rightarrow> (n\<lparr>Store := fs\<rparr>, [], MergeFailed err)
           | (Inr _, fs) \<Rightarrow>
               let n1 = n\<lparr>Store := fs\<rparr> in
               (case (ReadFile hydfsFile fs, GetMetadata hydfsFile fs) of
                  (Inl err, _) \<Rightarrow> (n1, [], MergeFailed err)
                | (Inr content, None) \<Rightarrow> (n1, [], MergeFailed ReadMetadataFailed)
                | (Inr content, Some metadata) \<Rightarrow>
                    let msg = merge_update_message (Hostname primaryInfo) hydfsFile content;
                        sent = merge_redistribute e infoMap msg successors
                    in (n1, sent, Merged (length sent))))
        else
          if EUp e (address primaryInfo)
          then (n, [(address primaryInfo, merge_request_message hydfsFile n)], MergeRequested)
          else (n, [], MergeUnreachable))"

section \<open>Listing\<close>

definition ls_replicas :: "string \<Rightarrow> HydfsNode \<Rightarrow> (string \<times> u64 \<times> bool) list" where
  "ls_replicas hydfsFile n =
     (let successors = file_replicas n hydfsFile in
      map (\<lambda>(i, x). (Hostname (go_get zero_info (node_info n) x), x, i = 0))
        (zip [0..<length successors] successors))"

definition stored_files :: "fs \<Rightarrow> (string, u64) gomap" where
  "stored_files fs =
     fold (\<lambda>(name, node) m.
       case node of
         PlainFile _ \<Rightarrow> m
       | Directory d \<Rightarrow>
           (case dir_metadata d of
              None \<Rightarrow> m | Some md \<Rightarrow> AList.update (HyDFSFilename md) (FileID md) m)) fs []"

definition liststore :: "HydfsNode \<Rightarrow> (string \<times> u64) list" where
  "liststore n =
     (let files = stored_files (Store n) in
      map (\<lambda>f. (f, go_get 0 files f)) (sort (go_keys files)))"

definition list_mem_ids :: "HydfsNode \<Rightarrow> (string \<times> int \<times> u64) list" where
  "list_mem_ids n =
     map (\<lambda>(x, info). (Hostname info, Port info, x))
       (sort_key fst (filter (\<lambda>(x, info). State info = Alive) (node_info n)))"

section \<open>The merge key identifies a block\<close>

lemma dec_int_no_colon: "CHR '':'' \<notin> set (dec_int i)"
proof -
  have "CHR '':'' \<notin> set (dec n)" for n
    using dec_digits [of "CHR '':''" n] by (auto simp: is_digit_def)
  then show ?thesis by (simp add: dec_int_def)
qed

lemma append_cut_inject:
  "x \<notin> set b \<Longrightarrow> x \<notin> set d \<Longrightarrow> a @ x # b = c @ x # d \<longleftrightarrow> a = c \<and> b = d"
proof -
  assume x: "x \<notin> set b" "x \<notin> set d"
  have "takeWhile (\<lambda>y. y \<noteq> x) (rev (a @ x # b)) = rev b" and "takeWhile (\<lambda>y. y \<noteq> x) (rev (c @ x # d)) = rev d"
    using x by (auto simp: takeWhile_append)
  then have "a @ x # b = c @ x # d \<Longrightarrow> b = d" by (metis rev_rev_ident)
  then show ?thesis by auto
qed

lemma merge_key_inject: "merge_key a = merge_key b \<longleftrightarrow> block_key a = block_key b"
  using append_cut_inject [OF dec_int_no_colon dec_int_no_colon]
  by (auto simp: merge_key_def block_key_def)

definition block_map_ok :: "(string, BlockInfo) gomap \<Rightarrow> bool" where
  "block_map_ok m = (go_map m \<and> (\<forall>(k, b) \<in> set m. k = merge_key b))"

lemma block_map_ok_update: "block_map_ok m \<Longrightarrow> block_map_ok (AList.update (merge_key b) b m)"
proof -
  assume ok: "block_map_ok m"
  have "set (AList.update k v m) \<subseteq> insert (k, v) (set m)" for k and v :: BlockInfo
    by (induction m) auto
  then show ?thesis using ok by (fastforce simp: block_map_ok_def)
qed

lemma collect_blocks_ok: "block_map_ok (collect_blocks arrivals)"
  unfolding collect_blocks_def
  by (intro fold_invariant_mem [where P = block_map_ok] block_map_ok_update) (simp add: block_map_ok_def)

lemma block_map_keys: "block_map_ok m \<Longrightarrow> distinct (map block_key (map snd m))"
proof (induction m)
  case (Cons e m)
  obtain k b where e: "e = (k, b)" by force
  have tl: "block_map_ok m" and k: "k = merge_key b" and new: "merge_key b \<notin> set (map fst m)"
    using Cons.prems by (auto simp: block_map_ok_def e)
  have "block_key b \<notin> set (map block_key (map snd m))"
  proof
    assume "block_key b \<in> set (map block_key (map snd m))"
    then obtain k' b' where b': "(k', b') \<in> set m" "block_key b' = block_key b" by auto
    then have "k' = merge_key b" using tl merge_key_inject by (fastforce simp: block_map_ok_def)
    then show False using new b'(1) by force
  qed
  then show ?case using Cons.IH [OF tl] by (simp add: e)
qed simp

lemma collect_lookup:
  "map_of (fold (\<lambda>b m. AList.update (merge_key b) b m) bs m) k =
     (case find (\<lambda>b. merge_key b = k) (rev bs) of Some b \<Rightarrow> Some b | None \<Rightarrow> map_of m k)"
proof (induction bs arbitrary: m)
  case (Cons b bs)
  have "find P (xs @ [y]) = (case find P xs of Some x \<Rightarrow> Some x | None \<Rightarrow> if P y then Some y else None)"
    for P and xs and y :: BlockInfo
    by (induction xs) auto
  then show ?case using Cons by (auto split: option.splits)
qed simp

lemma find_SomeD: "find P xs = Some x \<Longrightarrow> x \<in> set xs \<and> P x"
  by (induction xs) (auto split: if_splits)

lemma collect_blocks_flat:
  "collect_blocks arrivals = fold (\<lambda>b m. AList.update (merge_key b) b m) (concat arrivals) []"
proof -
  have "fold (\<lambda>blocks m. fold (\<lambda>b m. AList.update (merge_key b) b m) blocks m) xss m
      = fold (\<lambda>b m. AList.update (merge_key b) b m) (concat xss) m" for xss m
    by (induction xss arbitrary: m) auto
  then show ?thesis by (simp add: collect_blocks_def)
qed

lemma collect_blocks_set:
  assumes "inj_on block_key (set (concat arrivals))"
  shows "set (map snd (collect_blocks arrivals)) = set (concat arrivals)"
proof -
  let ?bs = "concat arrivals"
  have look: "map_of (collect_blocks arrivals) (merge_key b) = Some b" if "b \<in> set ?bs" for b
  proof -
    have "find (\<lambda>c. merge_key c = merge_key b) (rev ?bs) \<noteq> None" using that by (auto simp: find_None_iff)
    then obtain c where c: "find (\<lambda>c. merge_key c = merge_key b) (rev ?bs) = Some c" by blast
    have "c \<in> set ?bs" and "merge_key c = merge_key b" using find_SomeD [OF c] by simp_all
    then have "c = b" using that unfolding merge_key_inject by (intro inj_onD [OF assms])
    then show ?thesis using c by (simp add: collect_blocks_flat collect_lookup)
  qed
  have sub: "b \<in> set ?bs" if "(k, b) \<in> set (collect_blocks arrivals)" for k b
  proof -
    have "go_map (collect_blocks arrivals)" using collect_blocks_ok by (simp add: block_map_ok_def)
    then have "map_of (collect_blocks arrivals) k = Some b" using that by simp
    then have "find (\<lambda>c. merge_key c = k) (rev ?bs) = Some b"
      by (simp add: collect_blocks_flat collect_lookup split: option.splits)
    then show ?thesis using find_SomeD by fastforce
  qed
  show ?thesis
  proof
    show "set (map snd (collect_blocks arrivals)) \<subseteq> set ?bs" using sub by auto
    show "set ?bs \<subseteq> set (map snd (collect_blocks arrivals))"
    proof
      fix b assume "b \<in> set ?bs"
      then have "(merge_key b, b) \<in> set (collect_blocks arrivals)" by (rule map_of_SomeD [OF look])
      then have "snd (merge_key b, b) \<in> snd ` set (collect_blocks arrivals)" by (rule imageI)
      then show "b \<in> set (map snd (collect_blocks arrivals))" by simp
    qed
  qed
qed

end
