(* ===== verification/Hydfs_Props.thy ===== *)
theory Hydfs_Props
  imports Hydfs_Client
begin

text \<open>
  What HyDFS does across nodes: a replication chain run to its end, a merge seen by every
  replica, and the places where copies, ids or stores drift apart.

  \<^item> \<open>deliver\<close> runs a network of nodes: it hands the oldest message in flight to the node at
    its address, until nothing is in flight or the fuel is used up, and records what it
    delivered. A chain of three replicas needs six deliveries.
\<close>

section \<open>A network of nodes\<close>

type_synonym net = "string \<Rightarrow> HydfsNode"

fun deliver :: "env \<Rightarrow> nat \<Rightarrow> outs \<Rightarrow> net \<Rightarrow> (string \<times> string) list \<times> outs \<times> net" where
  "deliver e 0 q net = ([], q, net)"
| "deliver e (Suc k) [] net = ([], [], net)"
| "deliver e (Suc k) ((a, msg) # q) net =
     (case handle_message e msg (net a) of (n1, os, _, _) \<Rightarrow>
        case deliver e k (q @ os) (net(a := n1)) of (tr, q1, net1) \<Rightarrow> ((a, NmType msg) # tr, q1, net1))"

definition healthy :: "env \<Rightarrow> bool" where
  "healthy e = ((\<forall>f. EIo e f = IoOk) \<and> EMkdir e \<and> EIo0 e = IoOk \<and> (\<forall>a. EUp e a))"

lemma healthyD: "healthy e \<Longrightarrow> EIo e f = IoOk" "healthy e \<Longrightarrow> EMkdir e" "healthy e \<Longrightarrow> EUp e a"
  by (simp_all add: healthy_def)

lemma send_healthy [simp]: "healthy e \<Longrightarrow> send_if_up e a msg = [(a, msg)]"
  by (simp add: send_if_up_def healthyD)

lemma HNode_same:
  assumes "HNode n = HNode m"
  shows "node_info n = node_info m" and "self_info n = self_info m"
    and "chain_forward e msg n = chain_forward e msg m" and "ack_message n f = ack_message m f"
    and "file_replicas n f = file_replicas m f"
proof -
  show a: "node_info n = node_info m" and b: "self_info n = self_info m"
    using assms by (simp_all add: node_info_def self_info_def)
  show "chain_forward e msg n = chain_forward e msg m" by (simp only: chain_forward_def a b)
  show "ack_message n f = ack_message m f" by (simp only: ack_message_def b)
  show "file_replicas n f = file_replicas m f" by (simp only: file_replicas_def a)
qed

lemma store_create_healthy:
  assumes "healthy e" and "map_of fs (getFileDir f) = None"
  shows "\<exists>fs'. store_create e f c fid pid cid fs = (Inr (), fs') \<and> ReadFile f fs' = Inr c
    \<and> (\<forall>g. getFileDir g \<noteq> getFileDir f \<longrightarrow> map_of fs' (getFileDir g) = map_of fs (getFileDir g))"
proof -
  obtain d where cr: "store_create e f c fid pid cid fs = (Inr (), AList.update (getFileDir f) (Directory d) fs)"
    using assms by (simp add: store_create_def CreateFile_def healthyD Let_def)
  then show ?thesis
    using create_content [OF cr [unfolded store_create_def]] by auto
qed

section \<open>The replication chain\<close>

definition chain_msg ::
  "string \<Rightarrow> string \<Rightarrow> u64 \<Rightarrow> bytes \<Rightarrow> nat \<Rightarrow> string \<Rightarrow> u64 \<Rightarrow> u64 list \<Rightarrow> string \<Rightarrow> string \<Rightarrow> bool \<Rightarrow> nat \<Rightarrow> NodeMessage" where
  "chain_msg sndr f fid content t cid pid succs nxt ack lst k =
     (node_message ''replicate_file'' sndr ''create'' f
        (replicate_data fid content t cid pid succs k))
     \<lparr>NmNextReplica := nxt, NmAckTarget := ack, NmIsLastInChain := lst\<rparr>"

lemma chain_msg_simps [simp]:
  "NmType (chain_msg sndr f fid content t cid pid succs nxt ack lst k) = ''replicate_file''"
  "NmFilename (chain_msg sndr f fid content t cid pid succs nxt ack lst k) = f"
  "NmNextReplica (chain_msg sndr f fid content t cid pid succs nxt ack lst k) = nxt"
  "NmAckTarget (chain_msg sndr f fid content t cid pid succs nxt ack lst k) = ack"
  "NmIsLastInChain (chain_msg sndr f fid content t cid pid succs nxt ack lst k) = lst"
  "data_num (chain_msg sndr f fid content t cid pid succs nxt ack lst k) ''file_id'' = Some (float64_of fid)"
  "data_num (chain_msg sndr f fid content t cid pid succs nxt ack lst k) ''created_at'' = Some t"
  "data_num (chain_msg sndr f fid content t cid pid succs nxt ack lst k) ''primary_id'' = Some (float64_of pid)"
  "data_num (chain_msg sndr f fid content t cid pid succs nxt ack lst k) ''chain_index'' = Some k"
  "data_str (chain_msg sndr f fid content t cid pid succs nxt ack lst k) ''content'' = Some (json_string content)"
  "data_str (chain_msg sndr f fid content t cid pid succs nxt ack lst k) ''client_id'' = Some (json_string cid)"
  "map parse_successor (data_arr (chain_msg sndr f fid content t cid pid succs nxt ack lst k) ''successors'') = succs"
  by (simp_all add: chain_msg_def node_message_def replicate_data_def data_num_def data_str_def
      data_arr_def successors_strings_def parse_successor_def comp_def)

lemma chain_msg_next:
  "(chain_msg sndr f fid content t cid pid succs nxt ack lst k)
     \<lparr>NmNextReplica := nxt', NmAckTarget := ack', NmIsLastInChain := lst',
      NmData := AList.update ''chain_index'' (JNum k')
        (NmData (chain_msg sndr f fid content t cid pid succs nxt ack lst k))\<rparr>
   = chain_msg sndr f fid content t cid pid succs nxt' ack' lst' k'"
  by (simp add: chain_msg_def node_message_def replicate_data_def)

text \<open>A replica handles a chain message: it stores the file, notes whom to acknowledge to,
  and forwards or acknowledges.\<close>

lemma replicate_step:
  assumes "healthy e" and "map_of (Store n) (getFileDir f) = None" and "ack \<noteq> []"
  shows "\<exists>n'. on_replicate_file e (chain_msg sndr f fid content t cid pid succs nxt ack lst k) n =
      (n', chain_forward e (chain_msg sndr f fid content t cid pid succs nxt ack lst k) n
           @ (if lst then [(ack, ack_message n f)] else []))
    \<and> ReadFile f (Store n') = Inr (json_string content) \<and> HNode n' = HNode n
    \<and> PendingAcks n' = (if lst then PendingAcks n else AList.update f ack (PendingAcks n))"
proof -
  let ?m = "chain_msg sndr f fid content t cid pid succs nxt ack lst k"
  obtain fs' where fs': "store_create e f (json_string content) (uint64_of (EOvf e) (float64_of fid))
      (uint64_of (EOvf e) (float64_of pid)) (json_string cid) (Store n) = (Inr (), fs')"
    "ReadFile f fs' = Inr (json_string content)"
    using store_create_healthy [OF assms(1,2)] by blast
  let ?n1 = "n\<lparr>Store := fs', FileStore := AList.update f \<lparr>SmFilename = f,
      SmFileID = uint64_of (EOvf e) (float64_of fid), SmVersion = 1,
      SmSize = length (json_string content), SmCreatedAt = t\<rparr> (FileStore n)\<rparr>"
  let ?n2 = "if lst then ?n1 else ?n1\<lparr>PendingAcks := AList.update f ack (PendingAcks n)\<rparr>"
  have same: "HNode ?n2 = HNode n" by simp
  have "on_replicate_file e ?m n =
      (?n2, chain_forward e ?m ?n2 @ (if lst then [(ack, ack_message ?n2 f)] else []))"
    using fs' assms(1,3) by (cases lst) (simp_all add: on_replicate_file_def Let_def)
  then have "on_replicate_file e ?m n =
      (?n2, chain_forward e ?m n @ (if lst then [(ack, ack_message n f)] else []))"
    by (simp only: HNode_same [OF same])
  then show ?thesis using fs'(2) by (intro exI [of _ ?n2]) simp
qed

lemma chain_forward_step:
  assumes "healthy e" and "length (split_on (CHR '':'') nxt) = 2" and "nxt \<noteq> []" and "k + 1 < length succs"
    and "\<forall>j. k + 1 < j \<and> j < length succs \<longrightarrow>
          (\<exists>info. map_of (node_info n) (succs ! j) = Some info \<and> address info = addr j)"
  shows "chain_forward e (chain_msg sndr f fid content t cid pid succs nxt ack False k) n =
    [(nxt, chain_msg sndr f fid content t cid pid succs
        (if k + 2 < length succs then addr (k + 2) else []) (address (self_info n))
        (k + 2 = length succs) (k + 1))]"
proof -
  have "(int (k + 1) = int (length succs) - 1) = (k + 2 = length succs)" using assms(4) by linarith
  moreover have "k + 2 < length succs \<Longrightarrow>
      \<exists>info. map_of (node_info n) (succs ! (k + 2)) = Some info \<and> address info = addr (k + 2)"
    using assms(5) by simp
  ultimately show ?thesis
    using assms(1-4) chain_msg_next [where lst = False]
    by (auto simp: chain_forward_def Let_def)
qed

lemma deliver_replicate:
  assumes "on_replicate_file e msg (net a) = (n', os)" and "NmType msg = ''replicate_file''"
  shows "deliver e (Suc k) ((a, msg) # q) net =
    (case deliver e k (q @ os) (net(a := n')) of (tr, q1, net1) \<Rightarrow> ((a, ''replicate_file'') # tr, q1, net1))"
  using assms by (simp add: handle_message_def)

lemma deliver_ack:
  assumes "NmType msg = ''replication_ack''"
  shows "deliver e (Suc k) ((a, msg) # q) net =
    (case on_replication_ack e msg (net a) of (n', os) \<Rightarrow>
      case deliver e k (q @ os) (net(a := n')) of (tr, q1, net1) \<Rightarrow> ((a, ''replication_ack'') # tr, q1, net1))"
  using assms by (simp add: handle_message_def split: prod.splits)

lemma ack_step:
  assumes "healthy e" and "map_of (PendingAcks n) f = Some t" and "t \<noteq> []"
  shows "on_replication_ack e (ack_message m f) n =
    (n\<lparr>PendingAcks := AList.delete f (PendingAcks n)\<rparr>, [(t, ack_message n f)])"
proof -
  have "HNode (n\<lparr>PendingAcks := x\<rparr>) = HNode n" for x by simp
  then have "ack_message (n\<lparr>PendingAcks := x\<rparr>) f = ack_message n f" for x by (rule HNode_same(4))
  moreover have "NmFilename (ack_message m f) = f" by (simp add: ack_message_def node_message_def)
  ultimately show ?thesis using assms by (simp add: on_replication_ack_def)
qed

text \<open>Three replicas that know each other's addresses and do not have the file yet.\<close>

definition chain_ready :: "string \<Rightarrow> u64 list \<Rightarrow> string list \<Rightarrow> net \<Rightarrow> bool" where
  "chain_ready f xs as net =
     (length xs = 3 \<and> length as = 3 \<and> distinct as
      \<and> (\<forall>a \<in> set as. a \<noteq> [] \<and> length (split_on (CHR '':'') a) = 2
           \<and> map_of (Store (net a)) (getFileDir f) = None \<and> address (self_info (net a)) = a
           \<and> (\<forall>j < 3. \<exists>info. map_of (node_info (net a)) (xs ! j) = Some info \<and> address info = as ! j)))"

lemma chain_ready_forward:
  assumes "chain_ready f xs as net" and "healthy e" and "i < 2"
  shows "chain_forward e (chain_msg sndr f fid content t cid pid xs (as ! (i + 1)) ack False i) (net (as ! i)) =
    [(as ! (i + 1), chain_msg sndr f fid content t cid pid xs
        (if i = 0 then as ! 2 else []) (as ! i) (i = 1) (i + 1))]"
proof -
  have i: "as ! i \<in> set as" "as ! (i + 1) \<in> set as" "i < 3"
    using assms(1,3) by (auto simp: chain_ready_def)
  have len: "length xs = 3" and "\<forall>j < 3. \<exists>info. map_of (node_info (net (as ! i))) (xs ! j) = Some info
      \<and> address info = as ! j"
    and self: "address (self_info (net (as ! i))) = as ! i"
    and nxt: "as ! (i + 1) \<noteq> []" "length (split_on (CHR '':'') (as ! (i + 1))) = 2"
    using assms(1) i unfolding chain_ready_def by blast+
  then have "\<forall>j. i + 1 < j \<and> j < length xs \<longrightarrow>
      (\<exists>info. map_of (node_info (net (as ! i))) (xs ! j) = Some info \<and> address info = as ! j)"
    by simp
  note step = chain_forward_step [OF assms(2) nxt(2,1) _ this, of sndr f fid content t cid pid ack]
  have i01: "i = 0 \<or> i = 1" using assms(3) by linarith
  have lt: "i + 1 < length xs" using len assms(3) by linarith
  have c1: "(i + 2 < length xs) = (i = 0)" and c2: "(i + 2 = length xs) = (i = 1)"
    using len i01 by auto
  have c4: "(if i = 0 then as ! (i + 2) else []) = (if i = 0 then as ! 2 else [])"
    by (simp add: numeral_2_eq_2)
  show ?thesis unfolding step [OF lt] self c1 c2 c4 ..
qed

lemma chain_of_three:
  assumes "healthy e" and "chain_ready f xs [a0, a1, a2] net" and "ac \<notin> {a0, a1, a2}" and "ac \<noteq> []"
    and "map_of (PendingAcks (net ac)) f = None"
  shows "\<exists>net'. deliver e 6 [(a0, chain_msg sndr f fid content t cid pid xs a1 ac False 0)] net =
      ([(a0, ''replicate_file''), (a1, ''replicate_file''), (a2, ''replicate_file''),
        (a1, ''replication_ack''), (a0, ''replication_ack''), (ac, ''replication_ack'')], [], net')
    \<and> (\<forall>a \<in> {a0, a1, a2}. ReadFile f (Store (net' a)) = Inr (json_string content)
         \<and> (map_of (PendingAcks (net' a)) f = None \<or> a = a2 \<and> PendingAcks (net' a) = PendingAcks (net a)))
    \<and> (\<forall>a. a \<notin> {a0, a1, a2} \<longrightarrow> net' a = net a)"
proof -
  let ?as = "[a0, a1, a2]"
  let ?m0 = "chain_msg sndr f fid content t cid pid xs a1 ac False 0"
  let ?m1 = "chain_msg sndr f fid content t cid pid xs a2 a0 False 1"
  let ?m2 = "chain_msg sndr f fid content t cid pid xs [] a1 True 2"
  have d: "distinct ?as" and new: "\<And>a. a \<in> set ?as \<Longrightarrow> a \<noteq> [] \<and> map_of (Store (net a)) (getFileDir f) = None"
    using assms(2) unfolding chain_ready_def by blast+
  have f0: "chain_forward e ?m0 (net a0) = [(a1, ?m1)]" and f1: "chain_forward e ?m1 (net a1) = [(a2, ?m2)]"
    using chain_ready_forward [OF assms(2,1), where i = 0 and sndr = sndr and fid = fid
        and content = content and t = t and cid = cid and pid = pid and ack = ac]
      chain_ready_forward [OF assms(2,1), where i = 1 and sndr = sndr and fid = fid
        and content = content and t = t and cid = cid and pid = pid and ack = a0]
    by (simp_all add: numeral_2_eq_2)
  have f2: "chain_forward e ?m2 n = []" for n by (simp add: chain_forward_def)
  obtain n0 where n0: "on_replicate_file e ?m0 (net a0) = (n0, [(a1, ?m1)])"
    "ReadFile f (Store n0) = Inr (json_string content)" "PendingAcks n0 = AList.update f ac (PendingAcks (net a0))"
  proof -
    have "map_of (Store (net a0)) (getFileDir f) = None" using new by simp
    from replicate_step [OF assms(1) this assms(4), where sndr = sndr and fid = fid and content = content and t = t
      and cid = cid and pid = pid and succs = xs and nxt = a1 and lst = False and k = 0]
    show ?thesis using f0 that by auto
  qed
  obtain n1 where n1: "on_replicate_file e ?m1 (net a1) = (n1, [(a2, ?m2)])"
    "ReadFile f (Store n1) = Inr (json_string content)" "PendingAcks n1 = AList.update f a0 (PendingAcks (net a1))"
  proof -
    have "map_of (Store (net a1)) (getFileDir f) = None" and "a0 \<noteq> []" using new by simp_all
    from replicate_step [OF assms(1) this, where sndr = sndr and fid = fid and content = content and t = t
      and cid = cid and pid = pid and succs = xs and nxt = a2 and lst = False and k = 1]
    show ?thesis using f1 that by auto
  qed
  obtain n2 where n2: "on_replicate_file e ?m2 (net a2) = (n2, [(a1, ack_message (net a2) f)])"
    "ReadFile f (Store n2) = Inr (json_string content)" "PendingAcks n2 = PendingAcks (net a2)"
  proof -
    have "map_of (Store (net a2)) (getFileDir f) = None" and "a1 \<noteq> []" using new by simp_all
    from replicate_step [OF assms(1) this, where sndr = sndr and fid = fid and content = content and t = t
      and cid = cid and pid = pid and succs = xs and nxt = "[]" and lst = True and k = 2]
    show ?thesis using f2 that by auto
  qed
  let ?n1' = "n1\<lparr>PendingAcks := AList.delete f (PendingAcks n1)\<rparr>"
  let ?n0' = "n0\<lparr>PendingAcks := AList.delete f (PendingAcks n0)\<rparr>"
  have ack1: "on_replication_ack e (ack_message m f) n1 = (?n1', [(a0, ack_message n1 f)])" for m
    using ack_step [OF assms(1), of n1 f a0] n1(3) new [of a0] by simp
  have ack0: "on_replication_ack e (ack_message m f) n0 = (?n0', [(ac, ack_message n0 f)])" for m
    using ack_step [OF assms(1), of n0 f ac] n0(3) assms(4) by simp
  have ackc: "on_replication_ack e (ack_message m f) (net ac) = (net ac, [])" for m
    using assms(5) by (simp add: on_replication_ack_def ack_message_def node_message_def)
  have ty: "NmType (ack_message m f) = ''replication_ack''" for m
    by (simp add: ack_message_def node_message_def)
  let ?net' = "net(a0 := ?n0', a1 := ?n1', a2 := n2)"
  have six: "6 = Suc (Suc (Suc (Suc (Suc (Suc 0)))))" by simp
  have ne: "a0 \<noteq> a1" "a0 \<noteq> a2" "a1 \<noteq> a2" "a1 \<noteq> a0" "a2 \<noteq> a0" "a2 \<noteq> a1" "ac \<noteq> a0" "ac \<noteq> a1" "ac \<noteq> a2"
    using d assms(3) by auto
  have s1: "deliver e (Suc k) [(a0, ?m0)] net = (case deliver e k [(a1, ?m1)] (net(a0 := n0)) of
      (tr, q, w) \<Rightarrow> ((a0, ''replicate_file'') # tr, q, w))" for k
    using deliver_replicate [of e ?m0 net a0 n0 "[(a1, ?m1)]" k "[]"] n0(1) by simp
  have s2: "deliver e (Suc k) [(a1, ?m1)] (net(a0 := n0)) =
      (case deliver e k [(a2, ?m2)] (net(a0 := n0, a1 := n1)) of
      (tr, q, w) \<Rightarrow> ((a1, ''replicate_file'') # tr, q, w))" for k
    using deliver_replicate [of e ?m1 "net(a0 := n0)" a1 n1 "[(a2, ?m2)]" k "[]"] n1(1) ne by simp
  have s3: "deliver e (Suc k) [(a2, ?m2)] (net(a0 := n0, a1 := n1)) =
      (case deliver e k [(a1, ack_message (net a2) f)] (net(a0 := n0, a1 := n1, a2 := n2)) of
      (tr, q, w) \<Rightarrow> ((a2, ''replicate_file'') # tr, q, w))" for k
    using deliver_replicate [of e ?m2 "net(a0 := n0, a1 := n1)" a2 n2 "[(a1, ack_message (net a2) f)]" k "[]"]
      n2(1) ne by simp
  have upd: "net(a0 := n0, a1 := n1, a2 := n2, a1 := ?n1') = net(a0 := n0, a1 := ?n1', a2 := n2)"
    "net(a0 := n0, a1 := ?n1', a2 := n2, a0 := ?n0') = ?net'" "?net'(ac := net ac) = ?net'"
    using ne by (auto simp: fun_eq_iff)
  have s4: "deliver e (Suc k) [(a1, ack_message m f)] (net(a0 := n0, a1 := n1, a2 := n2)) =
      (case deliver e k [(a0, ack_message n1 f)] (net(a0 := n0, a1 := ?n1', a2 := n2)) of
      (tr, q, w) \<Rightarrow> ((a1, ''replication_ack'') # tr, q, w))" for k m
    using deliver_ack [OF ty, of e k a1 m "[]" "net(a0 := n0, a1 := n1, a2 := n2)"] ack1 [of m] ne upd(1)
    by simp
  have s5: "deliver e (Suc k) [(a0, ack_message m f)] (net(a0 := n0, a1 := ?n1', a2 := n2)) =
      (case deliver e k [(ac, ack_message n0 f)] ?net' of
      (tr, q, w) \<Rightarrow> ((a0, ''replication_ack'') # tr, q, w))" for k m
    using deliver_ack [OF ty, of e k a0 m "[]" "net(a0 := n0, a1 := ?n1', a2 := n2)"] ack0 [of m] ne upd(2)
    by simp
  have s6: "deliver e (Suc k) [(ac, ack_message m f)] ?net' =
      (case deliver e k [] ?net' of (tr, q, w) \<Rightarrow> ((ac, ''replication_ack'') # tr, q, w))" for k m
    using deliver_ack [OF ty, of e k ac m "[]" ?net'] ackc [of m] ne upd(3)
    by (simp add: fun_upd_triv)
  have "deliver e 6 [(a0, ?m0)] net = ([(a0, ''replicate_file''), (a1, ''replicate_file''),
      (a2, ''replicate_file''), (a1, ''replication_ack''), (a0, ''replication_ack''),
      (ac, ''replication_ack'')], [], ?net')"
    unfolding six s1 s2 s3 s4 s5 s6 by simp
  moreover have "\<forall>a \<in> {a0, a1, a2}. ReadFile f (Store (?net' a)) = Inr (json_string content)
         \<and> (map_of (PendingAcks (?net' a)) f = None \<or> a = a2 \<and> PendingAcks (?net' a) = PendingAcks (net a))"
    using n0(2) n1(2) n2(2,3) ne by simp
  ultimately show ?thesis by (intro exI [of _ ?net'] conjI) auto
qed

lemma address_nonempty [simp]: "address info \<noteq> []"
  by (simp add: address_def)

lemma hd_alive:
  assumes "file_replicas n f = x # xs"
  shows "is_alive (node_info n) x"
proof -
  have "x \<in> set (alive_ids (node_info n))"
    using assms alive_ring.place_subset [of "HashString f" "node_info n" NumReplicas]
    by (auto simp: file_replicas_def)
  moreover have "go_map (GetInfoMap m)" for m
  proof -
    have "go_map (fold (\<lambda>(mid, info) copy. AList.update mid info copy) es acc)"
      if "go_map acc" for es and acc :: infomap
      using that by (induction es arbitrary: acc) auto
    then show ?thesis by (simp add: GetInfoMap_def)
  qed
  then have "go_map (node_info n)" by (simp add: node_info_def)
  ultimately show ?thesis using set_alive_ids by (auto simp: is_alive_def)
qed

lemma client_create_chain:
  assumes "healthy e" and "chain_ready f [x0, x1, x2] [a0, a1, a2] net" and "ac \<notin> {a0, a1, a2}"
    and "ac = address (self_info (net ac))" and "file_replicas (net ac) f = [x0, x1, x2]"
    and "RingID (HNode (net ac)) \<noteq> x0" and "map_of (FileStore (net ac)) f = None"
    and "map_of (PendingAcks (net ac)) f = None"
    and "\<forall>(x, a) \<in> {(x0, a0), (x1, a1)}. \<exists>info. map_of (node_info (net ac)) x = Some info \<and> address info = a"
  shows "\<exists>outs net'. client_create e remote (Some content) f (net ac) = (net ac, outs, Some (OkCreatedOn 3))
    \<and> deliver e 6 outs net =
      ([(a0, ''replicate_file''), (a1, ''replicate_file''), (a2, ''replicate_file''),
        (a1, ''replication_ack''), (a0, ''replication_ack''), (ac, ''replication_ack'')], [], net')
    \<and> (\<forall>a \<in> {a0, a1, a2}. ReadFile f (Store (net' a)) = Inr (json_string content))"
proof -
  let ?m = "chain_msg (Hostname (self_info (net ac))) f (HashString f) content (ENow e)
    (Hostname (self_info (net ac)) @ '':'' @ remote) x0 [x0, x1, x2] a1 ac False 0"
  have addr: "address (go_get zero_info (node_info (net ac)) x0) = a0"
    "address (go_get zero_info (node_info (net ac)) x1) = a1"
    using assms(9) by (auto simp: go_get_def)
  have cr: "client_create e remote (Some content) f (net ac) = (net ac, [(a0, ?m)], Some (OkCreatedOn 3))"
  proof -
    have new: "\<not> go_has (FileStore (net ac)) f" using assms(7) by (simp add: go_has_def)
    have up: "EUp e a0" using assms(1) by (rule healthyD)
    have nxt: "length [x0, x1, x2] > 1" "hd [x0, x1, x2] = x0" "[x0, x1, x2] ! 1 = x1"
      "[x0, x1, x2] \<noteq> []" "length [x0, x1, x2] = 3" "(1 < (3 :: nat)) = True"
      "(3 = (1 :: nat)) = False" by simp_all
    show ?thesis
      unfolding client_create_def Let_def option.case assms(5) nxt addr assms(4) [symmetric] chain_msg_def
      by (simp only: new up nxt if_False if_True assms(6) not_False_eq_True simp_thms)
  qed
  have "ac \<noteq> []" using assms(4) by (metis address_nonempty)
  from chain_of_three [OF assms(1,2,3) this assms(8)]
  obtain net' where net': "deliver e 6 [(a0, ?m)] net =
      ([(a0, ''replicate_file''), (a1, ''replicate_file''), (a2, ''replicate_file''),
        (a1, ''replication_ack''), (a0, ''replication_ack''), (ac, ''replication_ack'')], [], net')"
    and r: "\<forall>a \<in> {a0, a1, a2}. ReadFile f (Store (net' a)) = Inr (json_string content)"
    by meson
  show ?thesis using cr net' r by (intro exI conjI)
qed


definition sample_nodes :: infomap where
  "sample_nodes = [(1, sample_info 1 Alive 0 0), (2, sample_info 2 Alive 0 0),
     (3, sample_info 3 Alive 0 0), (9, sample_info 9 Suspected 0 0)]"

definition sample_hydfs :: "u64 \<Rightarrow> HydfsNode" where
  "sample_hydfs x = \<lparr>HNode = \<lparr>RingID = x, IsActive = True,
     NMembership = \<lparr>Members = [], InfoMap = sample_nodes, roundRobinIndex = 0\<rparr>\<rparr>,
     Store = [], FileStore = [], PendingAcks = []\<rparr>"

definition sample_env :: env where
  "sample_env = \<lparr>EIo = \<lambda>_. IoOk, EMkdir = True, EIo0 = IoOk, EUp = \<lambda>_. True, EAsk = \<lambda>_ _. None,
     EOvf = 0, ENow = 0, EErrText = \<lambda>_. ''missing''\<rparr>"

lemma sample_env_healthy: "healthy sample_env"
  by (simp add: healthy_def sample_env_def)

definition sample_address :: "u64 \<Rightarrow> string" where
  "sample_address x = address (go_get zero_info sample_nodes x)"

definition sample_net :: net where
  "sample_net a = sample_hydfs (if a = sample_address 1 then 1 else if a = sample_address 2 then 2
     else if a = sample_address 3 then 3 else 9)"

lemma sample_hydfs_info [simp]:
  "node_info (sample_hydfs x) = sample_nodes" "RingID (HNode (sample_hydfs x)) = x"
  "Store (sample_hydfs x) = []" "FileStore (sample_hydfs x) = []" "PendingAcks (sample_hydfs x) = []"
  "self_info (sample_hydfs x) = go_get zero_info sample_nodes x"
  by (simp_all add: sample_hydfs_def node_info_def self_info_def GetInfoMap_id sample_nodes_def)

lemma sample_address_distinct:
  "x \<in> {1, 2, 3, 9} \<Longrightarrow> y \<in> {1, 2, 3, 9} \<Longrightarrow> sample_address x = sample_address y \<longleftrightarrow> x = y"
  by (auto simp: sample_address_def sample_nodes_def go_get_def address_def)

lemma sample_replicas:
  "set (file_replicas (sample_hydfs x) f) = {1, 2, 3}" "length (file_replicas (sample_hydfs x) f) = 3"
  "distinct (file_replicas (sample_hydfs x) f)"
proof -
  have ids: "alive_ids sample_nodes = [1, 2, 3]" by (simp add: alive_ids_def sample_nodes_def)
  then have r: "file_replicas (sample_hydfs x) f = ring_order (HashString f) [1, 2, 3]"
    by (simp add: file_replicas_def GetSuccessors_ring_order NumReplicas_def)
  show "set (file_replicas (sample_hydfs x) f) = {1, 2, 3}" "length (file_replicas (sample_hydfs x) f) = 3"
    "distinct (file_replicas (sample_hydfs x) f)"
    by (simp_all add: r)
qed

lemma sample_net_at: "x \<in> {1, 2, 3, 9} \<Longrightarrow> sample_net (sample_address x) = sample_hydfs x"
  by (auto simp: sample_net_def sample_address_distinct)

lemma sample_address_ok: "x \<in> {1, 2, 3, 9} \<Longrightarrow>
    sample_address x \<noteq> [] \<and> length (split_on (CHR '':'') (sample_address x)) = 2"
proof -
  have "CHR '':'' \<notin> set (''node'' @ dec k)" for k
    using dec_digits [of "CHR '':''" k] by (auto simp: is_digit_def)
  then have "length (split_on (CHR '':'') ((''node'' @ dec k) @ CHR '':'' # dec_int 8000)) = 2" for k
    using split_on_append split_on_no_sep [OF dec_int_no_colon] by (metis length_Cons list.size(3) numeral_2_eq_2)
  then show "x \<in> {1, 2, 3, 9} \<Longrightarrow> ?thesis"
    by (auto simp: sample_address_def sample_nodes_def go_get_def address_def)
qed

text \<open>Node 9 creates a file on the replicas 1, 2 and 3, whatever order the ring puts them in.\<close>

lemma sample_chain:
  assumes "file_replicas (sample_hydfs 9) f = [x0, x1, x2]"
  shows "chain_ready f [x0, x1, x2] [sample_address x0, sample_address x1, sample_address x2] sample_net"
    and "sample_address 9 \<notin> {sample_address x0, sample_address x1, sample_address x2}"
    and "sample_address 9 = address (self_info (sample_net (sample_address 9)))"
    and "file_replicas (sample_net (sample_address 9)) f = [x0, x1, x2]"
    and "RingID (HNode (sample_net (sample_address 9))) \<noteq> x0"
    and "map_of (FileStore (sample_net (sample_address 9))) f = None"
    and "map_of (PendingAcks (sample_net (sample_address 9))) f = None"
    and "\<forall>(x, a) \<in> {(x0, sample_address x0), (x1, sample_address x1)}.
        \<exists>info. map_of (node_info (sample_net (sample_address 9))) x = Some info \<and> address info = a"
    and "x0 \<in> {1, 2, 3}"
proof -
  have mem: "{x0, x1, x2} = {1, 2, 3}" and d: "distinct [x0, x1, x2]"
    using sample_replicas(1,3) [of 9 f] assms by auto
  then have in4: "x0 \<in> {1, 2, 3, 9}" "x1 \<in> {1, 2, 3, 9}" "x2 \<in> {1, 2, 3, 9}" and n9: "9 \<notin> {x0, x1, x2}"
    by auto
  show "x0 \<in> {1, 2, 3}" using mem by blast
  have nine: "sample_net (sample_address 9) = sample_hydfs 9" by (rule sample_net_at) simp
  have look: "\<exists>info. map_of sample_nodes x = Some info \<and> address info = sample_address x"
    if "x \<in> {1, 2, 3, 9}" for x
    using that by (auto simp: sample_nodes_def sample_address_def go_get_def)
  let ?as = "[sample_address x0, sample_address x1, sample_address x2]"
  have "\<forall>j < 3. \<exists>info. map_of sample_nodes ([x0, x1, x2] ! j) = Some info \<and> address info = ?as ! j"
    using look [OF in4(1)] look [OF in4(2)] look [OF in4(3)]
    by (auto simp: less_Suc_eq numeral_3_eq_3)
  then show "chain_ready f [x0, x1, x2] ?as sample_net"
    using d in4 sample_address_ok sample_net_at
    by (simp add: chain_ready_def sample_address_distinct) (simp add: sample_address_def)
  show "sample_address 9 \<notin> {sample_address x0, sample_address x1, sample_address x2}"
    using n9 in4 by (auto simp: sample_address_distinct)
  show "sample_address 9 = address (self_info (sample_net (sample_address 9)))"
    unfolding nine by (simp add: sample_address_def)
  show "\<forall>(x, a) \<in> {(x0, sample_address x0), (x1, sample_address x1)}.
      \<exists>info. map_of (node_info (sample_net (sample_address 9))) x = Some info \<and> address info = a"
    unfolding nine using look in4 by simp
  show "file_replicas (sample_net (sample_address 9)) f = [x0, x1, x2]"
    "RingID (HNode (sample_net (sample_address 9))) \<noteq> x0"
    "map_of (FileStore (sample_net (sample_address 9))) f = None"
    "map_of (PendingAcks (sample_net (sample_address 9))) f = None"
    using assms n9 by (auto simp: nine)
qed

lemma sample_three_replicas:
  obtains x0 x1 x2 where "file_replicas (sample_hydfs 9) f = [x0, x1, x2]"
  using sample_replicas(2) [of 9 f] by (auto simp: numeral_3_eq_3 length_Suc_conv)


text \<open>
  A client whose node is itself the primary of the new file never gets an answer when
  there is a second replica: the node stores the file and starts the chain, but nothing is
  written back on the connection.
\<close>

theorem create_at_primary_unanswered:
  assumes "healthy e" and "file_replicas n f = p # q # rest" and "RingID (HNode n) = p"
    and "map_of (FileStore n) f = None" and "map_of (Store n) (getFileDir f) = None"
  shows "\<exists>n' outs. client_create e remote (Some content) f n = (n', outs, None)
    \<and> ReadFile f (Store n') = Inr content"
proof -
  obtain fs' where fs': "store_create e f content (HashString f) p
      (Hostname (self_info n) @ '':'' @ remote) (Store n) = (Inr (), fs')" "ReadFile f fs' = Inr content"
    using store_create_healthy [OF assms(1,5)] by blast
  have "\<not> go_has (FileStore n) f" using assms(4) by (simp add: go_has_def)
  then show ?thesis using assms(2,3) fs' by (simp add: client_create_def Let_def)
qed

theorem create_at_primary_unanswered_witness:
  "\<exists>x n' outs. client_create sample_env ''r'' (Some ''hi'') ''f.txt'' (sample_hydfs x) = (n', outs, None)"
proof -
  obtain p q r where xs: "file_replicas (sample_hydfs 1) ''f.txt'' = [p, q, r]"
    using sample_replicas(2) [of 1 "''f.txt''"] by (auto simp: numeral_3_eq_3 length_Suc_conv)
  have "file_replicas (sample_hydfs p) ''f.txt'' = file_replicas (sample_hydfs 1) ''f.txt''"
    by (simp add: file_replicas_def)
  then have "file_replicas (sample_hydfs p) ''f.txt'' = p # q # [r]" by (simp only: xs)
  from create_at_primary_unanswered [OF sample_env_healthy this, of "''r''" "''hi''"] show ?thesis by auto
qed

section \<open>Merging\<close>

lemma GetSuccessors_single: "alive_ids im = [x] \<Longrightarrow> GetSuccessors h im 3 = [x]"
  by (cases "h \<le> x") (simp_all add: GetSuccessors_ring_order ring_order_def not_le)

lemma merged_of_merge:
  assumes "inj_on block_key (set (concat (merge_arrivals collect order f n)))"
    and "handleCLIMerge e rm collect order f n = (n', outs, Merged k)"
  shows "\<exists>merged. set merged = set (concat (merge_arrivals collect order f n))
      \<and> distinct (map block_key merged) \<and> sorted (map block_key merged)
      \<and> ReadFile f (Store n') = Inr (concat (map Content merged))
      \<and> (\<forall>(a, msg) \<in> set outs. NmType msg = ''merge_update''
           \<and> data_str msg ''content'' = Some (json_string (concat (map Content merged))))"
proof -
  let ?bs = "map snd (collect_blocks (merge_arrivals collect order f n))"
  obtain fs content h where m: "MergeFile (EIo e) rm f ?bs (Store n) = (Inr (), fs)"
    "ReadFile f fs = Inr content" "Store n' = fs"
    and outs: "outs = concat (map (\<lambda>x. if is_alive (node_info n) x
        then send_if_up e (address (go_get zero_info (node_info n) x))
          (merge_update_message h f content) else []) (file_replicas n f))"
    using assms(2)
    by (fastforce simp: handleCLIMerge_def merge_redistribute_def Let_def split: if_splits prod.splits sum.splits option.splits)
  note res = MergeFile_merges [OF m(1)]
  have content: "content = concat (map Content (sort_blocks ?bs))"
    using res m(2) ReadFile_log [of fs f] by simp
  have set: "set (sort_blocks ?bs) = set (concat (merge_arrivals collect order f n))"
    using collect_blocks_set [OF assms(1)] sort_blocks_sorts(1) [of ?bs] by (metis set_mset_mset)
  have "mset (map block_key (sort_blocks ?bs)) = mset (map block_key ?bs)"
    using sort_blocks_sorts(1) [of ?bs] by (metis mset_map)
  then have "distinct (map block_key (sort_blocks ?bs))"
    using block_map_keys [OF collect_blocks_ok] by (metis mset_eq_imp_distinct_iff)
  moreover have "NmType msg = ''merge_update'' \<and> data_str msg ''content'' = Some (json_string content)"
    if "(a, msg) \<in> set outs" for a msg
    using that unfolding outs
    by (auto simp: send_if_up_def merge_update_message_def node_message_def data_str_def split: if_splits)
  ultimately show ?thesis
    using set sort_blocks_sorts(2) m(2,3) unfolding content by blast
qed


definition lone_node :: "fs \<Rightarrow> HydfsNode" where
  "lone_node fs = \<lparr>HNode = \<lparr>RingID = 1, IsActive = True, NMembership = \<lparr>Members = [1],
     InfoMap = [(1, sample_info 1 Alive 0 0)], roundRobinIndex = 0\<rparr>\<rparr>,
     Store = fs, FileStore = [], PendingAcks = []\<rparr>"

lemma lone_node_simps [simp]:
  "node_info (lone_node fs) = [(1, sample_info 1 Alive 0 0)]" "Store (lone_node fs) = fs"
  "RingID (HNode (lone_node fs)) = 1" "file_replicas (lone_node fs) f = [1]"
  "FileStore (lone_node fs) = []" "self_info (lone_node fs) = sample_info 1 Alive 0 0"
proof -
  show a: "node_info (lone_node fs) = [(1, sample_info 1 Alive 0 0)]"
    by (simp add: node_info_def lone_node_def GetInfoMap_id)
  then show "file_replicas (lone_node fs) f = [1]"
    by (simp add: file_replicas_def NumReplicas_def GetSuccessors_single alive_ids_def)
  show "self_info (lone_node fs) = sample_info 1 Alive 0 0"
    using a by (simp add: self_info_def lone_node_def go_get_def)
qed (simp_all add: lone_node_def)

lemma write_blocks_healthy: "\<exists>ms d'. write_blocks (\<lambda>_. IoOk) i bs d = (Inr ms, d')"
proof (induction bs arbitrary: i d)
  case (Cons b bs)
  obtain ms d' where "write_blocks (\<lambda>_. IoOk) (i + 1) bs (AList.update (block_name i) (Raw (Content b)) d) = (Inr ms, d')"
    using Cons.IH by blast
  then show ?case by simp
qed simp

lemma MergeFile_healthy:
  assumes "file_ok fs f"
  shows "\<exists>fs'. MergeFile (\<lambda>_. IoOk) rm f bs fs = (Inr (), fs')"
proof -
  obtain d md where d: "get_dir fs (getFileDir f) = Some d" "dir_ok d md"
    using assms by (auto simp: file_ok_def)
  obtain ms d' where "write_blocks (\<lambda>_. IoOk) 1 (sort_blocks bs)
      (filter (\<lambda>(n, _). \<not> (prefix ''block_'' n \<and> rm n)) d) = (Inr ms, d')"
    using write_blocks_healthy by blast
  then show ?thesis using d by (auto simp: MergeFile_def Let_def dir_ok_def)
qed

lemma GetAllBlocks_log: "file_ok fs f \<Longrightarrow> GetAllBlocks f fs = Inr (file_log fs f)"
proof -
  assume "file_ok fs f"
  then obtain d md where d: "get_dir fs (getFileDir f) = Some d" "dir_ok d md" by (auto simp: file_ok_def)
  then show ?thesis using dir_log_reads(2) [OF d(2)] file_log_dir [OF d]
    by (simp add: GetAllBlocks_def dir_ok_def)
qed

lemma lone_merge:
  assumes "file_ok fs f" and "healthy e" and "EIo e = (\<lambda>_. IoOk)"
  shows "\<exists>n' outs k. handleCLIMerge e rm collect order f (lone_node fs) = (n', outs, Merged k)"
proof -
  let ?bs = "map snd (collect_blocks (merge_arrivals collect order f (lone_node fs)))"
  obtain fs' where m: "MergeFile (\<lambda>_. IoOk) rm f ?bs fs = (Inr (), fs')"
    using MergeFile_healthy [OF assms(1)] by blast
  then have ok: "file_ok fs' f" using MergeFile_merges by blast
  then have "ReadFile f fs' = Inr (concat (map Content (file_log fs' f)))" by (rule ReadFile_log)
  moreover obtain md where "GetMetadata f fs' = Some md"
    using ok by (auto simp: GetMetadata_def readMetadata_def file_ok_def dir_ok_def)
  ultimately show ?thesis
    using m assms(3) by (simp add: handleCLIMerge_def merge_redistribute_def Let_def is_alive_def)
qed


text \<open>
  A replica that handles \<open>merge_update\<close> holds the merged content whatever it held
  before, as one block of the client \<open>merged_content\<close>: the per-client sequence numbers of
  the earlier appends are forgotten. Without an alive successor in its table it panics,
  after having deleted the file.
\<close>

theorem merge_update_replaces:
  assumes "healthy e" and "data_str msg ''content'' = Some content"
    and "data_num msg ''file_id'' = Some fid"
  shows "if alive_ids (node_info n) = []
    then on_merge_update e msg n = (Some IndexOutOfRange, n\<lparr>Store := DeleteFile (NmFilename msg) (Store n)\<rparr>)
    else fst (on_merge_update e msg n) = None
      \<and> ReadFile (NmFilename msg) (Store (snd (on_merge_update e msg n))) = Inr content
      \<and> map ClientID (file_log (Store (snd (on_merge_update e msg n))) (NmFilename msg)) = [''merged_content'']"
proof (cases "alive_ids (node_info n) = []")
  case True
  then show ?thesis using assms by (simp add: on_merge_update_def Let_def GetSuccessors_ring_order ring_order_def)
next
  case False
  let ?f = "NmFilename msg"
  let ?fid = "uint64_of (EOvf e) fid"
  have "length (GetSuccessors ?fid (node_info n) NumReplicas) \<noteq> 0"
    using False by (simp add: alive_ring.place_length NumReplicas_def)
  then obtain p ps where succ: "GetSuccessors ?fid (node_info n) NumReplicas = p # ps"
    by (cases "GetSuccessors ?fid (node_info n) NumReplicas") auto
  have "map_of (DeleteFile ?f (Store n)) (getFileDir ?f) = None" by (simp add: DeleteFile_def)
  then obtain fs' where cr: "store_create e ?f content ?fid p ''merged_content'' (DeleteFile ?f (Store n))
      = (Inr (), fs')"
    using store_create_healthy [OF assms(1)] by blast
  note res = CreateFile_creates [OF cr [unfolded store_create_def]]
  have "on_merge_update e msg n = (None, n\<lparr>Store := fs'\<rparr>)"
    using assms(2,3) succ cr by (simp add: on_merge_update_def Let_def)
  then show ?thesis using False res ReadFile_log [of fs' ?f] by simp
qed

theorem merge_update_replaces_witness:
  "ReadFile ''a.txt'' (Store (snd (on_merge_update sample_env
     (merge_update_message ''node1'' ''a.txt'' ''xyz'') (lone_node sample_store)))) = Inr (json_string ''xyz'')"
  using merge_update_replaces [OF sample_env_healthy, of "merge_update_message ''node1'' ''a.txt'' ''xyz''"
      "json_string ''xyz''" _ "lone_node sample_store"]
  by (simp add: merge_update_message_def node_message_def data_str_def data_num_def alive_ids_def)



section \<open>Drifting stores and ids\<close>

text \<open>
  The prompt's \<open>create\<close> writes the file with the plain file manager, but \<open>get\<close>, merge and
  re-replication read the block store: on a replica that created a file with an extension
  this way the file is listed as stored, yet reading it fails and the re-replication scan
  does not see it.
\<close>

theorem cli_created_file_unreadable:
  assumes "map_of (FileStore n) f = None" and "RingID (HNode n) \<in> set (file_replicas n f)"
    and "Store n = []" and "getFileDir f \<noteq> f"
    and "handleCLICreate e IoOk (Some content) f n = (n', outs, told)"
  shows "go_has (FileStore n') f \<and> Manager_ReadFile f (Store n') = Inr content
    \<and> ReadFile f (Store n') = Inl ReadMetadataFailed \<and> checkAndRereplicate e n' = []"
proof -
  have "file_replicas n f \<noteq> []" using assms(2) by auto
  then have "Store n' = [(f, PlainFile content)] \<and> go_has (FileStore n') f"
    using assms by (auto simp: handleCLICreate_def go_has_def Let_def Manager_WriteFile_def)
  then show ?thesis using assms(4)
    by (simp add: Manager_ReadFile_def ReadFile_def get_dir_def checkAndRereplicate_def rereplicate_entry_def)
qed

theorem cli_created_file_unreadable_witness:
  "ReadFile ''f.txt'' (Store (fst (handleCLICreate sample_env IoOk (Some ''hi'') ''f.txt'' (lone_node []))))
    = Inl ReadMetadataFailed"
  using cli_created_file_unreadable [of "lone_node []" "''f.txt''" sample_env "''hi''"
      "fst (handleCLICreate sample_env IoOk (Some ''hi'') ''f.txt'' (lone_node []))"
      "fst (snd (handleCLICreate sample_env IoOk (Some ''hi'') ''f.txt'' (lone_node [])))"
      "snd (snd (handleCLICreate sample_env IoOk (Some ''hi'') ''f.txt'' (lone_node [])))"]
  by (simp add: getFileDir_def file_ext_def trim_suffix_def suffix_to_prefix)

lemma f64_round_exact: "n < 2 ^ 53 \<Longrightarrow> f64_round n = n"
  by (simp add: f64_round_def)

text \<open>
  File ids are 64-bit hashes but travel as JSON numbers: a replica that receives a file
  through the chain records the id rounded to a float64, so from \<open>2 ^ 53\<close> on it need not be
  the id that the file was placed by. The stored id equals the sent one exactly when the
  id survives the rounding, and \<open>2 ^ 60 + 1\<close> does not.
\<close>

theorem replica_records_rounded_id:
  assumes "healthy e" and "map_of (Store n) (getFileDir f) = None"
    and "fst (on_replicate_file e (chain_msg sndr f fid content t cid pid succs nxt ack lst k) n) = n'"
  shows "\<exists>md. GetMetadata f (Store n') = Some md \<and> FileID md = uint64_of (EOvf e) (float64_of fid)
    \<and> (unat fid < 2 ^ 53 \<longrightarrow> FileID md = fid) \<and> (fid = 2 ^ 60 + 1 \<longrightarrow> FileID md = 2 ^ 60)"
proof -
  let ?fid = "uint64_of (EOvf e) (float64_of fid)"
  obtain d where cr: "store_create e f (json_string content) ?fid (uint64_of (EOvf e) (float64_of pid))
      (json_string cid) (Store n) = (Inr (), AList.update (getFileDir f) (Directory d) (Store n))"
    and md: "\<exists>md. dir_metadata d = Some md \<and> FileID md = ?fid"
    using assms(1,2) by (simp add: store_create_def CreateFile_def healthyD Let_def dir_metadata_def)
  have "Store n' = AList.update (getFileDir f) (Directory d) (Store n)"
    using cr assms(3) by (auto simp: on_replicate_file_def Let_def)
  then have g: "\<exists>md. GetMetadata f (Store n') = Some md \<and> FileID md = ?fid"
    using md by (simp add: GetMetadata_def readMetadata_def)
  have "?fid = fid" if "unat fid < 2 ^ 53"
    using that by (simp add: uint64_of_def float64_of_def f64_round_exact)
  moreover have "?fid = 2 ^ 60" if "fid = 2 ^ 60 + 1"
  proof -
    have "unat (2 ^ 60 + 1 :: u64) = 2 ^ 60 + 1" by (simp add: unat_word_ariths)
    moreover have "f64_round (2 ^ 60 + 1) = 2 ^ 60"
      by (simp add: f64_round_def bit_length.simps)
    ultimately show ?thesis using that by (simp add: uint64_of_def float64_of_def)
  qed
  ultimately show ?thesis using g by auto
qed

theorem replica_records_rounded_id_witness:
  "\<exists>md. GetMetadata ''f.txt'' (Store (fst (on_replicate_file sample_env
      (chain_msg [] ''f.txt'' (2 ^ 60 + 1) ''hi'' 0 ''c'' 1 [1] [] [] True 0) (lone_node [])))) = Some md
    \<and> FileID md = 2 ^ 60"
  using replica_records_rounded_id [OF sample_env_healthy _ refl, of "lone_node []" "''f.txt''" "[]"
      "2 ^ 60 + 1" "''hi''" 0 "''c''" 1 "[1]" "[]" "[]" True 0]
  by auto

end
