(* ===== verification/Node_Config.thy ===== *)
theory Node_Config
  imports Go_Text
begin

text \<open>
  The configuration of a node (\<open>pkg/common/config.go\<close>) and \<open>host:port\<close> addresses as
  \<open>net.JoinHostPort\<close> writes them.

  \<^item> \<open>LoadConfig\<close> takes the decoded file (\<open>Inl\<close> when it cannot be opened or decoded) and the
    value of \<open>RAINSTORM_PROFILE\<close>.
\<close>

record Config =
  NodePort :: int
  ClientPort :: int
  MembershipPort :: int
  RainStormPort :: int
  Nodes :: "string list"
  VMs :: "string list"

record rawConfig =
  ActiveProfile :: string
  Profiles :: "(string, Config) gomap"
  RawNodes :: "string list"

datatype config_error = OpenFailed | DecodeFailed | ProfileNotFound string

definition LoadConfig :: "config_error + rawConfig \<Rightarrow> string \<Rightarrow> config_error + Config" where
  "LoadConfig file profileEnv =
     (case file of
        Inl err \<Rightarrow> Inl err
      | Inr raw \<Rightarrow>
          let profileName = (if profileEnv = [] then ActiveProfile raw else profileEnv);
              profileName = (if profileName = [] then ''default'' else profileName)
          in case map_of (Profiles raw) profileName of
               None \<Rightarrow> Inl (ProfileNotFound profileName)
             | Some cfg \<Rightarrow> Inr (cfg\<lparr>Nodes := RawNodes raw, VMs := RawNodes raw\<rparr>))"

section \<open>Addresses\<close>

definition join_host_port :: "string \<Rightarrow> int \<Rightarrow> string" where
  "join_host_port host port =
     (if CHR '':'' \<in> set host \<or> CHR ''%'' \<in> set host
      then ''['' @ host @ '']:'' @ dec_int port
      else host @ '':'' @ dec_int port)"

text \<open>Host names as the program uses them: no colon, percent sign or comma.\<close>

definition plain_host :: "string \<Rightarrow> bool" where
  "plain_host h = (CHR '':'' \<notin> set h \<and> CHR ''%'' \<notin> set h \<and> CHR '','' \<notin> set h)"

lemma join_host_port_plain: "plain_host h \<Longrightarrow> join_host_port h p = h @ CHR '':'' # dec_int p"
  by (simp add: join_host_port_def plain_host_def)

lemma join_host_port_inject:
  assumes "plain_host h" and "plain_host h'"
  shows "join_host_port h p = join_host_port h' p' \<longleftrightarrow> h = h' \<and> p = p'"
proof -
  have "takeWhile (\<lambda>c. c \<noteq> CHR '':'') (x @ CHR '':'' # y) = x" if "plain_host x" for x y :: string
    using that by (simp add: plain_host_def takeWhile_append)
  then have "h @ CHR '':'' # dec_int p = h' @ CHR '':'' # dec_int p' \<Longrightarrow> h = h'"
    using assms by metis
  then show ?thesis by (auto simp: join_host_port_plain assms)
qed

lemma dec_int_no_comma: "CHR '','' \<notin> set (dec_int i)"
proof -
  have "CHR '','' \<notin> set (dec n)" for n
    using dec_digits [of "CHR '',''" n] by (auto simp: is_digit_def)
  then show ?thesis by (simp add: dec_int_def)
qed

lemma join_host_port_no_comma: "plain_host h \<Longrightarrow> CHR '','' \<notin> set (join_host_port h p)"
  by (auto simp: join_host_port_plain dec_int_no_comma) (simp add: plain_host_def)

end
