(* ===== verification/Rs_Types.thy ===== *)
theory Rs_Types
  imports Node_Config Gossip_Loop
begin

text \<open>
  The data of RainStorm (\<open>pkg/rainstorm/types.go\<close>, \<open>server.go\<close>, the \<open>Tuple\<close> of \<open>api.go\<close>)
  and the hash that partitions tuples (\<open>hashString\<close> in \<open>worker.go\<close>, repeated in \<open>api.go\<close>).

  \<^item> Payloads travel as JSON; every string of them is valid UTF-8 and every number a Go
    \<open>int\<close> decoded into an \<open>int\<close>, so the receiver has the value that was sent.
  \<^item> Go's \<open>int\<close> is an integer, except in the hash, where the 64-bit wrap-around is the point.
  \<^item> A pointer map (\<open>map[string]*Task\<close>) is a map of values: entries are not shared.
  \<^item> A set \<open>map[string]bool\<close>, whose values are all true, is the list of its keys.
\<close>

datatype OperatorType = OpTransform | OpFilter | OpAggregate | OpSource
datatype TaskState = TaskStateIdle | TaskStateRunning | TaskStateFailed | TaskStateCompleted

record Task =
  TkID :: string
  StageID :: int
  OpType :: OperatorType
  OpExecutable :: string
  OpArgs :: "string list"
  TkPort :: int
  AssignedWorker :: string
  TkState :: TaskState
  PID :: int
  LogFile :: string
  InputRate :: int
  TaskIndex :: int
  TotalTasks :: int
  OutputFile :: string
  NumSources :: int
  TkJobTimestamp :: string
  TkHyDFSDestFile :: string
  HyDFSLeader :: string
  RainStormLeader :: string
  ExactlyOnce :: bool

record StageConfig =
  ScStageID :: int
  ScOpType :: OperatorType
  ScOpExecutable :: string
  ScOpArgs :: "string list"
  BasePort :: int
  IsSink :: bool
  ScHyDFSDestFile :: string

record JobSubmitPayload =
  App :: string
  SrcFile :: string
  DestFile :: string
  NumTasks :: int
  Stages :: "string list"
  StageArgs :: "string list list"
  JobExactlyOnce :: bool
  AutoScale :: bool
  JobInputRate :: int
  JobLowWatermark :: int
  JobHighWatermark :: int

text \<open>Rates are counts of tuples in one second, so float64 holds them exactly.\<close>

record TaskMetrics =
  TmTaskID :: string
  TuplesProcessed :: int
  CurrentRate :: rat
  TmTimestamp :: int

record TaskCompletedPayload =
  TcTaskID :: string
  TcVM :: string
  TcSuccess :: bool

record TaskFailurePayload =
  TfTaskID :: string
  TfVM :: string

type_synonym routing = "(int, string list) gomap"

record Server =
  SNode :: NodeState
  SConfig :: Config
  Role :: string
  ActiveTasks :: "(string, Task) gomap"
  AllTasks :: "(string, Task) gomap"
  TaskMetricsMap :: "(string, TaskMetrics) gomap"
  CurrentJobName :: string
  CurrentJobDestFile :: string
  JobTimestamp :: string
  JobStartTime :: int
  ExpectedTasks :: int
  OriginalTaskCount :: int
  CompletedTasks :: int
  CompletedTaskIDs :: "string list"
  UpscaledTaskIDs :: "string list"
  OriginalTasksDone :: bool
  OutputTaskFiles :: "(string, string) gomap"
  CurrentRoutingTable :: "routing option"
  JobEnded :: bool
  AutoScaleEnabled :: bool
  LowWatermark :: int
  HighWatermark :: int
  StageTaskCount :: "(int, int) gomap"
  LastScaleTime :: "(int, int) gomap"
  LowRateStart :: "(int, int) gomap"
  StageConfigs :: "StageConfig list"

section \<open>Tuples and partitioning\<close>

text \<open>Operators print the value of a tuple with \<open>%v\<close> or read it as a string: it is a string.\<close>

record Tuple =
  TpType :: string
  Key :: string
  Value :: string
  TupleID :: string
  IsEOF :: bool

definition hash_step :: "u64 \<Rightarrow> nat \<Rightarrow> u64" where
  "hash_step hash c = of_nat c + push_bit 6 hash + push_bit 16 hash - hash"

definition hashString :: "string \<Rightarrow> u64" where
  "hashString s =
     (let hash = foldl hash_step 0 (map fst (utf8_runes s))
      in if sint hash < 0 then - hash else hash)"

text \<open>\<open>hash % len(targets)\<close>, then the index into the targets: \<open>None\<close> is an index panic.\<close>

definition target_index :: "string \<Rightarrow> nat \<Rightarrow> int" where
  "target_index key n = go_rem (sint (hashString key)) (int n)"

definition pick_target :: "string \<Rightarrow> string list \<Rightarrow> string option" where
  "pick_target key targets =
     (let i = target_index key (length targets)
      in if 0 \<le> i \<and> i < int (length targets) then Some (targets ! nat i) else None)"

section \<open>The partitioning hash\<close>

lemma hash_step_mult: "hash_step h c = of_nat c + 65599 * h"
  by (simp add: hash_step_def push_bit_eq_mult algebra_simps)

lemma sint_bounds: "- (2 ^ 63) \<le> sint (w :: u64)" "sint (w :: u64) < 2 ^ 63"
  using sint_greater_eq [of w] sint_less [of w] by simp_all

lemma sint_min: "sint (w :: u64) = - (2 ^ 63) \<longleftrightarrow> w = 2 ^ 63"
proof -
  have m: "sint (2 ^ 63 :: u64) = - (2 ^ 63)" by simp
  show ?thesis
  proof
    assume "sint w = - (2 ^ 63)"
    with m have "sint w = sint (2 ^ 63 :: u64)" by simp
    then show "w = 2 ^ 63" by (simp only: signed_word_eqI)
  qed (use m in simp)
qed

lemma sint_uminus:
  assumes "(w :: u64) \<noteq> 2 ^ 63"
  shows "sint (- w) = - sint w"
proof -
  have b: "- (2 ^ 63) < sint w" "sint w < 2 ^ 63"
    using assms sint_bounds [of w] sint_min [of w] by linarith+
  have "sint (- w) = signed_take_bit 63 (- sint w)" by (simp add: sint_word_ariths)
  then show ?thesis using b by (simp add: signed_take_bit_int_eq_self)
qed

text \<open>The hash is non-negative but for one value, which is its own negation.\<close>

lemma hashString_nonneg: "hashString s \<noteq> 2 ^ 63 \<Longrightarrow> 0 \<le> sint (hashString s)"
proof -
  assume h: "hashString s \<noteq> 2 ^ 63"
  have "0 \<le> sint (if sint w < 0 then - w else w)" if "(if sint w < 0 then - w else w) \<noteq> 2 ^ 63" for w :: u64
  proof -
    have "w \<noteq> 2 ^ 63" using that by (auto split: if_splits)
    then show ?thesis using sint_uminus [of w] by simp
  qed
  then show ?thesis using h by (simp add: hashString_def Let_def)
qed

lemma go_rem_min: "0 < n \<Longrightarrow> go_rem (- (2 ^ 63)) n = - (2 ^ 63 mod n)"
  by (simp add: go_rem_def signed_modulo_int_def signed_divide_int_def minus_div_mult_eq_mod [symmetric])

lemma least_hash:
  "hashString (map char_of [231, 190, 161, 234, 186, 154, 238, 132, 145, 233, 136, 152 :: nat]) = 2 ^ 63"
proof -
  have "map fst (utf8_runes (map char_of [231, 190, 161, 234, 186, 154, 238, 132, 145, 233, 136, 152 :: nat]))
    = [32673, 44698, 57617, 37400]"
    by (simp add: utf8_step_def Let_def cont_def low6_def of_char_of)
  then have "foldl hash_step 0 (map fst (utf8_runes (map char_of
      [231, 190, 161, 234, 186, 154, 238, 132, 145, 233, 136, 152 :: nat]))) = 2 ^ 63"
    by (simp add: hash_step_mult)
  then show ?thesis by (simp add: hashString_def Let_def)
qed

text \<open>
  Partitioning is total but for one hash value: a key picks one of the \<open>n > 0\<close> targets, the
  same one every time, unless its hash is the least 64-bit integer, whose negation is itself;
  then the remainder is negative and the sender panics, except where \<open>n\<close> divides
  \<open>2 ^ 63\<close>. A key of four runes with this hash exists.
\<close>

theorem hash_partition_index:
  assumes "targets \<noteq> []"
  shows "(pick_target key targets = None \<longleftrightarrow> hashString key = 2 ^ 63 \<and> \<not> length targets dvd 2 ^ 63)
    \<and> (\<forall>t. pick_target key targets = Some t \<longrightarrow> t \<in> set targets)
    \<and> hashString (map char_of [231, 190, 161, 234, 186, 154, 238, 132, 145, 233, 136, 152 :: nat]) = 2 ^ 63"
proof -
  let ?n = "length targets"
  have n: "0 < int ?n" using assms by simp
  have iff: "pick_target key targets = None \<longleftrightarrow> hashString key = 2 ^ 63 \<and> \<not> ?n dvd 2 ^ 63"
  proof (cases "hashString key = 2 ^ 63")
    case True
    then have "target_index key ?n = - int (2 ^ 63 mod ?n)"
      using go_rem_min [OF n] by (simp add: target_index_def zmod_int)
    moreover have "- int k < int ?n" for k using n by linarith
    ultimately show ?thesis using True
      by (simp add: pick_target_def Let_def dvd_eq_mod_eq_0)
  next
    case False
    then have "0 \<le> target_index key ?n \<and> target_index key ?n < int ?n"
      unfolding target_index_def by (rule go_rem_range [OF hashString_nonneg n])
    then show ?thesis using False by (simp add: pick_target_def Let_def)
  qed
  have mem: "\<forall>t. pick_target key targets = Some t \<longrightarrow> t \<in> set targets"
    by (auto simp: pick_target_def Let_def split: if_splits)
  show ?thesis using iff mem least_hash by blast
qed

theorem hash_partition_index_witness:
  "pick_target (map char_of [231, 190, 161, 234, 186, 154, 238, 132, 145, 233, 136, 152 :: nat])
     [''a'', ''b'', ''c''] = None"
  using hash_partition_index [of "[''a'', ''b'', ''c'']"
      "map char_of [231, 190, 161, 234, 186, 154, 238, 132, 145, 233, 136, 152 :: nat]"]
  by (simp add: dvd_eq_mod_eq_0)

end
