(* ===== verification/Rs_Leader.thy ===== *)
theory Rs_Leader
  imports Rs_Types
begin

text \<open>
  The leader of RainStorm (\<open>pkg/rainstorm/leader.go\<close>, dispatch in \<open>server.go\<close>): job
  submission, bookkeeping of tasks, completion and restart. Autoscaling is in \<open>Rs_Autoscale\<close>.

  \<^item> \<open>rs_env\<close> is what the outside decides in one handler: which addresses accept a message
    (\<open>RsUp\<close>), the clock (\<open>RsNow\<close>) and its rendering in the job directory (\<open>RsStamp\<close>).
  \<^item> A handler returns the new server and what it emits. The log lines are left out but
    for \<open>RUN END\<close>, by which a user sees that a job is over.
  \<^item> Handlers run in goroutines of their own, so they interleave at their critical
    sections. \<open>HandleTaskCompleted\<close> decides in a second section on values read in the
    first: it is two steps, \<open>completed_count\<close> and \<open>completed_end\<close>.
\<close>

record rs_env =
  RsUp :: "string \<Rightarrow> bool"
  RsNow :: int
  RsStamp :: string

datatype rs_out =
    OutCreate string
  | OutSchedule string Task routing
  | OutKill string int
  | OutEof string int string
  | OutRouting string int "string list"
  | OutRunEnd string
  | OutCollect string "(string, string) gomap"

section \<open>Workers and messages to them\<close>

definition leader_hostname :: "Server \<Rightarrow> string" where
  "leader_hostname s =
     Hostname (go_get zero_info (GetInfoMap (NMembership (SNode s))) (RingID (SNode s)))"

definition GetAliveWorkers :: "Server \<Rightarrow> string list" where
  "GetAliveWorkers s =
     map (\<lambda>(_, info). Hostname info)
       (filter (\<lambda>(_, info). State info = Alive \<and> Hostname info \<noteq> leader_hostname s)
         (GetInfoMap (NMembership (SNode s))))"

definition the_routing :: "Server \<Rightarrow> routing" where
  "the_routing s = (case CurrentRoutingTable s of None \<Rightarrow> [] | Some rt \<Rightarrow> rt)"

definition task_addr :: "Task \<Rightarrow> string" where
  "task_addr task = join_host_port (AssignedWorker task) (TkPort task)"

definition sendScheduleTask :: "rs_env \<Rightarrow> Task \<Rightarrow> routing \<Rightarrow> Server \<Rightarrow> Server \<times> rs_out list" where
  "sendScheduleTask e task routingTable s =
     (let targetAddr = join_host_port (AssignedWorker task) (RainStormPort (SConfig s)) in
      if RsUp e targetAddr
      then (s\<lparr>AllTasks := AList.update (TkID task) task (AllTasks s)\<rparr>,
            [OutSchedule targetAddr task routingTable])
      else (s, []))"

primrec send_all :: "rs_env \<Rightarrow> routing \<Rightarrow> Task list \<Rightarrow> Server \<Rightarrow> Server \<times> rs_out list" where
  "send_all e routingTable [] s = (s, [])"
| "send_all e routingTable (task # tasks) s =
     (case sendScheduleTask e task routingTable s of (s1, o1) \<Rightarrow>
        case send_all e routingTable tasks s1 of (s2, o2) \<Rightarrow> (s2, o1 @ o2))"

definition forwardKillToWorker :: "rs_env \<Rightarrow> string \<Rightarrow> int \<Rightarrow> Server \<Rightarrow> rs_out list" where
  "forwardKillToWorker e vm pid s =
     (let targetAddr = join_host_port vm (RainStormPort (SConfig s))
      in if RsUp e targetAddr then [OutKill targetAddr pid] else [])"

definition sendEOFToTask :: "rs_env \<Rightarrow> string \<Rightarrow> int \<Rightarrow> int \<Rightarrow> string \<Rightarrow> rs_out list" where
  "sendEOFToTask e worker port numSources taskID =
     (let taskAddr = join_host_port worker port
      in if RsUp e taskAddr then [OutEof taskAddr numSources taskID] else [])"

section \<open>Submitting a job\<close>

definition zero_task :: Task where
  "zero_task = \<lparr>TkID = [], StageID = 0, OpType = OpTransform, OpExecutable = [], OpArgs = [],
     TkPort = 0, AssignedWorker = [], TkState = TaskStateIdle, PID = 0, LogFile = [],
     InputRate = 0, TaskIndex = 0, TotalTasks = 0, OutputFile = [], NumSources = 0,
     TkJobTimestamp = [], TkHyDFSDestFile = [], HyDFSLeader = [], RainStormLeader = [],
     ExactlyOnce = False\<rparr>"

definition metrics_leader :: "Config \<Rightarrow> string" where
  "metrics_leader cfg =
     (if VMs cfg \<noteq> [] then join_host_port (hd (VMs cfg)) (RainStormPort cfg) else [])"

definition source_task :: "Config \<Rightarrow> string \<Rightarrow> JobSubmitPayload \<Rightarrow> int \<Rightarrow> int \<Rightarrow> string \<Rightarrow> Task" where
  "source_task cfg stamp payload i port worker =
     zero_task\<lparr>TkID := ''src-task-'' @ dec_int i, StageID := 0, OpType := OpSource,
       OpExecutable := ''internal_source'', OpArgs := [SrcFile payload], TkPort := port,
       AssignedWorker := worker, InputRate := JobInputRate payload, TaskIndex := i,
       TotalTasks := NumTasks payload, TkJobTimestamp := stamp, RainStormLeader := metrics_leader cfg\<rparr>"

definition stage_args :: "JobSubmitPayload \<Rightarrow> nat \<Rightarrow> string list" where
  "stage_args payload stageIdx =
     (if stageIdx < length (StageArgs payload) then StageArgs payload ! stageIdx else [])"

definition output_path :: "string \<Rightarrow> string \<Rightarrow> int \<Rightarrow> string" where
  "output_path stamp app i =
     ''rainstorm_outputs/'' @ stamp @ ''/output_'' @ app @ ''_task'' @ dec_int i @ ''.txt''"

definition stage_task ::
  "Config \<Rightarrow> string \<Rightarrow> JobSubmitPayload \<Rightarrow> string list \<Rightarrow> nat \<Rightarrow> string \<Rightarrow> int \<Rightarrow> int \<Rightarrow> string \<Rightarrow> Task" where
  "stage_task cfg stamp payload workers stageIdx opExe i port worker =
     (let actualStageID = int stageIdx + 1;
          isLastStage = (actualStageID = int (length (Stages payload)));
          task = zero_task\<lparr>TkID := ''stage'' @ dec_int actualStageID @ ''-task-'' @ dec_int i,
            StageID := actualStageID, OpType := OpTransform, OpExecutable := opExe,
            OpArgs := stage_args payload stageIdx, TkPort := port, AssignedWorker := worker,
            NumSources := NumTasks payload, TkJobTimestamp := stamp,
            HyDFSLeader := (if workers \<noteq> [] then join_host_port (hd workers) (NodePort cfg) else []),
            RainStormLeader := metrics_leader cfg\<rparr>
      in if isLastStage \<and> DestFile payload \<noteq> []
         then task\<lparr>OutputFile := output_path stamp (App payload) i, TkHyDFSDestFile := DestFile payload\<rparr>
         else task)"

text \<open>
  One loop over the tasks of a stage: the worker index and the base port are counters that
  every iteration advances; the port of task \<open>i\<close> is the base port of its iteration plus \<open>i\<close>.
\<close>

fun task_loop ::
  "(int \<Rightarrow> int \<Rightarrow> string \<Rightarrow> Task) \<Rightarrow> string list \<Rightarrow> nat list \<Rightarrow> nat \<times> int \<Rightarrow> (nat \<times> int) \<times> Task list" where
  "task_loop mk workers [] (workerIndex, basePort) = ((workerIndex, basePort), [])"
| "task_loop mk workers (i # is) (workerIndex, basePort) =
     (let task = mk (int i) (basePort + int i) (workers ! (workerIndex mod length workers))
      in case task_loop mk workers is (workerIndex + 1, basePort + 1) of (c, tasks) \<Rightarrow> (c, task # tasks))"

fun stages_loop ::
  "(nat \<Rightarrow> string \<Rightarrow> int \<Rightarrow> int \<Rightarrow> string \<Rightarrow> Task) \<Rightarrow> string list \<Rightarrow> nat \<Rightarrow> nat \<Rightarrow> string list \<Rightarrow> nat \<times> int \<Rightarrow>
   (nat \<times> int) \<times> Task list" where
  "stages_loop mk workers n stageIdx [] c = (c, [])"
| "stages_loop mk workers n stageIdx (opExe # opExes) c =
     (case task_loop (mk stageIdx opExe) workers [0..<n] c of (c1, ts) \<Rightarrow>
        case stages_loop mk workers n (stageIdx + 1) opExes c1 of (c2, ts') \<Rightarrow> (c2, ts @ ts'))"

definition job_tasks :: "Config \<Rightarrow> string \<Rightarrow> JobSubmitPayload \<Rightarrow> string list \<Rightarrow> int \<times> Task list" where
  "job_tasks cfg stamp payload workers =
     (let n = nat (NumTasks payload) in
      case task_loop (source_task cfg stamp payload) workers [0..<n] (0, 10000) of (c, sources) \<Rightarrow>
        case stages_loop (stage_task cfg stamp payload workers) workers n 0 (Stages payload) c of
          ((_, basePort), tasks) \<Rightarrow> (basePort, sources @ tasks))"

definition build_routing :: "Task list \<Rightarrow> routing" where
  "build_routing tasks =
     fold (\<lambda>task rt. AList.update (StageID task) (go_get [] rt (StageID task) @ [task_addr task]) rt) tasks []"

definition output_task_files :: "Task list \<Rightarrow> (string, string) gomap" where
  "output_task_files tasks =
     fold (\<lambda>task m. if OutputFile task \<noteq> [] then AList.update (TkID task) (OutputFile task) m else m) tasks []"

definition stage_config :: "JobSubmitPayload \<Rightarrow> int \<Rightarrow> nat \<Rightarrow> string \<Rightarrow> StageConfig" where
  "stage_config payload basePort stageIdx opExe =
     \<lparr>ScStageID = int stageIdx + 1, ScOpType = OpTransform, ScOpExecutable = opExe,
      ScOpArgs = stage_args payload stageIdx, BasePort = basePort + int stageIdx * 100,
      IsSink = (int stageIdx + 1 = int (length (Stages payload))), ScHyDFSDestFile = DestFile payload\<rparr>"

definition job_state :: "rs_env \<Rightarrow> JobSubmitPayload \<Rightarrow> int \<Rightarrow> Task list \<Rightarrow> Server \<Rightarrow> Server" where
  "job_state e payload basePort tasks s =
     s\<lparr>CurrentJobName := App payload, CurrentJobDestFile := DestFile payload,
       JobTimestamp := RsStamp e, JobStartTime := RsNow e,
       ExpectedTasks := int (length tasks), OriginalTaskCount := int (length tasks),
       CompletedTasks := 0, CompletedTaskIDs := [], UpscaledTaskIDs := [],
       OriginalTasksDone := False, JobEnded := False,
       OutputTaskFiles := output_task_files tasks,
       CurrentRoutingTable := Some (build_routing tasks),
       AutoScaleEnabled := AutoScale payload, LowWatermark := JobLowWatermark payload,
       HighWatermark := JobHighWatermark payload,
       StageTaskCount := map (\<lambda>i. (int i + 1, NumTasks payload)) [0..<length (Stages payload)],
       LastScaleTime := [], LowRateStart := [],
       StageConfigs := map (\<lambda>(i, opExe). stage_config payload basePort i opExe)
         (zip [0..<length (Stages payload)] (Stages payload))\<rparr>"

definition HandleSubmitJob :: "rs_env \<Rightarrow> JobSubmitPayload \<Rightarrow> Server \<Rightarrow> Server \<times> rs_out list" where
  "HandleSubmitJob e payload s =
     (let s1 = s\<lparr>TaskMetricsMap := []\<rparr>;
          create = (if DestFile payload \<noteq> [] then [OutCreate (DestFile payload)] else []);
          workers = GetAliveWorkers s1
      in if length (Stages payload) > 3 then (s1, create)
         else if workers = [] then (s1, create)
         else case job_tasks (SConfig s1) (RsStamp e) payload workers of (basePort, tasks) \<Rightarrow>
           case send_all e (build_routing tasks) tasks (job_state e payload basePort tasks s1) of
             (s2, sent) \<Rightarrow> (s2, create @ sent))"

section \<open>Reports from the workers\<close>

definition HandleTaskStarted :: "Task \<Rightarrow> Server \<Rightarrow> Server" where
  "HandleTaskStarted task s =
     (case map_of (AllTasks s) (TkID task) of
        None \<Rightarrow> s
      | Some existing \<Rightarrow>
          s\<lparr>AllTasks := AList.update (TkID task)
              (existing\<lparr>PID := PID task, LogFile := LogFile task, TkState := TaskStateRunning\<rparr>) (AllTasks s)\<rparr>)"

definition HandleTaskMetrics :: "TaskMetrics \<Rightarrow> Server \<Rightarrow> Server" where
  "HandleTaskMetrics metrics s =
     s\<lparr>TaskMetricsMap := AList.update (TmTaskID metrics) metrics (TaskMetricsMap s)\<rparr>"

record completion =
  cpCompleted :: int
  cpExpected :: int
  cpJobName :: string
  cpDestFile :: string
  cpOutputFiles :: "(string, string) gomap"

definition mark_completed :: "string \<Rightarrow> Server \<Rightarrow> Server" where
  "mark_completed taskID s =
     (if taskID \<in> set (CompletedTaskIDs s) then s
      else s\<lparr>CompletedTaskIDs := CompletedTaskIDs s @ [taskID], CompletedTasks := CompletedTasks s + 1\<rparr>)"

definition set_task_result :: "TaskCompletedPayload \<Rightarrow> Server \<Rightarrow> Server" where
  "set_task_result payload s =
     (case map_of (AllTasks s) (TcTaskID payload) of
        None \<Rightarrow> s
      | Some task \<Rightarrow>
          s\<lparr>AllTasks := AList.update (TcTaskID payload)
              (task\<lparr>TkState := (if TcSuccess payload then TaskStateCompleted else TaskStateFailed)\<rparr>)
              (AllTasks s)\<rparr>)"

definition originals_completed :: "Server \<Rightarrow> bool" where
  "originals_completed s =
     (int (length (filter (\<lambda>t. t \<notin> set (UpscaledTaskIDs s)) (CompletedTaskIDs s))) \<ge> OriginalTaskCount s)"

definition upscaled_pending :: "Server \<Rightarrow> Task list" where
  "upscaled_pending s =
     concat (map (\<lambda>t. case map_of (AllTasks s) t of
         None \<Rightarrow> [] | Some task \<Rightarrow> if TkState task \<noteq> TaskStateCompleted then [task] else [])
       (UpscaledTaskIDs s))"

definition snapshot :: "Server \<Rightarrow> completion" where
  "snapshot s = \<lparr>cpCompleted = CompletedTasks s, cpExpected = ExpectedTasks s,
     cpJobName = CurrentJobName s, cpDestFile = CurrentJobDestFile s, cpOutputFiles = OutputTaskFiles s\<rparr>"

definition completed_count ::
  "rs_env \<Rightarrow> TaskCompletedPayload \<Rightarrow> Server \<Rightarrow> Server \<times> completion \<times> rs_out list" where
  "completed_count e payload s =
     (let s2 = mark_completed (TcTaskID payload) (set_task_result payload s) in
      if originals_completed s2 \<and> \<not> OriginalTasksDone s2
      then (s2\<lparr>OriginalTasksDone := True\<rparr>, snapshot s2,
            concat (map (\<lambda>task.
                sendEOFToTask e (AssignedWorker task) (TkPort task) (NumSources task) (TkID task))
              (upscaled_pending s2)))
      else (s2, snapshot s2, []))"

definition completed_end :: "completion \<Rightarrow> Server \<Rightarrow> Server \<times> rs_out list" where
  "completed_end c s =
     (if cpCompleted c \<ge> cpExpected c \<and> \<not> JobEnded s
      then (s\<lparr>JobEnded := True\<rparr>,
            OutRunEnd (cpJobName c)
            # (if cpDestFile c \<noteq> [] \<and> cpOutputFiles c \<noteq> []
               then [OutCollect (cpDestFile c) (cpOutputFiles c)] else []))
      else (s, []))"

definition HandleTaskCompleted :: "rs_env \<Rightarrow> TaskCompletedPayload \<Rightarrow> Server \<Rightarrow> Server \<times> rs_out list" where
  "HandleTaskCompleted e payload s =
     (case completed_count e payload s of (s1, c, o1) \<Rightarrow>
        case completed_end c s1 of (s2, o2) \<Rightarrow> (s2, o1 @ o2))"

section \<open>Restarting a failed task\<close>

fun replace_first :: "'a \<Rightarrow> 'a \<Rightarrow> 'a list \<Rightarrow> 'a list" where
  "replace_first old new [] = []"
| "replace_first old new (x # xs) = (if x = old then new # xs else x # replace_first old new xs)"

definition restart_task :: "string \<Rightarrow> Task \<Rightarrow> Task" where
  "restart_task worker task =
     task\<lparr>AssignedWorker := worker, TkState := TaskStateIdle, PID := 0, LogFile := []\<rparr>"

definition HandleTaskFailure :: "rs_env \<Rightarrow> TaskFailurePayload \<Rightarrow> Server \<Rightarrow> Server \<times> rs_out list" where
  "HandleTaskFailure e payload s =
     (if JobEnded s then (s, [])
      else case map_of (AllTasks s) (TfTaskID payload) of
        None \<Rightarrow> (s, [])
      | Some task \<Rightarrow>
          let s1 = s\<lparr>AllTasks := AList.update (TfTaskID payload) (task\<lparr>TkState := TaskStateFailed\<rparr>) (AllTasks s)\<rparr>;
              workers = GetAliveWorkers s1
          in if CurrentRoutingTable s1 = None \<or> workers = [] then (s1, [])
             else
               let newWorker = hd workers;
                   restartTask = restart_task newWorker task;
                   s2 = s1\<lparr>AllTasks := AList.update (TkID restartTask) restartTask (AllTasks s1)\<rparr>;
                   oldAddr = join_host_port (TfVM payload) (TkPort task);
                   newAddr = join_host_port newWorker (TkPort task);
                   rt = the_routing s2;
                   rt' = (case map_of rt (StageID task) of
                            None \<Rightarrow> rt
                          | Some targets \<Rightarrow>
                              AList.update (StageID task) (replace_first oldAddr newAddr targets) rt);
                   s3 = s2\<lparr>CurrentRoutingTable := Some rt'\<rparr>
               in sendScheduleTask e restartTask rt' s3)"

section \<open>Queries\<close>

record TaskInfo =
  TiTaskID :: string
  TiVM :: string
  TiPID :: int
  TiOpExe :: string
  TiLogFile :: string
  TiState :: string

definition state_str :: "TaskState \<Rightarrow> string" where
  "state_str st =
     (case st of TaskStateIdle \<Rightarrow> ''idle'' | TaskStateRunning \<Rightarrow> ''running''
      | TaskStateFailed \<Rightarrow> ''failed'' | TaskStateCompleted \<Rightarrow> ''completed'')"

definition HandleListTasks :: "Server \<Rightarrow> TaskInfo list" where
  "HandleListTasks s =
     map (\<lambda>(_, task). \<lparr>TiTaskID = TkID task, TiVM = AssignedWorker task, TiPID = PID task,
       TiOpExe = OpExecutable task, TiLogFile = LogFile task, TiState = state_str (TkState task)\<rparr>) (AllTasks s)"

definition HandleKillTask :: "rs_env \<Rightarrow> string \<Rightarrow> int \<Rightarrow> Server \<Rightarrow> rs_out list" where
  "HandleKillTask e vm pid s = forwardKillToWorker e vm pid s"

definition HandleGetTaskLocation :: "int \<Rightarrow> Server \<Rightarrow> string list" where
  "HandleGetTaskLocation stageID s = go_get [] (the_routing s) stageID"

end
