(* ===== verification/Rs_Worker.thy ===== *)
theory Rs_Worker
  imports Rs_Leader Hydfs_Client
begin

text \<open>
  The worker side of RainStorm (\<open>pkg/rainstorm/worker.go\<close>): starting the process of a task
  with its arguments, reading the source file, the partition of its lines among the source
  tasks, their delivery with acknowledgements, and the reports to the leader. The dispatch
  of messages is \<open>handleConnection\<close> of \<open>server.go\<close>.

  \<^item> \<open>cwd\<close> is the working directory and \<open>now\<close> the rendering of the current time.
  \<^item> An attempt to deliver a tuple is a \<open>src_attempt\<close>: what the leader answered when asked for
    the stage's addresses, whether dialling, encoding and the acknowledgement went well.
\<close>

section \<open>Processes\<close>

definition task_command_path :: "Task \<Rightarrow> string" where
  "task_command_path task =
     (if CHR ''/'' \<in> set (OpExecutable task) then OpExecutable task
      else ''ops/'' @ OpExecutable task @ ''/'' @ OpExecutable task)"

definition absolute_path :: "string \<Rightarrow> string \<Rightarrow> string" where
  "absolute_path cwd path = (if prefix ''/'' path then path else cwd @ ''/'' @ path)"

definition flag_arg :: "bool \<Rightarrow> string \<Rightarrow> string \<Rightarrow> string list" where
  "flag_arg given name value = (if given then [''--'' @ name @ ''='' @ value] else [])"

definition task_args :: "string \<Rightarrow> Task \<Rightarrow> string list \<Rightarrow> string list" where
  "task_args cwd task nextStageTargets =
     [''--port='' @ dec_int (TkPort task), ''--task-id='' @ TkID task]
     @ flag_arg (nextStageTargets \<noteq> []) ''targets'' (strings_join '','' nextStageTargets)
     @ flag_arg (OutputFile task \<noteq> []) ''output'' (absolute_path cwd (OutputFile task))
     @ flag_arg (NumSources task > 0) ''num-sources'' (dec_int (NumSources task))
     @ flag_arg (TkHyDFSDestFile task \<noteq> []) ''hydfs-dest'' (TkHyDFSDestFile task)
     @ flag_arg (HyDFSLeader task \<noteq> []) ''hydfs-leader'' (HyDFSLeader task)
     @ flag_arg (RainStormLeader task \<noteq> []) ''rainstorm-leader'' (RainStormLeader task)
     @ OpArgs task"

definition task_log_file :: "string \<Rightarrow> string \<Rightarrow> Task \<Rightarrow> string" where
  "task_log_file cwd now task =
     cwd @ ''/rainstorm_outputs/'' @ (if TkJobTimestamp task \<noteq> [] then TkJobTimestamp task else now)
     @ ''/task_'' @ TkID task @ ''.log''"

datatype report_msg =
    ReportStarted Task
  | ReportCompleted Task bool
  | ReportFailed Task

definition leader_addr :: "Server \<Rightarrow> string" where
  "leader_addr s = join_host_port (hd (VMs (SConfig s))) (RainStormPort (SConfig s))"

text \<open>
  \<open>exists\<close>: the executable is there; \<open>pid\<close>: the process that was started, or \<open>None\<close>;
  \<open>clean\<close>: it exited with status 0. A dead process is reported twice, as failed by the
  monitor and as completed without success by the waiting routine.
\<close>

definition runTaskProcess ::
  "bool \<Rightarrow> int option \<Rightarrow> bool \<Rightarrow> string \<Rightarrow> string \<Rightarrow> Task \<Rightarrow> Task \<times> report_msg list" where
  "runTaskProcess exists pid clean cwd now task =
     (if \<not> exists then (task, [])
      else case pid of
        None \<Rightarrow> (task, [])
      | Some p \<Rightarrow>
          let started = task\<lparr>PID := p, LogFile := task_log_file cwd now task, TkState := TaskStateRunning\<rparr> in
          if clean
          then (started\<lparr>TkState := TaskStateCompleted\<rparr>,
                [ReportStarted started, ReportCompleted (started\<lparr>TkState := TaskStateCompleted\<rparr>) True])
          else (started\<lparr>TkState := TaskStateFailed\<rparr>,
                [ReportStarted started, ReportFailed started,
                 ReportCompleted (started\<lparr>TkState := TaskStateFailed\<rparr>) False]))"

definition HandleScheduleTask :: "Task \<Rightarrow> Server \<Rightarrow> Server" where
  "HandleScheduleTask task s = s\<lparr>ActiveTasks := AList.update (TkID task) task (ActiveTasks s)\<rparr>"

definition completed_payload :: "Task \<Rightarrow> bool \<Rightarrow> TaskCompletedPayload" where
  "completed_payload task success =
     \<lparr>TcTaskID = TkID task, TcVM = AssignedWorker task, TcSuccess = success\<rparr>"

definition failure_payload :: "Task \<Rightarrow> TaskFailurePayload" where
  "failure_payload task = \<lparr>TfTaskID = TkID task, TfVM = AssignedWorker task\<rparr>"

text \<open>A worker's report handled at the leader, if the leader can be reached.\<close>

definition ReportTaskStarted :: "rs_env \<Rightarrow> Server \<Rightarrow> Task \<Rightarrow> Server \<Rightarrow> Server \<times> rs_out list" where
  "ReportTaskStarted e worker task leader =
     (if Role worker = ''worker'' \<and> RsUp e (leader_addr worker)
      then (HandleTaskStarted task leader, []) else (leader, []))"

definition ReportTaskCompleted :: "rs_env \<Rightarrow> Server \<Rightarrow> Task \<Rightarrow> bool \<Rightarrow> Server \<Rightarrow> Server \<times> rs_out list" where
  "ReportTaskCompleted e worker task success leader =
     (if Role worker = ''leader'' \<or> RsUp e (leader_addr worker)
      then HandleTaskCompleted e (completed_payload task success) leader else (leader, []))"

definition NotifyLeaderTaskFailed :: "rs_env \<Rightarrow> Server \<Rightarrow> Task \<Rightarrow> Server \<Rightarrow> Server \<times> rs_out list" where
  "NotifyLeaderTaskFailed e worker task leader =
     (if RsUp e (leader_addr worker)
      then HandleTaskFailure e (failure_payload task) leader else (leader, []))"

definition deliver_report :: "rs_env \<Rightarrow> Server \<Rightarrow> report_msg \<Rightarrow> Server \<Rightarrow> Server \<times> rs_out list" where
  "deliver_report e worker r leader =
     (case r of
        ReportStarted task \<Rightarrow> ReportTaskStarted e worker task leader
      | ReportCompleted task success \<Rightarrow> ReportTaskCompleted e worker task success leader
      | ReportFailed task \<Rightarrow> NotifyLeaderTaskFailed e worker task leader)"

definition sendMetricsToLeader :: "rs_env \<Rightarrow> Server \<Rightarrow> TaskMetrics \<Rightarrow> Server \<Rightarrow> Server" where
  "sendMetricsToLeader e worker metrics leader =
     (if Role worker = ''leader'' then
        (case map_of (TaskMetricsMap leader) (TmTaskID metrics) of
           None \<Rightarrow> HandleTaskMetrics metrics leader
         | Some existing \<Rightarrow>
             if TmTimestamp metrics > TmTimestamp existing then HandleTaskMetrics metrics leader else leader)
      else if RsUp e (leader_addr worker) then HandleTaskMetrics metrics leader else leader)"

section \<open>Reading the source\<close>

text \<open>\<open>ask\<close> is the reply of a replica to the request, \<open>local\<close> the file under \<open>data/\<close>.\<close>

definition fetch_request :: "HydfsNode \<Rightarrow> string \<Rightarrow> NodeMessage" where
  "fetch_request n hydfsFilename =
     node_message ''get_file'' (Hostname (self_info n)) ''get'' hydfsFilename []"

fun try_replicas :: "(string \<Rightarrow> NodeMessage \<Rightarrow> NodeMessage option) \<Rightarrow> HydfsNode \<Rightarrow> string \<Rightarrow> u64 list \<Rightarrow> bytes option" where
  "try_replicas ask n f [] = None"
| "try_replicas ask n f (x # xs) =
     (if \<not> is_alive (node_info n) x then try_replicas ask n f xs
      else case ask (address (go_get zero_info (node_info n) x)) (fetch_request n f) of
        None \<Rightarrow> try_replicas ask n f xs
      | Some response \<Rightarrow>
          if NmType response = ''get_file_response''
          then (case data_str response ''content'' of
                  None \<Rightarrow> try_replicas ask n f xs | Some content \<Rightarrow> Some content)
          else try_replicas ask n f xs)"

definition fetchFileFromHyDFS ::
  "(string \<Rightarrow> NodeMessage \<Rightarrow> NodeMessage option) \<Rightarrow> string \<Rightarrow> HydfsNode \<Rightarrow> bytes option" where
  "fetchFileFromHyDFS ask hydfsFilename n = try_replicas ask n hydfsFilename (file_replicas n hydfsFilename)"

definition source_content ::
  "(string \<Rightarrow> NodeMessage \<Rightarrow> NodeMessage option) \<Rightarrow> bytes option \<Rightarrow> string \<Rightarrow> HydfsNode \<Rightarrow> bytes option" where
  "source_content ask local hydfsFilename n =
     (case ReadFile hydfsFilename (Store n) of
        Inr content \<Rightarrow> Some content
      | Inl err \<Rightarrow>
          (case fetchFileFromHyDFS ask hydfsFilename n of Some content \<Rightarrow> Some content | None \<Rightarrow> local))"

text \<open>
  The lines of one source task, with their numbers in the file; a task count of zero makes
  the remainder panic, but then there is no task to run this.
\<close>

definition source_lines :: "Task \<Rightarrow> bytes \<Rightarrow> (nat \<times> string) list" where
  "source_lines task content =
     (let allLines = split_on (CHR ''\<newline>'') content in
      map (\<lambda>(i, line). (i + 1, line))
        (filter (\<lambda>(i, line). go_rem (int i) (TotalTasks task) = TaskIndex task)
          (zip [0..<length allLines] allLines)))"

definition source_tuple :: "string \<Rightarrow> string \<Rightarrow> nat \<Rightarrow> string \<Rightarrow> Tuple" where
  "source_tuple taskID hydfsFilename n lineContent =
     \<lparr>TpType = ''tuple'', Key = hydfsFilename @ '':'' @ dec n, Value = lineContent,
      TupleID = taskID @ ''-tuple-'' @ dec n, IsEOF = False\<rparr>"

definition source_tuples :: "Task \<Rightarrow> bytes \<Rightarrow> Tuple list" where
  "source_tuples task content =
     map (\<lambda>(n, line). source_tuple (TkID task) (hd (OpArgs task)) n (trim_space line))
       (filter (\<lambda>(n, line). trim_space line \<noteq> []) (source_lines task content))"

definition source_eof :: "Task \<Rightarrow> Tuple" where
  "source_eof task =
     \<lparr>TpType = ''tuple'', Key = ''EOF'', Value = ''end-of-stream'', TupleID = TkID task @ ''-eof'', IsEOF = True\<rparr>"

section \<open>Delivering the source stream\<close>

datatype src_ack = SrcAckGood | SrcAckLost | SrcAckOther

record src_attempt =
  SaLocation :: "string list option"
  SaDial :: bool
  SaEncode :: bool
  SaAck :: src_ack

record src =
  SrcTargets :: "string list"
  SrcConns :: "string list"

datatype delivery = Delivered | GaveUp | SrcPanic

text \<open>Without a connection the leader is asked for the addresses of the stage, and the target is dialled.\<close>

definition src_reconnect :: "src_attempt \<Rightarrow> string \<Rightarrow> string \<Rightarrow> src \<Rightarrow> (src \<times> string) option" where
  "src_reconnect a key target s =
     (case SaLocation a of
        Some (addr # addrs) \<Rightarrow>
          (case pick_target key (addr # addrs) of
             None \<Rightarrow> None | Some target1 \<Rightarrow> Some (s\<lparr>SrcTargets := addr # addrs\<rparr>, target1))
      | _ \<Rightarrow> Some (s, target))"

definition src_drop :: "string \<Rightarrow> src \<Rightarrow> src" where
  "src_drop target s = s\<lparr>SrcConns := removeAll target (SrcConns s)\<rparr>"

definition src_add :: "string \<Rightarrow> src \<Rightarrow> src" where
  "src_add target s = s\<lparr>SrcConns := List.insert target (SrcConns s)\<rparr>"

fun src_attempts :: "src_attempt list \<Rightarrow> Tuple \<Rightarrow> string \<Rightarrow> src \<Rightarrow> src \<times> string list \<times> delivery" where
  "src_attempts [] t target s = (s, [], GaveUp)"
| "src_attempts (a # as) t target s =
     (case (if target \<in> set (SrcConns s) then Some (s, target, True)
            else case src_reconnect a (Key t) target s of
              None \<Rightarrow> None
            | Some (s1, target1) \<Rightarrow>
                Some (if SaDial a then src_add target1 s1 else s1, target1, SaDial a)) of
        None \<Rightarrow> (s, [], SrcPanic)
      | Some (s1, target1, up) \<Rightarrow>
          if \<not> up then src_attempts as t target1 s1
          else if \<not> SaEncode a then src_attempts as t target1 (src_drop target1 s1)
          else case SaAck a of
            SrcAckGood \<Rightarrow> (s1, [target1], Delivered)
          | SrcAckLost \<Rightarrow>
              (case src_attempts as t target1 (src_drop target1 s1) of (s2, sent, r) \<Rightarrow> (s2, target1 # sent, r))
          | SrcAckOther \<Rightarrow>
              (case src_attempts as t target1 s1 of (s2, sent, r) \<Rightarrow> (s2, target1 # sent, r)))"

definition deliver_tuple :: "src_attempt list \<Rightarrow> Tuple \<Rightarrow> src \<Rightarrow> src \<times> string list \<times> delivery" where
  "deliver_tuple tries t s =
     (case pick_target (Key t) (SrcTargets s) of
        None \<Rightarrow> (s, [], SrcPanic)
      | Some target \<Rightarrow> src_attempts (take 10 tries) t target s)"

text \<open>\<open>tries t\<close> are the attempts made for \<open>t\<close>; the result lists the transmissions in order.\<close>

fun deliver_all ::
  "(Tuple \<Rightarrow> src_attempt list) \<Rightarrow> Tuple list \<Rightarrow> src \<Rightarrow> src \<times> (string \<times> Tuple) list \<times> nat \<times> bool" where
  "deliver_all tries [] s = (s, [], 0, True)"
| "deliver_all tries (t # ts) s =
     (case deliver_tuple (tries t) t s of
        (s1, sent, SrcPanic) \<Rightarrow> (s1, map (\<lambda>a. (a, t)) sent, 0, False)
      | (s1, sent, r) \<Rightarrow>
          (case deliver_all tries ts s1 of (s2, rest, n, ok) \<Rightarrow>
             (s2, map (\<lambda>a. (a, t)) sent @ rest, (if r = Delivered then n + 1 else n), ok)))"

datatype source_result = SourceFailed | SourceNoTargets | SourcePanicked | SourceDone nat

text \<open>
  \<open>dials\<close> are the targets that could be connected to at the start. Failing to read the file
  or having no targets ends the task without a report of its completion.
\<close>

definition runSourceTask ::
  "bytes option \<Rightarrow> (string \<Rightarrow> bool) \<Rightarrow> (Tuple \<Rightarrow> src_attempt list) \<Rightarrow> (string \<Rightarrow> bool) \<Rightarrow> Task \<Rightarrow> string list \<Rightarrow>
   (string \<times> Tuple) list \<times> source_result \<times> report_msg list" where
  "runSourceTask content dials tries eofUp task targets =
     (case content of
        None \<Rightarrow> ([], SourceFailed, [ReportStarted task])
      | Some bs \<Rightarrow>
          if targets = [] then ([], SourceNoTargets, [ReportStarted task])
          else
            case deliver_all tries (source_tuples task bs)
                   \<lparr>SrcTargets = targets, SrcConns = remdups (filter dials targets)\<rparr> of
              (s, sent, n, ok) \<Rightarrow>
                if \<not> ok then (sent, SourcePanicked, [ReportStarted task])
                else (sent @ map (\<lambda>a. (a, source_eof task)) (filter eofUp (SrcConns s)), SourceDone n,
                      [ReportStarted task, ReportCompleted (task\<lparr>TkState := TaskStateCompleted\<rparr>) True]))"

definition per_task_rate :: "Task \<Rightarrow> int" where
  "per_task_rate task =
     (if TotalTasks task > 0 then go_quot (InputRate task) (TotalTasks task) else InputRate task)"

section \<open>Dispatch\<close>

datatype rs_message =
    SubmitJob JobSubmitPayload | ScheduleTask Task routing | KillTaskWorker int | ListTasks
  | KillTask string int | TaskStarted Task | TaskMetricsMsg TaskMetrics
  | TaskCompleted TaskCompletedPayload | TaskFailed TaskFailurePayload | GetTaskLocation int | UnknownType string

datatype rs_reply = RsNone | RsTasks "TaskInfo list" | RsAddresses "string list"

text \<open>\<open>KillTaskWorker\<close> only signals a process of the operating system.\<close>

definition handleConnection :: "rs_env \<Rightarrow> rs_message \<Rightarrow> Server \<Rightarrow> Server \<times> rs_out list \<times> rs_reply" where
  "handleConnection e msg s =
     (let leader = (Role s = ''leader'') in
      case msg of
        SubmitJob payload \<Rightarrow>
          if leader then (case HandleSubmitJob e payload s of (s1, o1) \<Rightarrow> (s1, o1, RsNone)) else (s, [], RsNone)
      | ScheduleTask task rt \<Rightarrow> (HandleScheduleTask task s, [], RsNone)
      | KillTaskWorker pid \<Rightarrow> (s, [], RsNone)
      | ListTasks \<Rightarrow> (s, [], if leader then RsTasks (HandleListTasks s) else RsNone)
      | KillTask vm pid \<Rightarrow> (s, if leader then HandleKillTask e vm pid s else [], RsNone)
      | TaskStarted task \<Rightarrow> (if leader then HandleTaskStarted task s else s, [], RsNone)
      | TaskMetricsMsg m \<Rightarrow> (if leader then HandleTaskMetrics m s else s, [], RsNone)
      | TaskCompleted p \<Rightarrow>
          if leader then (case HandleTaskCompleted e p s of (s1, o1) \<Rightarrow> (s1, o1, RsNone)) else (s, [], RsNone)
      | TaskFailed p \<Rightarrow>
          if leader then (case HandleTaskFailure e p s of (s1, o1) \<Rightarrow> (s1, o1, RsNone)) else (s, [], RsNone)
      | GetTaskLocation stageID \<Rightarrow> (s, [], if leader then RsAddresses (HandleGetTaskLocation stageID s) else RsNone)
      | UnknownType ty \<Rightarrow> (s, [], RsNone))"

end
