(* ===== verification/Log_Query.thy ===== *)
theory Log_Query
  imports Membership
begin

text \<open>
  The distributed log query: \<open>pkg/logging/logger.go\<close>, the command \<open>dgrep_query\<close> of the client
  port and the prompt's \<open>dgrep\<close> (\<open>handleCLIDgrep\<close>) in \<open>main.go\<close>, and the name of the log file
  in \<open>main\<close>.

  \<^item> \<open>run args\<close> is the program \<open>grep\<close>: its exit and its combined output. \<open>logs\<close> are the names
    in the directory \<open>logs\<close>; a file does not vanish between the listing and the search.
  \<^item> \<open>ask host cmd\<close> is the exchange with the client port 8003 of a host: what arrived until
    the connection was closed or the deadline passed, and whether it was closed.
  \<^item> The goroutines append their results in any order, and \<open>sort.Slice\<close> may order equal
    numbers in any way: \<open>order\<close> is the order of arrival, and sorting by the number is stable.
\<close>

section \<open>A node's own log\<close>

text \<open>The name that \<open>main\<close> gives to the log file, without its directory.\<close>

definition log_name :: "string \<Rightarrow> string \<Rightarrow> string" where
  "log_name logHostname timestamp = logHostname @ ''_'' @ timestamp @ ''.log''"

text \<open>The digits of the leftmost match of \<open>node(\d+)\<close>.\<close>

fun node_digits :: "string \<Rightarrow> string option" where
  "node_digits [] = None"
| "node_digits (c # cs) =
     (if prefix ''node'' (c # cs) \<and> takeWhile is_digit (drop 4 (c # cs)) \<noteq> []
      then Some (takeWhile is_digit (drop 4 (c # cs))) else node_digits cs)"

definition getMachineNumber :: "string \<Rightarrow> int option" where
  "getMachineNumber hostname =
     (case (case node_digits hostname of None \<Rightarrow> None | Some ds \<Rightarrow> atoi ds) of
        Some num \<Rightarrow> Some num
      | None \<Rightarrow>
          let ds = rev (takeWhile is_digit (rev hostname)) in if ds = [] then None else atoi ds)"

text \<open>\<open>filepath.Glob\<close> for a pattern \<open>logs/<start>*.log\<close>.\<close>

definition glob_logs :: "string \<Rightarrow> string list \<Rightarrow> string list" where
  "glob_logs start logs =
     filter (\<lambda>f. prefix start f \<and> suffix ''.log'' f \<and> length start + 4 \<le> length f) logs"

definition find_log :: "int \<Rightarrow> string list \<Rightarrow> string option" where
  "find_log machineNum logs =
     (let matches = glob_logs (''node'' @ dec_int machineNum @ ''_'') logs;
          matches = (if matches = [] then glob_logs (''vm'' @ pad_zero 2 (dec_int machineNum) @ ''_'') logs
                     else matches)
      in if matches = [] then None else Some (last (sort matches)))"

datatype grep_exit = Exited int | NotRun

datatype query_error = NoMachineNumber | CommandFailed

definition Query ::
  "(string list \<Rightarrow> grep_exit \<times> string) \<Rightarrow> string \<Rightarrow> string list \<Rightarrow> string list \<Rightarrow> query_error + string" where
  "Query run hostname logs grepArgs =
     (case getMachineNumber hostname of
        None \<Rightarrow> Inl NoMachineNumber
      | Some machineNum \<Rightarrow>
          (case find_log machineNum logs of
             None \<Rightarrow> Inr []
           | Some logFile \<Rightarrow>
               (case run (grepArgs @ [''logs/'' @ logFile]) of
                  (Exited c, output) \<Rightarrow>
                    if c = 0 then Inr output else if c = 1 \<or> c = 2 then Inr [] else Inl CommandFailed
                | (NotRun, _) \<Rightarrow> Inl CommandFailed)))"

section \<open>Answering a query\<close>

text \<open>\<open>writeResp\<close> of the client port, and the branch for \<open>dgrep_query\<close>.\<close>

definition write_resp :: "string \<Rightarrow> bytes" where
  "write_resp s = (if suffix ''\<newline>'' s then s else s @ ''\<newline>'')"

definition dgrep_query :: "(query_error \<Rightarrow> string) \<Rightarrow> (string list \<Rightarrow> query_error + string) \<Rightarrow> string list \<Rightarrow> string list" where
  "dgrep_query errText query parts =
     (if length parts < 2 then [''ERR usage: dgrep_query <grep-args>'', ''END_DGREP'']
      else case query (tl parts) of
        Inl err \<Rightarrow> [''ERROR: '' @ errText err, ''END_DGREP'']
      | Inr output \<Rightarrow> if output = [] then [''END_DGREP''] else [output, ''END_DGREP''])"

section \<open>Asking every node\<close>

datatype grep_reply = NoConnection string | NotSent string | Received bytes "string option"

record GrepResult =
  GrHostname :: string
  VMNumber :: int
  GrOutput :: string
  GrError :: "string option"
  LineCount :: nat

definition dgrep_command :: "string list \<Rightarrow> string" where
  "dgrep_command grepArgs = ''dgrep_query '' @ strings_join '' '' grepArgs @ ''\<newline>''"

definition matched_lines :: "string list \<Rightarrow> string list" where
  "matched_lines ls = filter (\<lambda>l. l \<noteq> []) (takeWhile (\<lambda>l. l \<noteq> ''END_DGREP'') ls)"

definition as_lines :: "string list \<Rightarrow> string" where
  "as_lines ls = concat (map (\<lambda>l. l @ ''\<newline>'') ls)"

text \<open>
  The scanner reports the error of a read that failed only if the terminator was not found in
  a line that was complete before.
\<close>

definition complete_lines :: "bytes \<Rightarrow> string list" where
  "complete_lines s = map drop_cr (butlast (split_on (CHR ''\<newline>'') s))"

definition query_host :: "(string \<Rightarrow> string \<Rightarrow> grep_reply) \<Rightarrow> string list \<Rightarrow> string \<times> int \<Rightarrow> GrepResult" where
  "query_host ask grepArgs hn =
     (case hn of (host, num) \<Rightarrow>
        let result = \<lparr>GrHostname = host, VMNumber = num, GrOutput = [], GrError = None, LineCount = 0\<rparr> in
        case ask host (dgrep_command grepArgs) of
          NoConnection err \<Rightarrow> result\<lparr>GrError := Some (''connection failed: '' @ err)\<rparr>
        | NotSent err \<Rightarrow> result\<lparr>GrError := Some (''send failed: '' @ err)\<rparr>
        | Received s failure \<Rightarrow>
            (case (if ''END_DGREP'' \<in> set (complete_lines s) then None else failure) of
               Some err \<Rightarrow> result\<lparr>GrError := Some (''read failed: '' @ err)\<rparr>
             | None \<Rightarrow>
                 let ls = matched_lines (scan_lines s)
                 in result\<lparr>GrOutput := as_lines ls, LineCount := length ls\<rparr>))"

definition thin_rule :: string where
  "thin_rule = concat (replicate 40 [CHR 0xE2, CHR 0x94, CHR 0x80])"

definition double_rule :: string where
  "double_rule = concat (replicate 40 [CHR 0xE2, CHR 0x95, CHR 0x90])"

definition preview :: "GrepResult \<Rightarrow> string" where
  "preview result =
     (let ls = split_on (CHR ''\<newline>'') (trim_space (GrOutput result));
          previewLines = min 5 (length ls)
      in concat (map (\<lambda>l. ''  '' @ l @ ''\<newline>'') (take previewLines ls))
         @ (if length ls > previewLines
            then ''  ... ('' @ dec (length ls - previewLines) @ '' more lines)\<newline>'' else []))"

definition format_result :: "GrepResult \<Rightarrow> string" where
  "format_result result =
     ''VM'' @ pad_zero 2 (dec_int (VMNumber result)) @ '' ('' @ GrHostname result @ ''):\<newline>'' @ thin_rule @ ''\<newline>''
     @ (case GrError result of
          Some err \<Rightarrow> ''  ERROR: '' @ err @ ''\<newline>\<newline>''
        | None \<Rightarrow>
            if GrOutput result = [] then ''  No matches\<newline>\<newline>''
            else ''  '' @ dec (LineCount result) @ '' lines matched:\<newline>'' @ preview result @ ''\<newline>'')"

definition answered_ok :: "GrepResult \<Rightarrow> bool" where
  "answered_ok result = (GrError result = None)"

definition total_lines :: "GrepResult list \<Rightarrow> nat" where
  "total_lines results =
     sum_list (map LineCount (filter (\<lambda>r. GrError r = None \<and> GrOutput r \<noteq> []) results))"

definition summary_text :: "nat \<Rightarrow> nat \<Rightarrow> nat \<Rightarrow> string" where
  "summary_text successCount n totalLines =
     double_rule @ ''\<newline>Summary: '' @ dec successCount @ ''/'' @ dec n
     @ '' VMs responded successfully\<newline>Total matching lines: '' @ dec totalLines @ ''\<newline>''"

definition format_summary :: "GrepResult list \<Rightarrow> string" where
  "format_summary results =
     summary_text (length (filter answered_ok results)) (length results) (total_lines results)"

definition QueryDistributed ::
  "(string \<Rightarrow> string \<Rightarrow> grep_reply) \<Rightarrow> string list \<Rightarrow> (string \<times> int) list \<Rightarrow> string" where
  "QueryDistributed ask grepArgs order =
     (let results = sort_key VMNumber (map (query_host ask grepArgs) order)
      in concat (map format_result results) @ format_summary results)"

section \<open>The prompt\<close>

text \<open>The arguments without \<open>--save\<close> and its value; a \<open>--save\<close> at the end stays an argument.\<close>

fun save_flag :: "string list \<Rightarrow> string list \<Rightarrow> string \<Rightarrow> string list \<times> string" where
  "save_flag [] grepArgs saveFile = (grepArgs, saveFile)"
| "save_flag [p] grepArgs saveFile = (grepArgs @ [p], saveFile)"
| "save_flag (p # q # ps) grepArgs saveFile =
     (if p = ''--save'' then save_flag ps grepArgs q else save_flag (q # ps) (grepArgs @ [p]) saveFile)"

definition node_number :: "string \<Rightarrow> int" where
  "node_number hostname = sscan_int (trim_prefix hostname ''node'') 0"

definition alive_vms :: "infomap \<Rightarrow> (string, int) gomap" where
  "alive_vms infoMap =
     fold (\<lambda>(x, info) m.
       if State info = Alive
       then AList.update (Hostname info)
              (if node_number (Hostname info) > 0 then node_number (Hostname info) else int (length m) + 1) m
       else m) infoMap []"

datatype dgrep_result = DgrepUsage | NoAliveVMs | DgrepDone string "(string \<times> string) option"

text \<open>The result is what is printed, and the file to be saved with its content.\<close>

definition handleCLIDgrep ::
  "((string \<times> int) list \<Rightarrow> (string \<times> int) list) \<Rightarrow> (string \<Rightarrow> string \<Rightarrow> grep_reply) \<Rightarrow> infomap \<Rightarrow>
   string list \<Rightarrow> dgrep_result" where
  "handleCLIDgrep arrive ask infoMap parts =
     (if length parts < 2 then DgrepUsage
      else case save_flag (tl parts) [] [] of (grepArgs, saveFile) \<Rightarrow>
        if alive_vms infoMap = [] then NoAliveVMs
        else
          let result = QueryDistributed ask grepArgs (arrive (alive_vms infoMap))
          in DgrepDone result (if saveFile = [] then None else Some (saveFile, result)))"

end
