(* ===== verification/Client_Commands.thy ===== *)
theory Client_Commands
  imports Hydfs_Client Log_Query Membership_Table Node_Config
begin

text \<open>
  The command interpreters of a node in \<open>main.go\<close>: the client port
  (\<open>handleClientConnection\<close>), the interactive prompt (\<open>startInteractiveCLI\<close>) with the
  commands \<open>getfromreplica\<close> and \<open>multiappend\<close>, the line handling of the node port
  (\<open>handleNodeConnection\<close>) and the start of a node (\<open>main\<close>).

  \<^item> \<open>client_env\<close> holds what the commands read from outside the node: local files, the
    configuration, the clock and random numbers, and the other nodes.
  \<^item> A command that the code starts in a goroutine is an entry of the list of started actions,
    with its own definition.
  \<^item> Logging is left out. Names and host names are ASCII, so padding counts bytes. The storage
    directory can be listed.
\<close>

record client_env =
  CeNode :: env
  CeRemote :: string
  CeFiles :: "string \<Rightarrow> bytes option"
  CeWritable :: "string \<Rightarrow> bool"
  CeConfig :: "config_error + Config"
  CeConfigText :: "config_error \<Rightarrow> string"
  CeTime :: int
  CeFormat :: "int \<Rightarrow> string"
  CeRng :: "nat \<Rightarrow> nat"
  CeRemovable :: "string \<Rightarrow> bool"
  CeCollect :: "u64 \<Rightarrow> BlockInfo list option"
  CeOrder :: "u64 list"
  CeQuery :: "string list \<Rightarrow> query_error + string"
  CeQueryText :: "query_error \<Rightarrow> string"

datatype client_resp = RespText string | RespReply client_reply

datatype started = StartJoin Config | StartGetFromReplica "string list" | StartMultiAppend "string list"

section \<open>Texts of the listings\<close>

definition wide_rule :: string where
  "wide_rule = concat (replicate 60 [CHR 0xE2, CHR 0x95, CHR 0x90]) @ ''\<newline>''"

definition ring_id :: "u64 \<Rightarrow> string" where
  "ring_id x = pad_zero 20 (dec_u64 x)"

definition mem_ids_text :: "HydfsNode \<Rightarrow> string" where
  "mem_ids_text n =
     pad_right 40 ''Hostname'' @ '' '' @ pad_right 10 ''Port'' @ '' '' @ pad_right 20 ''Ring ID'' @ ''\<newline>''
     @ replicate 75 (CHR ''-'') @ ''\<newline>''
     @ concat (map (\<lambda>(host, port, x). pad_right 40 host @ '' '' @ pad_right 10 (dec_int port) @ '' '' @ ring_id x @ ''\<newline>'')
         (list_mem_ids n))"

definition self_text :: "HydfsNode \<Rightarrow> string" where
  "self_text n =
     ''RingID='' @ ring_id (RingID (HNode n)) @ '' Hostname='' @ Hostname (self_info n)
     @ '' Port='' @ dec_int (Port (self_info n)) @ '' State='' @ stateName (State (self_info n))"

definition ls_text :: "string \<Rightarrow> HydfsNode \<Rightarrow> string" where
  "ls_text hydfsFile n =
     wide_rule @ ''File Name: '' @ hydfsFile @ ''\<newline>''
     @ ''File ID:   '' @ ring_id (HashString hydfsFile) @ ''\<newline>''
     @ ''Replication Factor (n): '' @ dec NumReplicas @ ''\<newline>'' @ wide_rule
     @ pad_right 40 ''Hostname'' @ '' '' @ pad_right 20 ''Node ID'' @ ''\<newline>'' @ replicate 60 (CHR ''-'') @ ''\<newline>''
     @ concat (map (\<lambda>(host, x, primary).
         pad_right 40 host @ '' '' @ ring_id x @ (if primary then '' [PRIMARY]'' else []) @ ''\<newline>'') (ls_replicas hydfsFile n))
     @ wide_rule"

definition liststore_text :: "HydfsNode \<Rightarrow> string" where
  "liststore_text n =
     wide_rule @ ''Node: '' @ Hostname (self_info n) @ ''\<newline>''
     @ ''Ring ID: '' @ ring_id (RingID (HNode n)) @ ''\<newline>'' @ wide_rule
     @ ''Stored Files: '' @ dec (length (liststore n)) @ ''\<newline>'' @ replicate 60 (CHR ''-'') @ ''\<newline>''
     @ pad_right 30 ''HyDFS Filename'' @ '' '' @ pad_right 20 ''File ID'' @ ''\<newline>'' @ replicate 60 (CHR ''-'') @ ''\<newline>''
     @ concat (map (\<lambda>(f, x). pad_right 30 f @ '' '' @ ring_id x @ ''\<newline>'') (liststore n))
     @ wide_rule"

section \<open>The client port\<close>

definition broadcast_data :: "(string \<times> string) list \<Rightarrow> (string, jval) gomap" where
  "broadcast_data kvs = map (\<lambda>(k, v). (k, JStr (json_string v))) kvs"

definition client_leave :: "client_env \<Rightarrow> HydfsNode \<Rightarrow> HydfsNode" where
  "client_leave c n =
     n\<lparr>HNode := (HNode n)\<lparr>NMembership :=
       fst (UpdateStateSwim (CeRng c) (CeTime c) (RingID (HNode n)) Failed False (NMembership (HNode n)))\<rparr>\<rparr>"

definition client_append ::
  "client_env \<Rightarrow> string \<Rightarrow> string \<Rightarrow> HydfsNode \<Rightarrow> HydfsNode \<times> outs \<times> client_resp list" where
  "client_append c localFile hydfsFile n =
     (let e = CeNode c;
          os = broadcastOperation e ''append'' hydfsFile
                 (broadcast_data [(''localfile'', localFile), (''client'', CeRemote c)]) n;
          sent = fst (handleCLIAppend e (ENow e) (CeFiles c localFile) hydfsFile n)
      in (n, os @ sent, [RespText (''OK append '' @ localFile @ '' -> '' @ hydfsFile @ '' (operation logged)'')]))"

definition client_merge :: "client_env \<Rightarrow> string \<Rightarrow> HydfsNode \<Rightarrow> HydfsNode \<times> outs \<times> client_resp list" where
  "client_merge c hydfsFile n =
     (let e = CeNode c;
          os = broadcastOperation e ''merge'' hydfsFile (broadcast_data [(''client'', CeRemote c)]) n
      in case handleCLIMerge e (CeRemovable c) (CeCollect c) (CeOrder c) hydfsFile n of
           (n1, os1, _) \<Rightarrow> (n1, os @ os1, [RespText (''OK merge '' @ hydfsFile @ '' completed'')]))"

text \<open>Two commands answer at once and start a goroutine.\<close>

definition client_getfromreplica ::
  "client_env \<Rightarrow> string list \<Rightarrow> HydfsNode \<Rightarrow> HydfsNode \<times> outs \<times> client_resp list \<times> started list" where
  "client_getfromreplica c parts n =
     (let vmAddr = parts ! 1; hydfsFile = parts ! 2; localFile = parts ! 3
      in (n, broadcastOperation (CeNode c) ''getfromreplica'' hydfsFile (broadcast_data
               [(''vmaddress'', vmAddr), (''localfile'', localFile), (''client'', CeRemote c)]) n,
          [RespText (''OK getfromreplica '' @ hydfsFile @ '' from '' @ vmAddr)], [StartGetFromReplica parts]))"

definition client_multiappend ::
  "client_env \<Rightarrow> string list \<Rightarrow> HydfsNode \<Rightarrow> HydfsNode \<times> outs \<times> client_resp list \<times> started list" where
  "client_multiappend c parts n =
     (let hydfsFile = parts ! 1
      in (n, broadcastOperation (CeNode c) ''multiappend'' hydfsFile (broadcast_data
               [(''client'', CeRemote c), (''args'', strings_join '' '' (drop 2 parts))]) n,
          [RespText (''OK multiappend '' @ hydfsFile @ '' (operation initiated)'')], [StartMultiAppend parts]))"

definition help_text :: string where
  "help_text = ''Available commands:\<newline>  MP1: dgrep\<newline>''
     @ ''  MP2: list_mem | list_mem_ids | list_self | join | leave\<newline>''
     @ ''  MP3: create | get | append | merge | ls | liststore | getfromreplica | multiappend\<newline>''"

definition usage :: "string \<Rightarrow> client_resp list" where
  "usage s = [RespText (''ERR usage: '' @ s)]"

text \<open>
  One command, split at its blanks and not empty. The result is the node, the messages to
  other nodes, the responses, and the actions started.
\<close>

definition client_command ::
  "client_env \<Rightarrow> string list \<Rightarrow> HydfsNode \<Rightarrow> HydfsNode \<times> outs \<times> client_resp list \<times> started list" where
  "client_command c parts n =
     (let e = CeNode c; cmd = to_lower_ascii (hd parts); text = (\<lambda>s. (n, [], [RespText s], []));
          usage = (\<lambda>s. (n, [], usage s, [])) in
      if cmd = ''list_mem'' then text (Table (CeFormat c) (NMembership (HNode n)))
      else if cmd = ''list_mem_ids'' then text (mem_ids_text n)
      else if cmd = ''list_self'' then text (self_text n)
      else if cmd = ''join'' then
        (case CeConfig c of
           Inl err \<Rightarrow> text (''ERR join: cannot load config: '' @ CeConfigText c err)
         | Inr cfg \<Rightarrow> (n, [], [RespText ''OK join initiated''], [StartJoin cfg]))
      else if cmd = ''leave'' then (client_leave c n, [], [RespText ''OK left group''], [])
      else if cmd = ''create'' then
        (if length parts < 3 then usage ''create localfilename HyDFSfilename''
         else case client_create e (CeRemote c) (CeFiles c (parts ! 1)) (parts ! 2) n of
           (n1, os, None) \<Rightarrow> (n1, os, [], []) | (n1, os, Some r) \<Rightarrow> (n1, os, [RespReply r], []))
      else if cmd = ''get'' then
        (if length parts < 3 then usage ''get HyDFSfilename localfilename''
         else case client_get e (CeWritable c) (parts ! 1) (parts ! 2) n of
           (os, r) \<Rightarrow> (n, os, [RespReply r], []))
      else if cmd = ''append'' then
        (if length parts < 3 then usage ''append localfilename HyDFSfilename''
         else case client_append c (parts ! 1) (parts ! 2) n of (n1, os, rs) \<Rightarrow> (n1, os, rs, []))
      else if cmd = ''merge'' then
        (if length parts < 2 then usage ''merge HyDFSfilename''
         else case client_merge c (parts ! 1) n of (n1, os, rs) \<Rightarrow> (n1, os, rs, []))
      else if cmd = ''ls'' then
        (if length parts < 2 then usage ''ls HyDFSfilename''
         else if file_replicas n (parts ! 1) = [] then text ''ERR no replicas available''
         else text (ls_text (parts ! 1) n))
      else if cmd = ''liststore'' then text (liststore_text n)
      else if cmd = ''getfromreplica'' then
        (if length parts < 4 then usage ''getfromreplica VMaddress HyDFSfilename localfilename''
         else client_getfromreplica c parts n)
      else if cmd = ''multiappend'' then
        (if length parts < 4
         then usage ''multiappend HyDFSfilename VM1,VM2,... localfile1,localfile2,...''
         else client_multiappend c parts n)
      else if cmd = ''dgrep_query'' then
        (n, [], map RespText (dgrep_query (CeQueryText c) (CeQuery c) parts), [])
      else (n, [], [RespText (''ERR unknown command: '' @ cmd), RespText help_text], []))"

definition client_line ::
  "client_env \<Rightarrow> string \<Rightarrow> HydfsNode \<Rightarrow> HydfsNode \<times> outs \<times> client_resp list \<times> started list" where
  "client_line c text n =
     (if trim_space text = [] then (n, [], [], []) else client_command c (strings_fields (trim_space text)) n)"

section \<open>Reading from one replica\<close>

datatype fetch_result =
    FetchUsage | FetchUnreachable | FetchBadContent | Fetched string bytes | FetchNotWritten
  | FetchError string | FetchUnexpected

text \<open>Without a port, the address gets port 8081; the file goes into \<open>hydfs_local\<close> always.\<close>

definition replica_address :: "string \<Rightarrow> string" where
  "replica_address vmAddr = (if CHR '':'' \<in> set vmAddr then vmAddr else vmAddr @ '':8081'')"

definition handleCLIGetFromReplica ::
  "env \<Rightarrow> (string \<Rightarrow> bool) \<Rightarrow> string list \<Rightarrow> HydfsNode \<Rightarrow> fetch_result" where
  "handleCLIGetFromReplica e wr parts n =
     (if length parts < 4 then FetchUsage
      else
        let msg = node_message ''get_file'' (Hostname (self_info n)) ''get'' (parts ! 2)
                    [(''localfile'', JStr (json_string (parts ! 3)))];
            localPath = ''hydfs_local/'' @ dropWhile (\<lambda>c. c = CHR ''/'') (parts ! 3)
        in case EAsk e (replica_address (parts ! 1)) msg of
             None \<Rightarrow> FetchUnreachable
           | Some response \<Rightarrow>
               if NmType response = ''get_file_response'' \<or> NmType response = ''get_response'' then
                 (case data_str response ''content'' of
                    None \<Rightarrow> FetchBadContent
                  | Some content \<Rightarrow> if wr localPath then Fetched localPath content else FetchNotWritten)
               else if NmType response = ''error'' then
                 FetchError (case data_str response ''message'' of None \<Rightarrow> [] | Some s \<Rightarrow> s)
               else FetchUnexpected)"

section \<open>Appending on several nodes\<close>

datatype append_target = BadNumber int | HostIndexPanic | Target string

definition append_target :: "string list \<Rightarrow> string \<Rightarrow> append_target" where
  "append_target vmHosts vmStr =
     (case atoi vmStr of
        Some vmNum \<Rightarrow>
          if vmNum < 1 \<or> vmNum > 10 then BadNumber vmNum
          else if nat (vmNum - 1) < length vmHosts then Target (vmHosts ! nat (vmNum - 1))
          else HostIndexPanic
      | None \<Rightarrow> Target vmStr)"

definition append_address :: "string \<Rightarrow> string" where
  "append_address host = (if CHR '':'' \<in> set host then host else host @ '':8000'')"

definition append_path :: "string \<Rightarrow> string" where
  "append_path localFile =
     (if prefix ''data/'' localFile \<or> prefix ''/'' localFile then localFile else ''data/business/'' @ localFile)"

definition append_line :: "string \<Rightarrow> string \<Rightarrow> string" where
  "append_line localFile hydfsFile = ''append '' @ append_path localFile @ '' '' @ hydfsFile @ ''\<newline>''"

text \<open>
  \<open>tcp addr s\<close> is the first line of the answer to \<open>s\<close>, or \<open>None\<close> when there is no connection
  or no answer in ten seconds.
\<close>

definition append_at ::
  "(string \<Rightarrow> string \<Rightarrow> string option) \<Rightarrow> string \<Rightarrow> append_target \<Rightarrow> string \<Rightarrow> bool" where
  "append_at tcp hydfsFile target localFile =
     (case target of
        Target host \<Rightarrow>
          (case tcp (append_address host) (append_line localFile hydfsFile) of
             None \<Rightarrow> False | Some response \<Rightarrow> prefix ''OK'' (trim_space response))
      | _ \<Rightarrow> False)"

datatype multi_result = MultiUsage | CountMismatch nat nat | MultiPanic | MultiDone nat nat

definition handleCLIMultiAppend ::
  "config_error + Config \<Rightarrow> (string \<Rightarrow> string \<Rightarrow> string option) \<Rightarrow> string list \<Rightarrow> multi_result" where
  "handleCLIMultiAppend config tcp parts =
     (if length parts < 4 then MultiUsage
      else
        let vmParts = split_on (CHR '','') (parts ! 2); fileParts = split_on (CHR '','') (parts ! 3) in
        if length vmParts \<noteq> length fileParts then CountMismatch (length vmParts) (length fileParts)
        else
          let vmHosts = (case config of Inl err \<Rightarrow> [] | Inr cfg \<Rightarrow> VMs cfg);
              targets = map (append_target vmHosts) vmParts
          in if HostIndexPanic \<in> set targets then MultiPanic
             else MultiDone
               (length (filter (\<lambda>(t, f). append_at tcp (parts ! 1) t f) (zip targets fileParts)))
               (length vmParts))"

end
