(* ===== verification/Hydfs_Roundtrip.thy ===== *)
theory Hydfs_Roundtrip
  imports Hydfs_Props Rs_Worker Client_Commands
begin

text \<open>
  Reading back what was created, across the network: the nodes that a create has gone through
  answer the requests of the other commands of \<open>main.go\<close> and of the source tasks of RainStorm
  (\<open>fetchFileFromHyDFS\<close> in \<open>pkg/rainstorm/worker.go\<close>).

  \<^item> \<open>answers e net\<close> is what a request on the node port of an address brings back, when the nodes
    are those of \<open>net\<close> and none of them has to ask another.
\<close>

definition answers :: "env \<Rightarrow> net \<Rightarrow> string \<Rightarrow> NodeMessage \<Rightarrow> NodeMessage option" where
  "answers e net a msg = (case handle_message e msg (net a) of (n, os, Reply r, eff) \<Rightarrow> Some r | _ \<Rightarrow> None)"

text \<open>A node that has the file answers with it, whoever asks.\<close>

lemma answers_get:
  assumes "ReadFile f (Store (net a)) = Inr content" and "NmType msg = ''get_file''" and "NmFilename msg = f"
  shows "answers e net a msg = Some (get_response (net a) f content)"
  using assms by (simp add: answers_def handle_message_def on_get_file_def)

lemma get_response_fields [simp]:
  "NmType (get_response n f content) = ''get_file_response''"
  "data_str (get_response n f content) ''content'' = Some (json_string content)"
  by (simp_all add: get_response_def node_message_def data_str_def)

lemma address_has_port: "CHR '':'' \<in> set (address info)"
  by (simp add: address_def)



end
