(* ===== verification/Rs_Autoscale.thy ===== *)
theory Rs_Autoscale
  imports Rs_Leader
begin

text \<open>
  Autoscaling (\<open>checkAndScale\<close>, \<open>scaleStage\<close>, \<open>addTaskToStage\<close>, \<open>removeTaskFromStage\<close> and
  their helpers in \<open>pkg/rainstorm/leader.go\<close>).

  \<^item> The monitor calls \<open>checkAndScale\<close> once a second with a cooldown of five seconds. What
    \<open>scaleStage\<close> starts as a goroutine is its result, a \<open>scale_job\<close>, run as a step of its own.
  \<^item> The removal of a task sends the new routing and the EOF markers; what happens after the
    grace period is a second step, \<open>removal_cleanup\<close>.
  \<^item> Average rates are rational numbers: a quotient of two counts below \<open>2 ^ 53\<close> compares with
    an integer as its rounding to float64 does.
\<close>

datatype scale_job = AddTask int int | RemoveTask int int

definition scaleCooldown :: int where
  "scaleCooldown = 5 * 1000000000"

definition warmupPeriod :: int where
  "warmupPeriod = 10 * 1000000000"

section \<open>Changing a stage\<close>

definition scaleStage :: "int \<Rightarrow> int \<Rightarrow> int \<Rightarrow> Server \<Rightarrow> Server \<times> scale_job option" where
  "scaleStage now stageID delta s =
     (let currentCount = go_get 0 (StageTaskCount s) stageID; newCount = currentCount + delta in
      if newCount < 1 then (s, None)
      else (s\<lparr>StageTaskCount := AList.update stageID newCount (StageTaskCount s),
              LastScaleTime := AList.update stageID now (LastScaleTime s)\<rparr>,
            Some (if delta > 0 then AddTask stageID (newCount - 1) else RemoveTask stageID (currentCount - 1))))"

definition sendRoutingUpdate :: "rs_env \<Rightarrow> Task \<Rightarrow> routing \<Rightarrow> rs_out list" where
  "sendRoutingUpdate e task routingTable =
     (let downstreamStageID = StageID task + 1
      in if RsUp e (task_addr task)
         then [OutRouting (task_addr task) downstreamStageID (go_get [] routingTable downstreamStageID)]
         else [])"

definition broadcastRoutingUpdate :: "rs_env \<Rightarrow> int \<Rightarrow> routing \<Rightarrow> Server \<Rightarrow> rs_out list" where
  "broadcastRoutingUpdate e changedStageID routingTable s =
     (let upstreamStageID = changedStageID - 1
      in if upstreamStageID < 0 then []
         else concat (map (\<lambda>(_, task).
             if StageID task = upstreamStageID \<and> TkState task = TaskStateRunning
             then sendRoutingUpdate e task routingTable else []) (AllTasks s)))"

definition scaled_task_id :: "int \<Rightarrow> int \<Rightarrow> string" where
  "scaled_task_id stageID taskIndex = ''stage'' @ dec_int stageID @ ''-task-'' @ dec_int taskIndex"

definition scaled_base :: "rs_env \<Rightarrow> Server \<Rightarrow> StageConfig \<Rightarrow> int \<Rightarrow> string list \<Rightarrow> Task" where
  "scaled_base e s stageConfig taskIndex workers =
     zero_task\<lparr>TkID := scaled_task_id (ScStageID stageConfig) taskIndex,
       StageID := ScStageID stageConfig, OpType := ScOpType stageConfig,
       OpExecutable := ScOpExecutable stageConfig, OpArgs := ScOpArgs stageConfig,
       TkPort := BasePort stageConfig + taskIndex + 1000,
       AssignedWorker := workers ! nat (go_rem taskIndex (int (length workers))),
       NumSources := int (length (go_get [] (the_routing s) 0)), TkJobTimestamp := JobTimestamp s,
       HyDFSLeader := join_host_port (hd workers) (NodePort (SConfig s)),
       RainStormLeader := metrics_leader (SConfig s)\<rparr>"

definition scaled_task :: "rs_env \<Rightarrow> Server \<Rightarrow> StageConfig \<Rightarrow> int \<Rightarrow> string list \<Rightarrow> Task" where
  "scaled_task e s stageConfig taskIndex workers =
     (let task = scaled_base e s stageConfig taskIndex workers
      in if IsSink stageConfig \<and> ScHyDFSDestFile stageConfig \<noteq> []
         then task\<lparr>OutputFile := output_path (JobTimestamp s) ''main'' taskIndex,
                   TkHyDFSDestFile := ScHyDFSDestFile stageConfig\<rparr>
         else task)"

definition addTaskToStage :: "rs_env \<Rightarrow> int \<Rightarrow> int \<Rightarrow> Server \<Rightarrow> Server \<times> rs_out list" where
  "addTaskToStage e stageID taskIndex s =
     (case find (\<lambda>c. ScStageID c = stageID) (StageConfigs s) of
        None \<Rightarrow> (s, [])
      | Some stageConfig \<Rightarrow>
          let workers = GetAliveWorkers s in
          if workers = [] then (s, [])
          else
            let task = scaled_task e s stageConfig taskIndex workers;
                newAddr = task_addr task;
                rt = AList.update stageID (go_get [] (the_routing s) stageID @ [newAddr]) (the_routing s);
                s1 = s\<lparr>AllTasks := AList.update (TkID task) task (AllTasks s),
                       ExpectedTasks := ExpectedTasks s + 1,
                       UpscaledTaskIDs := List.insert (TkID task) (UpscaledTaskIDs s),
                       CurrentRoutingTable := Some rt\<rparr>
            in case sendScheduleTask e task rt s1 of
                 (s2, sent) \<Rightarrow> (s2, broadcastRoutingUpdate e stageID rt s1 @ sent))"

definition removeTaskFromStage :: "rs_env \<Rightarrow> int \<Rightarrow> int \<Rightarrow> Server \<Rightarrow> Server \<times> rs_out list" where
  "removeTaskFromStage e stageID taskIndex s =
     (let taskID = scaled_task_id stageID taskIndex in
      case map_of (AllTasks s) taskID of
        None \<Rightarrow> (s, [])
      | Some task \<Rightarrow>
          let newAddrs = filter (\<lambda>addr. addr \<noteq> task_addr task) (go_get [] (the_routing s) stageID);
              rt = AList.update stageID newAddrs (the_routing s);
              s1 = mark_completed taskID (s\<lparr>CurrentRoutingTable := Some rt\<rparr>)
          in (s1, broadcastRoutingUpdate e stageID rt s1
                  @ sendEOFToTask e (AssignedWorker task) (TkPort task) (NumSources task) taskID))"

definition isTaskCompleted :: "string \<Rightarrow> Server \<Rightarrow> bool" where
  "isTaskCompleted taskID s = (taskID \<in> set (CompletedTaskIDs s))"

definition removal_cleanup :: "rs_env \<Rightarrow> string \<Rightarrow> string \<Rightarrow> Server \<Rightarrow> Server \<times> rs_out list" where
  "removal_cleanup e taskID worker s =
     (let pid = (case map_of (AllTasks s) taskID of None \<Rightarrow> 0 | Some t \<Rightarrow> PID t);
          kill = (if \<not> isTaskCompleted taskID s \<and> pid > 0 then forwardKillToWorker e worker pid s else [])
      in (s\<lparr>AllTasks := AList.delete taskID (AllTasks s)\<rparr>, kill))"

definition run_scale_job :: "rs_env \<Rightarrow> scale_job \<Rightarrow> Server \<Rightarrow> Server \<times> rs_out list" where
  "run_scale_job e j s =
     (case j of
        AddTask stageID taskIndex \<Rightarrow> addTaskToStage e stageID taskIndex s
      | RemoveTask stageID taskIndex \<Rightarrow> removeTaskFromStage e stageID taskIndex s)"

section \<open>Deciding\<close>

record stage_stats =
  SsRate :: rat
  SsTasks :: int
  SsTuples :: int

definition zero_stats :: stage_stats where
  "zero_stats = \<lparr>SsRate = 0, SsTasks = 0, SsTuples = 0\<rparr>"

definition collect_stats :: "Server \<Rightarrow> (int, stage_stats) gomap" where
  "collect_stats s =
     fold (\<lambda>(taskID, metrics) m.
       case map_of (AllTasks s) taskID of
         None \<Rightarrow> m
       | Some task \<Rightarrow>
           if StageID task > 0 \<and> TkState task = TaskStateRunning \<and> TuplesProcessed metrics > 0
           then let st = go_get zero_stats m (StageID task) in
             AList.update (StageID task)
               \<lparr>SsRate = SsRate st + CurrentRate metrics, SsTasks = SsTasks st + 1,
                SsTuples = SsTuples st + TuplesProcessed metrics\<rparr> m
           else m)
       (TaskMetricsMap s) []"

fun scale_loop ::
  "int \<Rightarrow> int \<Rightarrow> int \<Rightarrow> int \<Rightarrow> (int, stage_stats) gomap \<Rightarrow> Server \<Rightarrow> Server \<times> scale_job option" where
  "scale_loop now cooldown lw hw [] s = (s, None)"
| "scale_loop now cooldown lw hw ((stageID, st) # rest) s =
     (if SsTasks st = 0 \<or> SsTuples st < 50 then scale_loop now cooldown lw hw rest s
      else
        let avgRatePerTask = SsRate st / of_int (SsTasks st);
            currentTaskCount = go_get 0 (StageTaskCount s) stageID;
            inCooldown = (case map_of (LastScaleTime s) stageID of
                            None \<Rightarrow> False | Some lastScale \<Rightarrow> now - lastScale < cooldown);
            forget = (\<lambda>s. s\<lparr>LowRateStart := AList.delete stageID (LowRateStart s)\<rparr>)
        in if inCooldown then scale_loop now cooldown lw hw rest s
           else if avgRatePerTask > of_int hw \<and> stageID > 1
           then (case scaleStage now stageID 1 s of (s1, j) \<Rightarrow> (forget s1, j))
           else if avgRatePerTask < of_int lw \<and> currentTaskCount > 1 \<and> SsRate st > 1 / 10 \<and> stageID > 1
           then (case map_of (LowRateStart s) stageID of
                   None \<Rightarrow> scale_loop now cooldown lw hw rest
                             (s\<lparr>LowRateStart := AList.update stageID now (LowRateStart s)\<rparr>)
                 | Some lowRateStart \<Rightarrow>
                     if now - lowRateStart \<ge> 3 * 1000000000 then scaleStage now stageID (- 1) (forget s)
                     else scale_loop now cooldown lw hw rest s)
           else scale_loop now cooldown lw hw rest (forget s))"

definition checkAndScale :: "int \<Rightarrow> int \<Rightarrow> Server \<Rightarrow> Server \<times> scale_job option" where
  "checkAndScale now cooldown s =
     (if \<not> AutoScaleEnabled s \<or> now - JobStartTime s < warmupPeriod then (s, None)
      else scale_loop now cooldown (LowWatermark s) (HighWatermark s) (collect_stats s) s)"

end
