(* ===== verification/Rs_Leader_Props.thy ===== *)
theory Rs_Leader_Props
  imports Rs_Autoscale
begin

text \<open>
  Properties of the RainStorm leader: the placement of the tasks of a job, the end of a run,
  restarts after failures and the bookkeeping of autoscaling.
\<close>

section \<open>The tasks of a job\<close>

lemma task_loop_closed:
  "task_loop mk ws is (w, b) = ((w + length is, b + int (length is)),
     map (\<lambda>j. mk (int (is ! j)) (b + int j + int (is ! j)) (ws ! ((w + j) mod length ws))) [0..<length is])"
proof (induction "is" arbitrary: w b)
  case (Cons i "is")
  then show ?case by (simp add: Let_def map_upt_Suc algebra_simps del: upt_Suc)
qed simp

lemma task_loop_upt:
  "task_loop mk ws [0..<n] (w, b) = ((w + n, b + int n),
     map (\<lambda>i. mk (int i) (b + 2 * int i) (ws ! ((w + i) mod length ws))) [0..<n])"
  by (simp add: task_loop_closed algebra_simps)

lemma stages_loop_closed:
  "stages_loop mk ws n k exes (w, b) = ((w + n * length exes, b + int (n * length exes)),
     concat (map (\<lambda>s. map (\<lambda>i. mk (k + s) (exes ! s) (int i) (b + int (n * s) + 2 * int i)
       (ws ! ((w + n * s + i) mod length ws))) [0..<n]) [0..<length exes]))"
proof (induction exes arbitrary: k w b)
  case (Cons x exes)
  then show ?case by (simp add: task_loop_upt map_upt_Suc algebra_simps del: upt_Suc)
qed simp

text \<open>Stage \<open>0\<close> are the sources; task \<open>i\<close> of stage \<open>s\<close> has this worker and this port.\<close>

definition slot :: "string list \<Rightarrow> nat \<Rightarrow> nat \<times> nat \<Rightarrow> string \<times> int" where
  "slot ws n si = (ws ! ((n * fst si + snd si) mod length ws), 10000 + int (n * fst si) + 2 * int (snd si))"

definition slots :: "nat \<Rightarrow> nat \<Rightarrow> (nat \<times> nat) list" where
  "slots stages n = List.product [0..<Suc stages] [0..<n]"

lemma set_slots: "set (slots stages n) = {0..stages} \<times> {0..<n}"
  by (auto simp: slots_def)

lemma distinct_slots: "distinct (slots stages n)"
  by (simp add: slots_def distinct_product)

lemma slots_split: "slots k n = map (Pair 0) [0..<n] @ concat (map (\<lambda>s. map (Pair (Suc s)) [0..<n]) [0..<k])"
proof -
  have "[0..<Suc k] = 0 # map Suc [0..<k]" by (simp add: map_Suc_upt upt_conv_Cons)
  moreover have "List.product xs ys = concat (map (\<lambda>x. map (Pair x) ys) xs)" for xs ys :: "nat list"
    by (induction xs) auto
  ultimately show ?thesis by (simp add: slots_def comp_def)
qed

definition job_task :: "Config \<Rightarrow> string \<Rightarrow> JobSubmitPayload \<Rightarrow> string list \<Rightarrow> nat \<times> nat \<Rightarrow> Task" where
  "job_task cfg stamp payload ws si =
     (let n = nat (NumTasks payload); wp = slot ws n si in
      if fst si = 0 then source_task cfg stamp payload (int (snd si)) (snd wp) (fst wp)
      else stage_task cfg stamp payload ws (fst si - 1) (Stages payload ! (fst si - 1)) (int (snd si)) (snd wp) (fst wp))"

lemma job_tasks_slots:
  "snd (job_tasks cfg stamp payload ws) =
     map (job_task cfg stamp payload ws) (slots (length (Stages payload)) (nat (NumTasks payload)))"
  by (simp add: job_tasks_def Let_def task_loop_upt stages_loop_closed slots_split job_task_def slot_def
      map_concat comp_def algebra_simps)

lemma job_task_simps [simp]:
  "AssignedWorker (job_task cfg stamp payload ws si) = fst (slot ws (nat (NumTasks payload)) si)"
  "TkPort (job_task cfg stamp payload ws si) = snd (slot ws (nat (NumTasks payload)) si)"
  "StageID (job_task cfg stamp payload ws si) = int (fst si)"
  "TkID (job_task cfg stamp payload ws si) =
     (if fst si = 0 then ''src-task-'' @ dec_int (int (snd si))
      else ''stage'' @ dec_int (int (fst si)) @ ''-task-'' @ dec_int (int (snd si)))"
  by (auto simp: job_task_def Let_def source_task_def stage_task_def zero_task_def)

lemma task_id_inject:
  "''stage'' @ dec_int s @ ''-task-'' @ dec_int i = ''stage'' @ dec_int s' @ ''-task-'' @ dec_int i'
     \<longleftrightarrow> s = s' \<and> i = i'" if "0 \<le> s" "0 \<le> s'"
proof -
  have d: "takeWhile (\<lambda>c. c \<noteq> CHR ''-'') (dec_int x @ CHR ''-'' # y) = dec_int x" if "0 \<le> x" for x y
    using that dec_digits digit_not_minus by (auto simp: dec_int_def takeWhile_append)
  have "dec_int s = dec_int s'" if "dec_int s @ ''-task-'' @ dec_int i = dec_int s' @ ''-task-'' @ dec_int i'"
    using that d [OF \<open>0 \<le> s\<close>, of "''task-'' @ dec_int i"] d [OF \<open>0 \<le> s'\<close>, of "''task-'' @ dec_int i'"] by simp
  then show ?thesis by auto
qed

lemma job_ids_distinct: "distinct (map TkID (snd (job_tasks cfg stamp payload ws)))"
proof -
  have "inj_on (\<lambda>si. TkID (job_task cfg stamp payload ws si)) A" for A
    by (rule inj_onI) (auto simp: task_id_inject [simplified] prod_eq_iff split: if_splits)
  then show ?thesis by (simp add: job_tasks_slots distinct_map distinct_slots comp_def)
qed

text \<open>Where two slots collide.\<close>

lemma slot_collision:
  assumes "distinct ws" "ws \<noteq> []" "s < s'" "i < n" "i' < n"
    and "slot ws n (s, i) = slot ws n (s', i')"
  shows "even n \<and> length ws dvd n div 2"
proof -
  have "int (n * s) + 2 * int i = int (n * s') + 2 * int i'" using assms(6) by (simp add: slot_def)
  then have p: "n * s + 2 * i = n * s' + 2 * i'" by linarith
  obtain d where d: "s' = s + Suc d" using assms(3) less_iff_Suc_add by auto
  have e: "2 * i = n * Suc d + 2 * i'" using p d by (simp add: algebra_simps)
  have "d = 0"
  proof (rule ccontr)
    assume "d \<noteq> 0"
    then have "n * 2 \<le> n * Suc d" by (cases d) auto
    then show False using e assms(4) by linarith
  qed
  then have n: "n = 2 * (i - i')" and "i' \<le> i" using e by auto
  have m: "(n * s + i) mod length ws = (n * s' + i') mod length ws"
    using assms(1,2,6) by (simp add: slot_def nth_eq_iff_index_eq)
  have "n * s' + i' = n * s + i + (i - i')" using d \<open>d = 0\<close> n \<open>i' \<le> i\<close> by simp
  then have "length ws dvd i - i'"
    using m by (metis add_diff_cancel_left' le_add1 mod_eq_dvd_iff_nat)
  then show ?thesis using n by simp
qed

lemma slots_distinct_iff:
  assumes "distinct ws" "ws \<noteq> []" "0 < n"
  shows "inj_on (slot ws n) ({0..stages} \<times> {0..<n}) \<longleftrightarrow>
    stages = 0 \<or> odd n \<or> \<not> length ws dvd n div 2"
proof
  assume inj: "inj_on (slot ws n) ({0..stages} \<times> {0..<n})"
  show "stages = 0 \<or> odd n \<or> \<not> length ws dvd n div 2"
  proof (rule ccontr)
    assume "\<not> ?thesis"
    then have st: "stages \<noteq> 0" and n: "n = 2 * (n div 2)" and "length ws dvd n div 2" by auto
    then have "(n div 2) mod length ws = 0" "n mod length ws = 0"
      by (simp, metis dvd_eq_mod_eq_0 dvd_mult)
    then have "slot ws n (0, n div 2) = slot ws n (1, 0)" using n by (simp add: slot_def)
    moreover have "n div 2 < n" using assms(3) by simp
    ultimately show False using inj st assms(3) by (auto dest!: inj_onD)
  qed
next
  assume r: "stages = 0 \<or> odd n \<or> \<not> length ws dvd n div 2"
  show "inj_on (slot ws n) ({0..stages} \<times> {0..<n})"
  proof (rule inj_onI)
    fix x y assume x: "x \<in> {0..stages} \<times> {0..<n}" and y: "y \<in> {0..stages} \<times> {0..<n}"
      and eq: "slot ws n x = slot ws n y"
    consider "fst x < fst y" | "fst y < fst x" | "fst x = fst y" by linarith
    then show "x = y"
    proof cases
      case 1
      then show ?thesis using slot_collision [of ws "fst x" "fst y" "snd x" n "snd y"] assms x y eq r by auto
    next
      case 2
      then show ?thesis using slot_collision [of ws "fst y" "fst x" "snd y" n "snd x"] assms x y eq r by auto
    next
      case 3
      then show ?thesis using eq by (simp add: slot_def prod_eq_iff)
    qed
  qed
qed

text \<open>
  The tasks of a job get pairwise different addresses unless the number of tasks of a
  stage is even and the number of workers divides its half: then a source and a task of
  the first stage are given the same port of the same machine, and only one can listen.
\<close>

theorem job_addresses_distinct:
  assumes "ws \<noteq> []" and "distinct ws" and "list_all plain_host ws" and "0 < NumTasks payload"
  shows "distinct (map task_addr (snd (job_tasks cfg stamp payload ws))) \<longleftrightarrow>
    Stages payload = [] \<or> odd (NumTasks payload) \<or> \<not> int (length ws) dvd NumTasks payload div 2"
proof -
  let ?n = "nat (NumTasks payload)" and ?k = "length (Stages payload)"
  have host: "plain_host (fst (slot ws ?n si))" for si
    using assms(1,3) by (simp add: slot_def list_all_iff)
  have "inj_on (\<lambda>si. task_addr (job_task cfg stamp payload ws si)) A \<longleftrightarrow> inj_on (slot ws ?n) A" for A
    by (auto simp: inj_on_def task_addr_def join_host_port_inject [OF host host] prod_eq_iff)
  then have "distinct (map task_addr (snd (job_tasks cfg stamp payload ws))) \<longleftrightarrow>
      inj_on (slot ws ?n) ({0..?k} \<times> {0..<?n})"
    by (simp add: job_tasks_slots distinct_map distinct_slots comp_def set_slots)
  also have "\<dots> \<longleftrightarrow> ?k = 0 \<or> odd ?n \<or> \<not> length ws dvd ?n div 2"
    using slots_distinct_iff [of ws ?n ?k] assms(1,2,4) by simp
  also have "\<dots> \<longleftrightarrow> Stages payload = [] \<or> odd (NumTasks payload) \<or> \<not> int (length ws) dvd NumTasks payload div 2"
  proof -
    have "NumTasks payload = int ?n" using assms(4) by simp
    then show ?thesis by (metis even_of_nat int_dvd_int_iff length_0_conv of_nat_numeral zdiv_int)
  qed
  finally show ?thesis .
qed

definition sample_payload :: JobSubmitPayload where
  "sample_payload = \<lparr>App = ''grep'', SrcFile = ''in.csv'', DestFile = ''out.txt'', NumTasks = 2,
     Stages = [''grep''], StageArgs = [[''x'']], JobExactlyOnce = True, AutoScale = False,
     JobInputRate = 100, JobLowWatermark = 10, JobHighWatermark = 50\<rparr>"

definition sample_config :: Config where
  "sample_config = \<lparr>NodePort = 8000, ClientPort = 8003, MembershipPort = 8001, RainStormPort = 8002,
     Nodes = [''vm1'', ''vm2''], VMs = [''vm1'', ''vm2'']\<rparr>"

theorem job_addresses_distinct_witness:
  "\<not> distinct (map task_addr (snd (job_tasks sample_config ''t'' sample_payload [''vm2''])))"
  using job_addresses_distinct [of "[''vm2'']" sample_payload sample_config "''t''"]
  by (simp add: sample_payload_def plain_host_def)

section \<open>The end of a run\<close>

text \<open>
  The critical sections of the leader between two submissions, in any order: the second
  section of a completion runs with whatever values an earlier first section read.
\<close>

datatype leader_event =
    EvStarted Task | EvMetrics TaskMetrics | EvCount TaskCompletedPayload | EvEnd completion
  | EvFailure TaskFailurePayload | EvCheckScale int | EvScale scale_job | EvRemoved string string

definition leader_step :: "rs_env \<times> leader_event \<Rightarrow> Server \<Rightarrow> Server \<times> rs_out list" where
  "leader_step ev s =
     (case ev of (e, x) \<Rightarrow>
        (case x of
           EvStarted task \<Rightarrow> (HandleTaskStarted task s, [])
         | EvMetrics m \<Rightarrow> (HandleTaskMetrics m s, [])
         | EvCount p \<Rightarrow> (case completed_count e p s of (s1, _, outs) \<Rightarrow> (s1, outs))
         | EvEnd c \<Rightarrow> completed_end c s
         | EvFailure p \<Rightarrow> HandleTaskFailure e p s
         | EvCheckScale now \<Rightarrow> (fst (checkAndScale now scaleCooldown s), [])
         | EvScale j \<Rightarrow> run_scale_job e j s
         | EvRemoved taskID worker \<Rightarrow> removal_cleanup e taskID worker s))"

primrec leader_run :: "(rs_env \<times> leader_event) list \<Rightarrow> Server \<Rightarrow> Server \<times> rs_out list" where
  "leader_run [] s = (s, [])"
| "leader_run (ev # evs) s =
     (case leader_step ev s of (s1, o1) \<Rightarrow> case leader_run evs s1 of (s2, o2) \<Rightarrow> (s2, o1 @ o2))"

fun is_run_end :: "rs_out \<Rightarrow> bool" where
  "is_run_end (OutRunEnd _) = True"
| "is_run_end _ = False"

lemma sendScheduleTask_ended [simp]:
  "JobEnded (fst (sendScheduleTask e t rt s)) = JobEnded s"
  "filter is_run_end (snd (sendScheduleTask e t rt s)) = []"
  by (simp_all add: sendScheduleTask_def Let_def)

lemma sendEOFToTask_silent [simp]: "filter is_run_end (sendEOFToTask e w p n t) = []"
  by (simp add: sendEOFToTask_def Let_def)

lemma broadcast_silent [simp]: "filter is_run_end (broadcastRoutingUpdate e st rt s) = []"
  by (auto simp: broadcastRoutingUpdate_def sendRoutingUpdate_def Let_def filter_empty_conv)

lemma mark_completed_ended [simp]: "JobEnded (mark_completed t s) = JobEnded s"
  by (simp add: mark_completed_def)

lemma set_task_result_fields [simp]:
  "JobEnded (set_task_result p s) = JobEnded s"
  "CompletedTaskIDs (set_task_result p s) = CompletedTaskIDs s"
  "CompletedTasks (set_task_result p s) = CompletedTasks s"
  "ExpectedTasks (set_task_result p s) = ExpectedTasks s"
  by (simp_all add: set_task_result_def split: option.split)

lemma completed_count_state:
  "fst (completed_count e p s) =
     (let s2 = mark_completed (TcTaskID p) (set_task_result p s)
      in if originals_completed s2 \<and> \<not> OriginalTasksDone s2 then s2\<lparr>OriginalTasksDone := True\<rparr> else s2)"
  by (simp add: completed_count_def Let_def)

lemma completed_count_ended [simp]:
  "JobEnded (fst (completed_count e p s)) = JobEnded s"
  "filter is_run_end (snd (snd (completed_count e p s))) = []"
  by (simp_all add: completed_count_state Let_def) (simp add: completed_count_def Let_def filter_concat comp_def)

lemma HandleTaskFailure_ended [simp]:
  "JobEnded (fst (HandleTaskFailure e p s)) = JobEnded s"
  "filter is_run_end (snd (HandleTaskFailure e p s)) = []"
  by (auto simp: HandleTaskFailure_def Let_def split: option.splits)

lemma scaleStage_ended [simp]: "JobEnded (fst (scaleStage now st d s)) = JobEnded s"
  by (simp add: scaleStage_def Let_def)

lemma scale_loop_ended: "JobEnded (fst (scale_loop now cd lw hw sts s)) = JobEnded s"
  by (induction now cd lw hw sts s rule: scale_loop.induct)
    (auto simp: Let_def case_prod_beta split: option.splits)

lemma run_scale_job_ended [simp]:
  "JobEnded (fst (run_scale_job e j s)) = JobEnded s"
  "filter is_run_end (snd (run_scale_job e j s)) = []"
  by (auto simp: run_scale_job_def addTaskToStage_def removeTaskFromStage_def Let_def case_prod_beta
      split: scale_job.splits option.splits)

lemma leader_step_simps:
  "leader_step (e, EvStarted t) s = (HandleTaskStarted t s, [])"
  "leader_step (e, EvMetrics m) s = (HandleTaskMetrics m s, [])"
  "leader_step (e, EvCount p) s = (fst (completed_count e p s), snd (snd (completed_count e p s)))"
  "leader_step (e, EvEnd c) s = completed_end c s"
  "leader_step (e, EvFailure q) s = HandleTaskFailure e q s"
  "leader_step (e, EvCheckScale now) s = (fst (checkAndScale now scaleCooldown s), [])"
  "leader_step (e, EvScale j) s = run_scale_job e j s"
  "leader_step (e, EvRemoved i w) s = removal_cleanup e i w s"
  by (simp_all add: leader_step_def case_prod_beta)

lemma small_steps_ended [simp]:
  "JobEnded (HandleTaskStarted t s) = JobEnded s"
  "JobEnded (HandleTaskMetrics m s) = JobEnded s"
  "JobEnded (fst (checkAndScale now cd s)) = JobEnded s"
  "JobEnded (fst (removal_cleanup e i w s)) = JobEnded s"
  "filter is_run_end (snd (removal_cleanup e i w s)) = []"
  by (simp_all add: HandleTaskStarted_def HandleTaskMetrics_def checkAndScale_def scale_loop_ended
      removal_cleanup_def forwardKillToWorker_def Let_def split: option.split)

lemma completed_end_ended: "JobEnded s \<Longrightarrow> JobEnded (fst (completed_end c s))"
  by (simp add: completed_end_def)

lemma completed_end_outs:
  "filter is_run_end (snd (completed_end c s)) =
     (if cpCompleted c \<ge> cpExpected c \<and> \<not> JobEnded s then [OutRunEnd (cpJobName c)] else [])"
  by (simp add: completed_end_def)

lemma leader_step_ended: "JobEnded s \<Longrightarrow> JobEnded (fst (leader_step (e, x) s))"
  by (cases x) (simp_all add: leader_step_simps completed_end_ended)

lemma leader_step_silent:
  "filter is_run_end (snd (leader_step (e, x) s)) =
     (case x of EvEnd c \<Rightarrow> if cpCompleted c \<ge> cpExpected c \<and> \<not> JobEnded s then [OutRunEnd (cpJobName c)] else []
      | _ \<Rightarrow> [])"
  by (cases x) (simp_all add: leader_step_simps completed_end_outs)

interpretation run_end: once_machine leader_step JobEnded is_run_end
proof
  fix ev :: "rs_env \<times> leader_event" and s
  obtain e x where ev: "ev = (e, x)" by (cases ev)
  show "JobEnded s \<Longrightarrow> JobEnded (fst (leader_step ev s))"
    unfolding ev by (rule leader_step_ended)
  show "JobEnded s \<Longrightarrow> filter is_run_end (snd (leader_step ev s)) = []"
    unfolding ev by (cases x) (simp_all add: leader_step_silent)
  show "length (filter is_run_end (snd (leader_step ev s))) \<le> 1"
    unfolding ev by (cases x) (simp_all add: leader_step_silent)
  show "filter is_run_end (snd (leader_step ev s)) \<noteq> [] \<Longrightarrow> JobEnded (fst (leader_step ev s))"
    unfolding ev by (cases x) (simp_all add: leader_step_silent leader_step_simps completed_end_def split: if_splits)
qed

lemma leader_run_run: "leader_run evs s = run_end.run evs s"
  by (induction evs arbitrary: s) (simp_all add: case_prod_beta Let_def)


section \<open>Counting completions\<close>

definition tally :: "Server \<Rightarrow> bool" where
  "tally s = (distinct (CompletedTaskIDs s) \<and> CompletedTasks s = int (length (CompletedTaskIDs s)))"

definition handle_completions :: "(rs_env \<times> TaskCompletedPayload) list \<Rightarrow> Server \<Rightarrow> Server" where
  "handle_completions reports = fold (\<lambda>(e, p) s. fst (HandleTaskCompleted e p s)) reports"

lemma mark_completed_tally: "tally s \<Longrightarrow> tally (mark_completed t s)"
  by (simp add: tally_def mark_completed_def)

lemma mark_completed_ids: "set (CompletedTaskIDs (mark_completed t s)) = insert t (set (CompletedTaskIDs s))"
  by (auto simp: mark_completed_def)

lemma mark_completed_expected [simp]: "ExpectedTasks (mark_completed t s) = ExpectedTasks s"
  by (simp add: mark_completed_def)

lemma completed_end_fields [simp]:
  "CompletedTaskIDs (fst (completed_end c s)) = CompletedTaskIDs s"
  "CompletedTasks (fst (completed_end c s)) = CompletedTasks s"
  "ExpectedTasks (fst (completed_end c s)) = ExpectedTasks s"
  "JobEnded (fst (completed_end c s)) = (JobEnded s \<or> cpCompleted c \<ge> cpExpected c)"
  by (auto simp: completed_end_def)

lemma completed_count_snapshot:
  "fst (snd (completed_count e p s)) = snapshot (mark_completed (TcTaskID p) (set_task_result p s))"
  by (simp add: completed_count_def Let_def)

lemma HandleTaskCompleted_fields:
  fixes s e p
  defines "s' \<equiv> fst (HandleTaskCompleted e p s)"
  shows "tally s \<Longrightarrow> tally s'"
    and "set (CompletedTaskIDs s') = insert (TcTaskID p) (set (CompletedTaskIDs s))"
    and "ExpectedTasks s' = ExpectedTasks s"
    and "JobEnded s' = (JobEnded s \<or> CompletedTasks s' \<ge> ExpectedTasks s)"
    and "CompletedTasks s \<le> CompletedTasks s'"
proof -
  have s': "s' = fst (completed_end (fst (snd (completed_count e p s))) (fst (completed_count e p s)))"
    by (simp add: s'_def HandleTaskCompleted_def case_prod_beta)
  have c: "CompletedTaskIDs s' = CompletedTaskIDs (mark_completed (TcTaskID p) (set_task_result p s))"
    "CompletedTasks s' = CompletedTasks (mark_completed (TcTaskID p) (set_task_result p s))"
    by (simp_all add: s' completed_count_state Let_def)
  show "tally s'" if "tally s"
    using mark_completed_tally [of "set_task_result p s" "TcTaskID p"] that c by (simp add: tally_def)
  show "set (CompletedTaskIDs s') = insert (TcTaskID p) (set (CompletedTaskIDs s))"
    using mark_completed_ids [of "TcTaskID p" "set_task_result p s"] c(1) by simp
  show "ExpectedTasks s' = ExpectedTasks s" by (simp add: s' completed_count_state Let_def)
  show "JobEnded s' = (JobEnded s \<or> CompletedTasks s' \<ge> ExpectedTasks s)"
    by (simp add: s' completed_count_snapshot snapshot_def completed_count_state Let_def)
  show "CompletedTasks s \<le> CompletedTasks s'" by (simp add: c mark_completed_def)
qed

lemma handle_completions_fields:
  fixes s reports
  defines "s' \<equiv> handle_completions reports s"
  assumes "tally s"
  shows "tally s'"
    and "set (CompletedTaskIDs s') = set (CompletedTaskIDs s) \<union> set (map (TcTaskID \<circ> snd) reports)"
    and "ExpectedTasks s' = ExpectedTasks s"
    and "JobEnded s' = (JobEnded s \<or> reports \<noteq> [] \<and> CompletedTasks s' \<ge> ExpectedTasks s)"
proof -
  have "tally s' \<and> set (CompletedTaskIDs s') = set (CompletedTaskIDs s) \<union> set (map (TcTaskID \<circ> snd) reports)
    \<and> ExpectedTasks s' = ExpectedTasks s
    \<and> JobEnded s' = (JobEnded s \<or> reports \<noteq> [] \<and> CompletedTasks s' \<ge> ExpectedTasks s)"
    unfolding s'_def
  proof (induction reports rule: rev_induct)
    case (snoc r reports)
    obtain e p where r: "r = (e, p)" by (cases r)
    let ?t = "handle_completions reports s"
    have "handle_completions (reports @ [r]) s = fst (HandleTaskCompleted e p ?t)"
      by (simp add: handle_completions_def r)
    then show ?case
      using snoc HandleTaskCompleted_fields [where s = ?t and e = e and p = p] by (auto simp: r)
  qed (use assms(2) in \<open>simp add: handle_completions_def\<close>)
  then show "tally s'"
    and "set (CompletedTaskIDs s') = set (CompletedTaskIDs s) \<union> set (map (TcTaskID \<circ> snd) reports)"
    and "ExpectedTasks s' = ExpectedTasks s"
    and "JobEnded s' = (JobEnded s \<or> reports \<noteq> [] \<and> CompletedTasks s' \<ge> ExpectedTasks s)"
    by blast+
qed

text \<open>The number of counted tasks is the number of different ids reported.\<close>

lemma tally_card: "tally s \<Longrightarrow> CompletedTasks s = int (card (set (CompletedTaskIDs s)))"
  by (simp add: tally_def distinct_card)

lemma send_all_state: "\<exists>m. fst (send_all e rt tasks s) = s\<lparr>AllTasks := m\<rparr>"
proof (induction tasks arbitrary: s)
  case Nil
  have "fst (send_all e rt [] s) = s\<lparr>AllTasks := AllTasks s\<rparr>" by simp
  then show ?case by blast
next
  case (Cons t tasks)
  obtain m where m: "fst (sendScheduleTask e t rt s) = s\<lparr>AllTasks := m\<rparr>"
    by (cases "RsUp e (join_host_port (AssignedWorker t) (RainStormPort (SConfig s)))")
      (auto simp: sendScheduleTask_def Let_def intro: that [of "AllTasks s"])
  then show ?case using Cons.IH [of "s\<lparr>AllTasks := m\<rparr>"] by (auto simp: case_prod_beta)
qed

lemma submit_state:
  assumes "length (Stages payload) \<le> 3" and "GetAliveWorkers s \<noteq> []"
  shows "\<exists>basePort tasks m. job_tasks (SConfig s) (RsStamp e) payload (GetAliveWorkers s) = (basePort, tasks)
    \<and> fst (HandleSubmitJob e payload s) =
       (job_state e payload basePort tasks (s\<lparr>TaskMetricsMap := []\<rparr>))\<lparr>AllTasks := m\<rparr>"
proof -
  have w: "GetAliveWorkers (s\<lparr>TaskMetricsMap := []\<rparr>) = GetAliveWorkers s"
    by (simp add: GetAliveWorkers_def leader_hostname_def)
  obtain basePort tasks where j: "job_tasks (SConfig s) (RsStamp e) payload (GetAliveWorkers s) = (basePort, tasks)"
    by (cases "job_tasks (SConfig s) (RsStamp e) payload (GetAliveWorkers s)")
  obtain m where "fst (send_all e (build_routing tasks) tasks
      (job_state e payload basePort tasks (s\<lparr>TaskMetricsMap := []\<rparr>)))
    = (job_state e payload basePort tasks (s\<lparr>TaskMetricsMap := []\<rparr>))\<lparr>AllTasks := m\<rparr>"
    using send_all_state by blast
  then show ?thesis using assms by (auto simp: HandleSubmitJob_def Let_def w j case_prod_beta)
qed

lemma submit_fields:
  assumes "length (Stages payload) \<le> 3" and "GetAliveWorkers s \<noteq> []"
  shows "CompletedTaskIDs (fst (HandleSubmitJob e payload s)) = []"
    and "CompletedTasks (fst (HandleSubmitJob e payload s)) = 0"
    and "ExpectedTasks (fst (HandleSubmitJob e payload s)) =
      int (length (snd (job_tasks (SConfig s) (RsStamp e) payload (GetAliveWorkers s))))"
    and "\<not> JobEnded (fst (HandleSubmitJob e payload s))"
proof -
  obtain basePort tasks m where
    j: "job_tasks (SConfig s) (RsStamp e) payload (GetAliveWorkers s) = (basePort, tasks)" and
    h: "fst (HandleSubmitJob e payload s) =
       (job_state e payload basePort tasks (s\<lparr>TaskMetricsMap := []\<rparr>))\<lparr>AllTasks := m\<rparr>"
    using submit_state [OF assms] by blast
  show "CompletedTaskIDs (fst (HandleSubmitJob e payload s)) = []"
    and "CompletedTasks (fst (HandleSubmitJob e payload s)) = 0"
    and "ExpectedTasks (fst (HandleSubmitJob e payload s)) =
      int (length (snd (job_tasks (SConfig s) (RsStamp e) payload (GetAliveWorkers s))))"
    and "\<not> JobEnded (fst (HandleSubmitJob e payload s))"
    by (simp_all add: h j job_state_def)
qed

text \<open>
  C18. Without autoscaling, a run ends exactly when every task of the job has been reported,
  whatever the order of the reports and however often one is repeated. A report of a failed
  task counts like one of success, so a run can be over while a task is being restarted.
\<close>

theorem run_ends_when_all_reported:
  assumes "length (Stages payload) \<le> 3" and "GetAliveWorkers s \<noteq> []" and "0 < NumTasks payload"
    and "ids = set (map TkID (snd (job_tasks (SConfig s) (RsStamp e) payload (GetAliveWorkers s))))"
    and "TcTaskID ` snd ` set reports \<subseteq> ids"
  shows "JobEnded (handle_completions reports (fst (HandleSubmitJob e payload s))) \<longleftrightarrow>
    ids \<subseteq> TcTaskID ` snd ` set reports"
proof -
  let ?tasks = "snd (job_tasks (SConfig s) (RsStamp e) payload (GetAliveWorkers s))"
  let ?s = "fst (HandleSubmitJob e payload s)" and ?r = "TcTaskID ` snd ` set reports"
  note s = submit_fields [OF assms(1,2), of e]
  then have tally: "tally ?s" by (simp add: tally_def)
  have len: "length ?tasks = card ids"
    unfolding assms(4) using job_ids_distinct [of "SConfig s" "RsStamp e" payload "GetAliveWorkers s"]
    by (metis distinct_card length_map)
  have "0 < length ?tasks" using assms(3) by (simp add: job_tasks_slots slots_def)
  then have "0 < card ids" by (simp only: len)
  then have "ids \<noteq> {}" and fin: "finite ids" by (simp_all add: card_gt_0_iff)
  define t where "t = handle_completions reports ?s"
  note t = handle_completions_fields [OF tally, of reports, folded t_def]
  have "CompletedTasks t = int (card ?r)" using tally_card [OF t(1)] by (simp only: t(2) s(1) image_comp) simp
  then have "JobEnded t \<longleftrightarrow> reports \<noteq> [] \<and> card ids \<le> card ?r"
    by (simp only: t(4) s len of_nat_le_iff simp_thms)
  also have "\<dots> \<longleftrightarrow> ids \<subseteq> ?r"
    using assms(5) fin \<open>ids \<noteq> {}\<close> card_mono [of ?r ids] card_seteq [OF fin assms(5)] by auto
  finally show ?thesis by (simp only: t_def)
qed

definition sample_server :: Server where
  "sample_server = \<lparr>SNode = \<lparr>RingID = 1, IsActive = True, NMembership = \<lparr>Members = [1, 2],
       InfoMap = [(1, sample_info 1 Alive 0 0), (2, sample_info 2 Alive 0 0)], roundRobinIndex = 0\<rparr>\<rparr>,
     SConfig = sample_config, Role = ''leader'', ActiveTasks = [], AllTasks = [], TaskMetricsMap = [],
     CurrentJobName = [], CurrentJobDestFile = [], JobTimestamp = [], JobStartTime = 0,
     ExpectedTasks = 0, OriginalTaskCount = 0, CompletedTasks = 0, CompletedTaskIDs = [],
     UpscaledTaskIDs = [], OriginalTasksDone = False, OutputTaskFiles = [], CurrentRoutingTable = None,
     JobEnded = False, AutoScaleEnabled = False, LowWatermark = 0, HighWatermark = 0,
     StageTaskCount = [], LastScaleTime = [], LowRateStart = [], StageConfigs = []\<rparr>"

definition sample_env_rs :: rs_env where
  "sample_env_rs = \<lparr>RsUp = \<lambda>_. True, RsNow = 0, RsStamp = ''t''\<rparr>"

lemma sample_workers: "GetAliveWorkers sample_server = [''node'' @ dec 2]"
  by (simp add: GetAliveWorkers_def leader_hostname_def sample_server_def GetInfoMap_id sample_info_def go_get_def)

lemma sample_job_ids:
  "map TkID (snd (job_tasks cfg stamp sample_payload ws)) =
     [''src-task-0'', ''src-task-1'', ''stage1-task-0'', ''stage1-task-1'']"
proof -
  have "dec_int 0 = ''0''" "dec_int 1 = ''1''"
    by code_simp+
  moreover have "slots 1 2 = [(0, 0), (0, 1), (1, 0), (1, 1)]"
    by code_simp
  ultimately show ?thesis
    by (simp add: job_tasks_slots sample_payload_def)
qed

definition sample_report :: "string \<Rightarrow> bool \<Rightarrow> rs_env \<times> TaskCompletedPayload" where
  "sample_report i ok = (sample_env_rs, \<lparr>TcTaskID = i, TcVM = ''node2'', TcSuccess = ok\<rparr>)"

theorem run_ends_when_all_reported_witness:
  "JobEnded (handle_completions
      [sample_report ''src-task-0'' True, sample_report ''stage1-task-0'' False,
       sample_report ''stage1-task-1'' True, sample_report ''src-task-1'' True]
      (fst (HandleSubmitJob sample_env_rs sample_payload sample_server)))"
  using run_ends_when_all_reported [of sample_payload sample_server
      "{''src-task-0'', ''src-task-1'', ''stage1-task-0'', ''stage1-task-1''}" sample_env_rs
      "[sample_report ''src-task-0'' True, sample_report ''stage1-task-0'' False,
       sample_report ''stage1-task-1'' True, sample_report ''src-task-1'' True]"]
  by (simp add: sample_workers sample_job_ids sample_report_def sample_payload_def [THEN arg_cong, of Stages]
      sample_payload_def [THEN arg_cong, of NumTasks] insert_commute)

end
