(* ===== verification/Rs_Routing.thy ===== *)
theory Rs_Routing
  imports Rs_Leader_Props
begin

text \<open>
  The routing table of the leader as an abstraction of its tasks: for each stage it lists the
  addresses of the tasks of that stage. Submission establishes this, and reports of
  started, completed and failed tasks keep it.
\<close>

section \<open>The relation\<close>

definition stage_tasks :: "int \<Rightarrow> (string, Task) gomap \<Rightarrow> Task list" where
  "stage_tasks stageID m = filter (\<lambda>t. StageID t = stageID) (map snd m)"

definition routes_ok :: "(string, Task) gomap \<Rightarrow> routing \<Rightarrow> bool" where
  "routes_ok m rt =
     (\<forall>stageID. mset (go_get [] rt stageID) = mset (map task_addr (stage_tasks stageID m)))"

definition tasks_ok :: "(string, Task) gomap \<Rightarrow> bool" where
  "tasks_ok m = (go_map m \<and> (\<forall>(k, t) \<in> set m. TkID t = k))"

definition routing_inv :: "Server \<Rightarrow> bool" where
  "routing_inv s =
     (tasks_ok (AllTasks s) \<and>
      (case CurrentRoutingTable s of None \<Rightarrow> False | Some rt \<Rightarrow> routes_ok (AllTasks s) rt))"

lemma update_in_place:
  assumes "map_of m k = Some v"
  shows "\<exists>xs ys. m = xs @ (k, v) # ys \<and> (\<forall>v'. AList.update k v' m = xs @ (k, v') # ys)"
  using assms
proof (induction m)
  case (Cons p m)
  obtain k0 v0 where p: "p = (k0, v0)" by (cases p)
  show ?case
  proof (cases "k0 = k")
    case True
    then have "p # m = [] @ (k, v) # m \<and> (\<forall>v'. AList.update k v' (p # m) = [] @ (k, v') # m)"
      using Cons.prems p by simp
    then show ?thesis by blast
  next
    case False
    then obtain xs ys where "m = xs @ (k, v) # ys" "\<forall>v'. AList.update k v' m = xs @ (k, v') # ys"
      using Cons p by auto
    then have "p # m = (p # xs) @ (k, v) # ys \<and> (\<forall>v'. AList.update k v' (p # m) = (p # xs) @ (k, v') # ys)"
      using False p by simp
    then show ?thesis by blast
  qed
qed simp

lemma tasks_ok_update: "tasks_ok m \<Longrightarrow> TkID t = k \<Longrightarrow> tasks_ok (AList.update k t m)"
proof -
  have "set (AList.update k t m) \<subseteq> insert (k, t) (set m)" by (induction m) auto
  then show "tasks_ok m \<Longrightarrow> TkID t = k \<Longrightarrow> tasks_ok (AList.update k t m)"
    by (auto simp: tasks_ok_def)
qed

lemma tasks_ok_id: "tasks_ok m \<Longrightarrow> map_of m k = Some t \<Longrightarrow> TkID t = k"
  by (auto simp: tasks_ok_def dest: map_of_SomeD)

text \<open>Changing a task where it stands, or moving it together with its route.\<close>

lemma stage_tasks_update:
  assumes "map_of m k = Some t" and "StageID t' = StageID t"
  shows "mset (map task_addr (stage_tasks st (AList.update k t' m))) =
    (if st = StageID t
     then mset (map task_addr (stage_tasks st m)) - {#task_addr t#} + {#task_addr t'#}
     else mset (map task_addr (stage_tasks st m)))"
proof -
  obtain xs ys where m: "m = xs @ (k, t) # ys" "AList.update k t' m = xs @ (k, t') # ys"
    using update_in_place [OF assms(1)] by blast
  show ?thesis unfolding stage_tasks_def m(2) using assms(2) by (simp add: m(1))
qed

lemma routes_ok_update:
  assumes "routes_ok m rt" and "map_of m k = Some t"
    and "StageID t' = StageID t" and "task_addr t' = task_addr t"
  shows "routes_ok (AList.update k t' m) rt"
proof -
  have "task_addr t \<in># mset (map task_addr (stage_tasks (StageID t) m))"
    using assms(2) by (force simp: stage_tasks_def dest: map_of_SomeD)
  then show ?thesis
    using assms(1,4) unfolding routes_ok_def stage_tasks_update [OF assms(2,3)] by simp
qed

lemma mset_replace_first: "old \<in> set xs \<Longrightarrow> mset (replace_first old new xs) = mset xs - {#old#} + {#new#}"
  by (induction xs) auto

definition reroute :: "int \<Rightarrow> string \<Rightarrow> string \<Rightarrow> routing \<Rightarrow> routing" where
  "reroute st old new rt =
     (case map_of rt st of None \<Rightarrow> rt | Some targets \<Rightarrow> AList.update st (replace_first old new targets) rt)"

lemma go_get_reroute:
  "go_get [] (reroute st old new rt) st' =
     (if st' = st then replace_first old new (go_get [] rt st) else go_get [] rt st')"
  by (auto simp: reroute_def go_get_def split: option.splits)

lemma routes_ok_move:
  assumes "routes_ok m rt" and "map_of m k = Some t" and "StageID t' = StageID t"
  shows "routes_ok (AList.update k t' m) (reroute (StageID t) (task_addr t) (task_addr t') rt)"
proof -
  have "task_addr t \<in># mset (map task_addr (stage_tasks (StageID t) m))"
    using assms(2) by (force simp: stage_tasks_def dest: map_of_SomeD)
  then have "task_addr t \<in> set (go_get [] rt (StageID t))"
    using assms(1) unfolding routes_ok_def by (metis set_mset_mset)
  then show ?thesis
    using assms(1) unfolding routes_ok_def stage_tasks_update [OF assms(2,3)] go_get_reroute
    by (simp add: mset_replace_first)
qed

section \<open>The handlers keep it\<close>

lemma routing_inv_task_update:
  assumes "routing_inv s" and "map_of (AllTasks s) k = Some t"
    and "StageID t' = StageID t" and "task_addr t' = task_addr t" and "TkID t' = TkID t"
  shows "routing_inv (s\<lparr>AllTasks := AList.update k t' (AllTasks s)\<rparr>)"
  using assms tasks_ok_id [of "AllTasks s" k t] tasks_ok_update [of "AllTasks s" t' k]
    routes_ok_update [OF _ assms(2-4)]
  by (auto simp: routing_inv_def split: option.splits)

lemma HandleTaskStarted_routing:
  assumes "routing_inv s"
  shows "routing_inv (HandleTaskStarted task s)"
proof (cases "map_of (AllTasks s) (TkID task)")
  case (Some t)
  show ?thesis
    unfolding HandleTaskStarted_def Some option.case by (rule routing_inv_task_update [OF assms Some]) (simp_all add: task_addr_def)
qed (simp add: HandleTaskStarted_def assms)

lemma set_task_result_routing:
  assumes "routing_inv s"
  shows "routing_inv (set_task_result p s)"
proof (cases "map_of (AllTasks s) (TcTaskID p)")
  case (Some t)
  show ?thesis
    unfolding set_task_result_def Some option.case by (rule routing_inv_task_update [OF assms Some]) (simp_all add: task_addr_def)
qed (simp add: set_task_result_def assms)

lemma routing_inv_cong:
  "AllTasks s' = AllTasks s \<Longrightarrow> CurrentRoutingTable s' = CurrentRoutingTable s \<Longrightarrow> routing_inv s' = routing_inv s"
  by (simp add: routing_inv_def split: option.split)

lemma completed_end_tables [simp]:
  "AllTasks (fst (completed_end c s)) = AllTasks s"
  "CurrentRoutingTable (fst (completed_end c s)) = CurrentRoutingTable s"
  by (simp_all add: completed_end_def)

lemma mark_completed_tables [simp]:
  "AllTasks (mark_completed t s) = AllTasks s"
  "CurrentRoutingTable (mark_completed t s) = CurrentRoutingTable s"
  by (simp_all add: mark_completed_def)

lemma completed_count_tables [simp]:
  "AllTasks (fst (completed_count e p s)) = AllTasks (set_task_result p s)"
  "CurrentRoutingTable (fst (completed_count e p s)) = CurrentRoutingTable (set_task_result p s)"
  by (simp_all add: completed_count_state Let_def)

lemma HandleTaskCompleted_routing:
  assumes "routing_inv s"
  shows "routing_inv (fst (HandleTaskCompleted e p s))"
proof -
  have "fst (HandleTaskCompleted e p s) =
      fst (completed_end (fst (snd (completed_count e p s))) (fst (completed_count e p s)))"
    by (simp add: HandleTaskCompleted_def case_prod_beta)
  then have "routing_inv (fst (HandleTaskCompleted e p s)) = routing_inv (set_task_result p s)"
    by (intro routing_inv_cong) simp_all
  then show ?thesis using set_task_result_routing [OF assms] by simp
qed

lemma restart_task_simps [simp]:
  "TkID (restart_task w t) = TkID t" "StageID (restart_task w t) = StageID t"
  "TkPort (restart_task w t) = TkPort t" "AssignedWorker (restart_task w t) = w"
  by (simp_all add: restart_task_def)

text \<open>A worker reports the failure of a task under its own name.\<close>

definition report_failure :: "rs_env \<Rightarrow> string \<Rightarrow> Server \<Rightarrow> Server \<times> rs_out list" where
  "report_failure e taskID s =
     HandleTaskFailure e \<lparr>TfTaskID = taskID,
       TfVM = (case map_of (AllTasks s) taskID of None \<Rightarrow> [] | Some t \<Rightarrow> AssignedWorker t)\<rparr> s"

lemma AList_update_twice: "AList.update k v (AList.update k v' m) = AList.update k v m"
  by (induction m) auto

lemma report_failure_state:
  assumes "routing_inv s" and "map_of (AllTasks s) taskID = Some task" and "\<not> JobEnded s"
    and "GetAliveWorkers s = w # ws"
  shows "fst (report_failure e taskID s) =
    s\<lparr>AllTasks := AList.update taskID (restart_task w task) (AllTasks s),
      CurrentRoutingTable := Some (reroute (StageID task) (task_addr task)
        (task_addr (restart_task w task)) (the_routing s))\<rparr>"
proof -
  obtain rt where rt: "CurrentRoutingTable s = Some rt"
    using assms(1) by (auto simp: routing_inv_def split: option.splits)
  have taskid: "TkID task = taskID" using assms(1,2) by (auto simp: routing_inv_def dest: tasks_ok_id)
  let ?s1 = "s\<lparr>AllTasks := AList.update taskID (task\<lparr>TkState := TaskStateFailed\<rparr>) (AllTasks s)\<rparr>"
  have w: "GetAliveWorkers ?s1 = w # ws" using assms(4) by (simp add: GetAliveWorkers_def leader_hostname_def)
  show ?thesis
    using assms(2,3) w rt taskid
    by (simp add: report_failure_def HandleTaskFailure_def Let_def the_routing_def reroute_def
        sendScheduleTask_def task_addr_def AList_update_twice split: option.split)
qed

lemma report_failure_routing:
  assumes "routing_inv s"
  shows "routing_inv (fst (report_failure e taskID s))"
proof (cases "map_of (AllTasks s) taskID")
  case None
  then show ?thesis using assms by (simp add: report_failure_def HandleTaskFailure_def)
next
  case (Some task)
  consider "JobEnded s" | "\<not> JobEnded s" "GetAliveWorkers s = []" | w ws where "\<not> JobEnded s" "GetAliveWorkers s = w # ws"
    by (cases "GetAliveWorkers s") auto
  then show ?thesis
  proof cases
    case 1
    then show ?thesis using assms by (simp add: report_failure_def HandleTaskFailure_def)
  next
    case 2
    let ?s1 = "s\<lparr>AllTasks := AList.update taskID (task\<lparr>TkState := TaskStateFailed\<rparr>) (AllTasks s)\<rparr>"
    have "GetAliveWorkers ?s1 = []" using 2(2) by (simp add: GetAliveWorkers_def leader_hostname_def)
    then have "fst (report_failure e taskID s) = ?s1"
      using Some 2(1) by (simp add: report_failure_def HandleTaskFailure_def Let_def)
    then show ?thesis using routing_inv_task_update [OF assms Some, of "task\<lparr>TkState := TaskStateFailed\<rparr>"]
      by (simp add: task_addr_def)
  next
    case (3 w ws)
    have rt: "CurrentRoutingTable s = Some (the_routing s)" "routes_ok (AllTasks s) (the_routing s)"
      "tasks_ok (AllTasks s)"
      using assms by (auto simp: routing_inv_def the_routing_def split: option.splits)
    then show ?thesis
      unfolding report_failure_state [OF assms Some 3]
      using routes_ok_move [OF rt(2) Some, of "restart_task w task"] tasks_ok_id [OF rt(3) Some]
      by (simp add: routing_inv_def tasks_ok_update)
  qed
qed

section \<open>A job from its submission on\<close>

lemma build_routing_lookup:
  "go_get [] (build_routing tasks) st = map task_addr (filter (\<lambda>t. StageID t = st) tasks)"
proof -
  have "go_get [] (fold (\<lambda>task rt. AList.update (StageID task) (go_get [] rt (StageID task) @ [task_addr task]) rt) tasks rt) st
      = go_get [] rt st @ map task_addr (filter (\<lambda>t. StageID t = st) tasks)" for rt
    by (induction tasks arbitrary: rt) (auto simp: go_get_update)
  then show ?thesis by (simp add: build_routing_def go_get_def)
qed

lemma send_all_up:
  assumes "\<forall>a. RsUp e a" and "distinct (map TkID tasks)" and "set (map TkID tasks) \<inter> set (go_keys (AllTasks s)) = {}"
  shows "fst (send_all e rt tasks s) = s\<lparr>AllTasks := AllTasks s @ map (\<lambda>t. (TkID t, t)) tasks\<rparr>"
  using assms(2,3)
proof (induction tasks arbitrary: s)
  case (Cons t tasks)
  have "fst (sendScheduleTask e t rt s) = s\<lparr>AllTasks := AllTasks s @ [(TkID t, t)]\<rparr>"
    using Cons.prems assms(1) by (auto simp: sendScheduleTask_def Let_def update_append_new)
  then show ?case
    using Cons.IH [of "s\<lparr>AllTasks := AllTasks s @ [(TkID t, t)]\<rparr>"] Cons.prems
    by (auto simp: case_prod_beta)
qed simp

lemma submit_routing:
  assumes "length (Stages payload) \<le> 3" and "GetAliveWorkers s \<noteq> []"
    and "AllTasks s = []" and "\<forall>a. RsUp e a"
  shows "routing_inv (fst (HandleSubmitJob e payload s))"
proof -
  obtain basePort tasks where j: "job_tasks (SConfig s) (RsStamp e) payload (GetAliveWorkers s) = (basePort, tasks)"
    by (cases "job_tasks (SConfig s) (RsStamp e) payload (GetAliveWorkers s)")
  have ids: "distinct (map TkID tasks)"
    using job_ids_distinct [of "SConfig s" "RsStamp e" payload "GetAliveWorkers s"] by (simp add: j)
  let ?s1 = "job_state e payload basePort tasks (s\<lparr>TaskMetricsMap := []\<rparr>)"
  have w: "GetAliveWorkers (s\<lparr>TaskMetricsMap := []\<rparr>) = GetAliveWorkers s"
    by (simp add: GetAliveWorkers_def leader_hostname_def)
  have a: "AllTasks ?s1 = []" "CurrentRoutingTable ?s1 = Some (build_routing tasks)"
    using assms(3) by (simp_all add: job_state_def)
  have "fst (HandleSubmitJob e payload s) = fst (send_all e (build_routing tasks) tasks ?s1)"
    using assms(1,2) by (simp add: HandleSubmitJob_def Let_def w j case_prod_beta)
  then have st: "AllTasks (fst (HandleSubmitJob e payload s)) = map (\<lambda>t. (TkID t, t)) tasks"
    "CurrentRoutingTable (fst (HandleSubmitJob e payload s)) = Some (build_routing tasks)"
    using send_all_up [OF assms(4) ids, of ?s1 "build_routing tasks"] a by simp_all
  have "tasks_ok (map (\<lambda>t. (TkID t, t)) tasks)" using ids by (auto simp: tasks_ok_def comp_def)
  moreover have "map (snd \<circ> (\<lambda>t. (TkID t, t))) tasks = tasks" by (simp add: comp_def)
  ultimately show ?thesis
    by (simp add: routing_inv_def st routes_ok_def build_routing_lookup stage_tasks_def)
qed

datatype report = RStarted Task | RCompleted TaskCompletedPayload | RFailed string

definition report_step :: "rs_env \<times> report \<Rightarrow> Server \<Rightarrow> Server" where
  "report_step er s =
     (case snd er of
        RStarted task \<Rightarrow> HandleTaskStarted task s
      | RCompleted p \<Rightarrow> fst (HandleTaskCompleted (fst er) p s)
      | RFailed taskID \<Rightarrow> fst (report_failure (fst er) taskID s))"

interpretation routing_machine: invariant_machine report_step "\<lambda>_. True" routing_inv
  by unfold_locales (simp add: report_step_def HandleTaskStarted_routing HandleTaskCompleted_routing
      report_failure_routing split: report.split)

text \<open>
  C33. The routing table is the placement of the tasks: after a submission to a leader without
  tasks whose workers all answer, and any reports of started, completed and failed tasks
  with the restarts these cause, asking for a stage returns the addresses of exactly the
  tasks of that stage, each with its present worker.
\<close>

theorem routing_tracks_tasks:
  assumes "length (Stages payload) \<le> 3" and "GetAliveWorkers s \<noteq> []"
    and "AllTasks s = []" and "\<forall>a. RsUp e a"
    and "s' = fold report_step reports (fst (HandleSubmitJob e payload s))"
  shows "mset (HandleGetTaskLocation stageID s') =
    mset (map task_addr (filter (\<lambda>t. StageID t = stageID) (map snd (AllTasks s'))))"
proof -
  have "routing_inv s'"
    unfolding assms(5) by (rule routing_machine.run_inv [OF submit_routing [OF assms(1-4)]]) (simp add: list_all_iff)
  then show ?thesis
    by (auto simp: routing_inv_def routes_ok_def HandleGetTaskLocation_def the_routing_def stage_tasks_def
        split: option.splits)
qed

lemma sample_server_tasks: "AllTasks sample_server = []"
  by (simp add: sample_server_def)

theorem routing_tracks_tasks_witness:
  "mset (HandleGetTaskLocation 1 (report_step (sample_env_rs, RFailed ''stage1-task-0'')
      (fst (HandleSubmitJob sample_env_rs sample_payload sample_server)))) =
    mset (map task_addr (filter (\<lambda>t. StageID t = 1) (map snd (AllTasks
      (report_step (sample_env_rs, RFailed ''stage1-task-0'')
        (fst (HandleSubmitJob sample_env_rs sample_payload sample_server)))))))"
  by (rule routing_tracks_tasks [of sample_payload sample_server sample_env_rs _ "[(sample_env_rs, RFailed ''stage1-task-0'')]"])
    (simp_all add: sample_payload_def sample_workers sample_server_tasks sample_env_rs_def)

end
