(* ===== verification/Rs_Scaling.thy ===== *)
theory Rs_Scaling
  imports Rs_Leader_Props
begin

text \<open>
  Properties of autoscaling: what a change of a stage does to the counts by which the
  leader decides that a run is over, and the bounds within which a stage is scaled.
\<close>

text \<open>One scaling action: the decision's \<open>scaleStage\<close> and the goroutine it starts.\<close>

definition scale_once :: "rs_env \<Rightarrow> int \<Rightarrow> int \<Rightarrow> Server \<Rightarrow> Server" where
  "scale_once e stageID delta s =
     (case scaleStage (RsNow e) stageID delta s of
        (s1, None) \<Rightarrow> s1 | (s1, Some j) \<Rightarrow> fst (run_scale_job e j s1))"

section \<open>The counts\<close>

lemma sendScheduleTask_counts [simp]:
  "ExpectedTasks (fst (sendScheduleTask e t rt s)) = ExpectedTasks s"
  "CompletedTaskIDs (fst (sendScheduleTask e t rt s)) = CompletedTaskIDs s"
  "CompletedTasks (fst (sendScheduleTask e t rt s)) = CompletedTasks s"
  "StageTaskCount (fst (sendScheduleTask e t rt s)) = StageTaskCount s"
  "StageConfigs (fst (sendScheduleTask e t rt s)) = StageConfigs s"
  "SNode (fst (sendScheduleTask e t rt s)) = SNode s"
  by (simp_all add: sendScheduleTask_def Let_def)

lemma GetAliveWorkers_node: "SNode s = SNode s' \<Longrightarrow> GetAliveWorkers s = GetAliveWorkers s'"
  by (simp add: GetAliveWorkers_def leader_hostname_def)

lemma find_stage_config:
  "find (\<lambda>c. ScStageID c = st) (StageConfigs s) = Some cfg \<Longrightarrow> ScStageID cfg = st"
  by (auto simp: find_Some_iff)

lemma scaled_task_id: "TkID (scaled_task e s cfg i ws) = scaled_task_id (ScStageID cfg) i"
  by (simp add: scaled_task_def scaled_base_def Let_def)

lemma addTask_counts:
  fixes s e st i
  assumes "find (\<lambda>c. ScStageID c = st) (StageConfigs s) = Some cfg" and "GetAliveWorkers s \<noteq> []"
  defines "s' \<equiv> fst (addTaskToStage e st i s)"
  shows "ExpectedTasks s' = ExpectedTasks s + 1" "CompletedTaskIDs s' = CompletedTaskIDs s"
    "CompletedTasks s' = CompletedTasks s" "StageTaskCount s' = StageTaskCount s"
    "StageConfigs s' = StageConfigs s" "SNode s' = SNode s" "JobEnded s' = JobEnded s"
    "go_has (AllTasks s') (scaled_task_id st i)"
  using assms(1,2) find_stage_config [OF assms(1)]
  by (simp_all add: s'_def addTaskToStage_def Let_def case_prod_beta)
    (simp add: sendScheduleTask_def Let_def go_has_def scaled_task_id)

lemma removeTask_counts:
  fixes s e st i
  assumes "go_has (AllTasks s) (scaled_task_id st i)"
  defines "s' \<equiv> fst (removeTaskFromStage e st i s)"
  shows "ExpectedTasks s' = ExpectedTasks s" "set (CompletedTaskIDs s') = insert (scaled_task_id st i) (set (CompletedTaskIDs s))"
    "tally s \<Longrightarrow> tally s'" "StageTaskCount s' = StageTaskCount s" "StageConfigs s' = StageConfigs s"
    "SNode s' = SNode s" "JobEnded s' = JobEnded s"
proof -
  obtain t where "map_of (AllTasks s) (scaled_task_id st i) = Some t" using assms(1) by (auto simp: go_has_def)
  then obtain rt where s': "s' = mark_completed (scaled_task_id st i) (s\<lparr>CurrentRoutingTable := rt\<rparr>)"
    by (simp add: s'_def removeTaskFromStage_def Let_def)
  show "ExpectedTasks s' = ExpectedTasks s" "StageTaskCount s' = StageTaskCount s"
    "StageConfigs s' = StageConfigs s" "SNode s' = SNode s" "JobEnded s' = JobEnded s"
    by (simp_all add: s' mark_completed_def)
  show "set (CompletedTaskIDs s') = insert (scaled_task_id st i) (set (CompletedTaskIDs s))"
    by (simp add: s' mark_completed_ids)
  show "tally s'" if "tally s"
    using that unfolding s' by (intro mark_completed_tally) (simp add: tally_def)
qed

lemma scaleStage_counts:
  fixes s now st d
  assumes "1 \<le> go_get 0 (StageTaskCount s) st + d"
  defines "s' \<equiv> fst (scaleStage now st d s)"
  shows "ExpectedTasks s' = ExpectedTasks s" "CompletedTaskIDs s' = CompletedTaskIDs s"
    "CompletedTasks s' = CompletedTasks s" "go_get 0 (StageTaskCount s') st = go_get 0 (StageTaskCount s) st + d"
    "StageConfigs s' = StageConfigs s" "SNode s' = SNode s" "JobEnded s' = JobEnded s" "AllTasks s' = AllTasks s"
    "snd (scaleStage now st d s) = Some (if d > 0 then AddTask st (go_get 0 (StageTaskCount s) st + d - 1)
      else RemoveTask st (go_get 0 (StageTaskCount s) st - 1))"
  using assms(1) by (simp_all add: s'_def scaleStage_def Let_def go_get_update)

text \<open>What the two directions do to the state that matters for the end of the run.\<close>

definition scalable :: "int \<Rightarrow> Server \<Rightarrow> bool" where
  "scalable st s = (tally s \<and> find (\<lambda>c. ScStageID c = st) (StageConfigs s) \<noteq> None
     \<and> GetAliveWorkers s \<noteq> [] \<and> \<not> JobEnded s \<and> 1 \<le> go_get 0 (StageTaskCount s) st)"

lemma scale_up_counts:
  fixes s e st
  assumes "scalable st s"
  defines "n \<equiv> go_get 0 (StageTaskCount s) st" and "s' \<equiv> scale_once e st 1 s"
  shows "scalable st s'" "ExpectedTasks s' = ExpectedTasks s + 1" "CompletedTaskIDs s' = CompletedTaskIDs s"
    "go_get 0 (StageTaskCount s') st = n + 1" "go_has (AllTasks s') (scaled_task_id st n)"
proof -
  obtain cfg where cfg: "find (\<lambda>c. ScStageID c = st) (StageConfigs s) = Some cfg"
    using assms(1) by (auto simp: scalable_def)
  let ?s1 = "fst (scaleStage (RsNow e) st 1 s)"
  have n: "1 \<le> go_get 0 (StageTaskCount s) st + 1" using assms(1) by (simp add: scalable_def)
  note sc = scaleStage_counts [OF n, of "RsNow e"]
  have s': "s' = fst (addTaskToStage e st n ?s1)"
    using sc(9) by (simp add: s'_def n_def scale_once_def run_scale_job_def case_prod_beta split: option.splits)
  have w: "GetAliveWorkers ?s1 \<noteq> []"
    using assms(1) GetAliveWorkers_node [OF sc(6)] by (simp add: scalable_def)
  note ad = addTask_counts [OF _ w, of st cfg e n, folded s', unfolded sc(5), OF cfg]
  show "ExpectedTasks s' = ExpectedTasks s + 1" "CompletedTaskIDs s' = CompletedTaskIDs s"
    "go_get 0 (StageTaskCount s') st = n + 1" "go_has (AllTasks s') (scaled_task_id st n)"
    using ad sc by (simp_all add: n_def)
  show "scalable st s'"
    using assms(1) ad sc GetAliveWorkers_node [of s' s] by (simp add: scalable_def tally_def)
qed

lemma scale_down_counts:
  fixes s e st
  assumes "scalable st s" and "2 \<le> go_get 0 (StageTaskCount s) st"
    and "go_has (AllTasks s) (scaled_task_id st (go_get 0 (StageTaskCount s) st - 1))"
  defines "n \<equiv> go_get 0 (StageTaskCount s) st" and "s' \<equiv> scale_once e st (- 1) s"
  shows "scalable st s'" "ExpectedTasks s' = ExpectedTasks s"
    "set (CompletedTaskIDs s') = insert (scaled_task_id st (n - 1)) (set (CompletedTaskIDs s))"
    "go_get 0 (StageTaskCount s') st = n - 1"
proof -
  let ?s1 = "fst (scaleStage (RsNow e) st (- 1) s)"
  have n: "1 \<le> go_get 0 (StageTaskCount s) st + - 1" using assms(2) by simp
  note sc = scaleStage_counts [OF n, of "RsNow e"]
  have s': "s' = fst (removeTaskFromStage e st (n - 1) ?s1)"
    using sc(9) by (simp add: s'_def n_def scale_once_def run_scale_job_def case_prod_beta split: option.splits)
  have h: "go_has (AllTasks ?s1) (scaled_task_id st (n - 1))" using assms(3) sc(8) by (simp add: n_def)
  note rm = removeTask_counts [OF h, of e, folded s']
  have "tally ?s1" using assms(1) sc(2,3) by (simp add: scalable_def tally_def)
  then show "scalable st s'"
    using assms(1,2) rm sc GetAliveWorkers_node [of s' s] by (simp add: scalable_def)
  show "ExpectedTasks s' = ExpectedTasks s"
    "set (CompletedTaskIDs s') = insert (scaled_task_id st (n - 1)) (set (CompletedTaskIDs s))"
    "go_get 0 (StageTaskCount s') st = n - 1"
    using rm sc by (simp_all add: n_def)
qed

section \<open>A run that never ends\<close>

text \<open>
  Scaling a stage up, down and up again leaves a run that can never end: the third step
  reuses the task id that the second one counted as completed, so two more tasks are
  expected but only one more id can be reported. Whatever reports of these tasks arrive
  afterwards, the leader does not log \<open>RUN END\<close>.
\<close>

theorem scale_cycle_never_ends:
  assumes "scalable st s" and "set (CompletedTaskIDs s) \<subseteq> ids" and "finite ids"
    and "int (card ids) \<le> ExpectedTasks s"
    and "s' = scale_once e3 st 1 (scale_once e2 st (- 1) (scale_once e1 st 1 s))"
    and "TcTaskID ` snd ` set reports \<subseteq> insert (scaled_task_id st (go_get 0 (StageTaskCount s) st)) ids"
  shows "\<not> JobEnded (handle_completions reports s')"
proof -
  define n where "n = go_get 0 (StageTaskCount s) st"
  define u where "u = scaled_task_id st n"
  define s1 where "s1 = scale_once e1 st 1 s"
  define s2 where "s2 = scale_once e2 st (- 1) s1"
  note a = scale_up_counts [OF assms(1), of e1, folded s1_def n_def]
  have n: "1 \<le> n" using assms(1) by (simp add: scalable_def n_def)
  have two: "2 \<le> go_get 0 (StageTaskCount s1) st" using a(4) n by simp
  have has: "go_has (AllTasks s1) (scaled_task_id st (go_get 0 (StageTaskCount s1) st - 1))" using a(4,5) by simp
  note b = scale_down_counts [OF a(1) two has, of e2, folded s2_def, unfolded a(4)]
  note c = scale_up_counts [OF b(1), of e3]
  have s': "s' = scale_once e3 st 1 s2" by (simp add: assms(5) s1_def s2_def)
  have e: "ExpectedTasks s' = ExpectedTasks s + 2" using a(2) b(2) c(2) s' by simp
  have i: "set (CompletedTaskIDs s') = insert u (set (CompletedTaskIDs s))" using a(3) b(3) c(3) s' by (simp add: u_def)
  have t: "tally s'" "\<not> JobEnded s'" using c(1) s' by (simp_all add: scalable_def)
  define r where "r = handle_completions reports s'"
  note f = handle_completions_fields [OF t(1), of reports, folded r_def]
  have "set (CompletedTaskIDs r) \<subseteq> insert u ids"
    using f(2) i assms(2,6) unfolding u_def n_def by (simp add: image_comp) blast
  then have "card (set (CompletedTaskIDs r)) \<le> card (insert u ids)" by (intro card_mono) (simp_all add: assms(3))
  also have "\<dots> \<le> card ids + 1" by (simp add: card_insert_if assms(3))
  finally have "CompletedTasks r < ExpectedTasks s'" using tally_card [OF f(1)] assms(4) e by simp
  then show ?thesis using f(4) t(2) by (simp add: r_def)
qed

lemma submit_stage_count:
  assumes "length (Stages payload) \<le> 3" and "GetAliveWorkers s \<noteq> []" and "k < length (Stages payload)"
  shows "go_get 0 (StageTaskCount (fst (HandleSubmitJob e payload s))) (int k + 1) = NumTasks payload"
proof -
  obtain basePort tasks m where
    h: "fst (HandleSubmitJob e payload s) =
       (job_state e payload basePort tasks (s\<lparr>TaskMetricsMap := []\<rparr>))\<lparr>AllTasks := m\<rparr>"
    using submit_state [OF assms(1,2)] by blast
  have "map_of (map (\<lambda>i. (int i + 1, NumTasks payload)) [0..<length (Stages payload)]) (int k + 1)
      = Some (NumTasks payload)"
    using assms(3) by (intro map_of_is_SomeI) (auto simp: distinct_map inj_on_def comp_def)
  then show ?thesis by (simp add: h job_state_def go_get_def)
qed

lemma submit_scalable:
  assumes "length (Stages payload) \<le> 3" and "GetAliveWorkers s \<noteq> []"
    and "1 \<le> NumTasks payload" and "k < length (Stages payload)"
  shows "scalable (int k + 1) (fst (HandleSubmitJob e payload s))"
proof -
  obtain basePort tasks m where
    h: "fst (HandleSubmitJob e payload s) =
       (job_state e payload basePort tasks (s\<lparr>TaskMetricsMap := []\<rparr>))\<lparr>AllTasks := m\<rparr>"
    using submit_state [OF assms(1,2)] by blast
  let ?s = "fst (HandleSubmitJob e payload s)"
  have f: "StageConfigs ?s = map (\<lambda>(i, opExe). stage_config payload basePort i opExe)
       (zip [0..<length (Stages payload)] (Stages payload))"
    "SNode ?s = SNode s"
    by (simp_all add: h job_state_def)
  have "stage_config payload basePort k (Stages payload ! k) \<in> set (StageConfigs ?s)"
    unfolding f(1) using assms(4) by (force simp: set_zip)
  then have "find (\<lambda>c. ScStageID c = int k + 1) (StageConfigs ?s) \<noteq> None"
    by (auto simp: find_None_iff stage_config_def)
  then show ?thesis
    using assms(2,3) submit_fields [OF assms(1,2), of e] GetAliveWorkers_node [OF f(2)]
      submit_stage_count [OF assms(1,2,4), of e]
    by (simp add: scalable_def tally_def)
qed

definition sample_payload2 :: JobSubmitPayload where
  "sample_payload2 = sample_payload\<lparr>Stages := [''grep'', ''count''], AutoScale := True\<rparr>"

lemma sample_payload2_simps [simp]: "length (Stages sample_payload2) = 2" "NumTasks sample_payload2 = 2"
  by (simp_all add: sample_payload2_def sample_payload_def)

definition sample_ids2 :: "string list" where
  "sample_ids2 = map TkID (snd (job_tasks sample_config ''t'' sample_payload2 [''node'' @ dec 2]))"

theorem scale_cycle_never_ends_witness:
  "\<not> JobEnded (handle_completions (map (\<lambda>i. sample_report i True) sample_ids2)
      (scale_once sample_env_rs 2 1 (scale_once sample_env_rs 2 (- 1) (scale_once sample_env_rs 2 1
        (fst (HandleSubmitJob sample_env_rs sample_payload2 sample_server))))))"
proof -
  let ?s = "fst (HandleSubmitJob sample_env_rs sample_payload2 sample_server)"
  have w: "GetAliveWorkers sample_server \<noteq> []" by (simp add: sample_workers)
  have j: "map TkID (snd (job_tasks (SConfig sample_server) (RsStamp sample_env_rs) sample_payload2
      (GetAliveWorkers sample_server))) = sample_ids2"
    by (simp add: sample_ids2_def sample_workers) (simp add: sample_server_def sample_env_rs_def)
  have sc: "scalable 2 ?s" using submit_scalable [OF _ w, of sample_payload2 1 sample_env_rs] by simp
  have f: "CompletedTaskIDs ?s = []" "ExpectedTasks ?s = int (length sample_ids2)"
    using submit_fields [OF _ w, of sample_payload2 sample_env_rs] arg_cong [OF j, of length] by simp_all
  show ?thesis
    by (rule scale_cycle_never_ends [OF sc, of "set sample_ids2"])
      (use card_length [of sample_ids2] in \<open>auto simp: f sample_report_def\<close>)
qed

section \<open>Removal\<close>

text \<open>
  The forced kill at the end of a removal never happens: the task was marked as completed
  when its removal began and nothing but the next submission unmarks it, so after the grace
  period the process is left running even if it ignored the EOF markers.
\<close>

theorem removal_never_kills:
  assumes "go_has (AllTasks s) (scaled_task_id st i)" and "tally s"
  shows "snd (removal_cleanup e (scaled_task_id st i) worker
    (handle_completions reports (fst (removeTaskFromStage e' st i s)))) = []"
proof -
  note rm = removeTask_counts [OF assms(1), of e']
  have "scaled_task_id st i \<in> set (CompletedTaskIDs (handle_completions reports (fst (removeTaskFromStage e' st i s))))"
    using handle_completions_fields(2) [OF rm(3) [OF assms(2)], of reports] rm(2) by simp
  then show ?thesis by (simp add: removal_cleanup_def isTaskCompleted_def Let_def)
qed

section \<open>Bounds of the decision\<close>

text \<open>What a decision \<open>(s', j)\<close> taken at \<open>now\<close> in \<open>s\<close> may be: none, or one step of one stage.\<close>

definition sane_decision :: "int \<Rightarrow> int \<Rightarrow> Server \<Rightarrow> Server \<times> scale_job option \<Rightarrow> bool" where
  "sane_decision now cooldown s r =
     (case snd r of
        None \<Rightarrow> StageTaskCount (fst r) = StageTaskCount s \<and> LastScaleTime (fst r) = LastScaleTime s
      | Some j \<Rightarrow>
          \<exists>st > 1. let n = go_get 0 (StageTaskCount s) st in
            (\<forall>t. map_of (LastScaleTime s) st = Some t \<longrightarrow> cooldown \<le> now - t)
            \<and> LastScaleTime (fst r) = AList.update st now (LastScaleTime s)
            \<and> (j = AddTask st n \<and> StageTaskCount (fst r) = AList.update st (n + 1) (StageTaskCount s)
               \<or> j = RemoveTask st (n - 1) \<and> 2 \<le> n
                 \<and> StageTaskCount (fst r) = AList.update st (n - 1) (StageTaskCount s)))"

lemma sane_decision_cong:
  "StageTaskCount s = StageTaskCount s' \<Longrightarrow> LastScaleTime s = LastScaleTime s' \<Longrightarrow>
   sane_decision now cd s r = sane_decision now cd s' r"
  unfolding sane_decision_def by (simp only:)

lemma scaleStage_sane:
  assumes "st > 1" and "\<forall>t. map_of (LastScaleTime s) st = Some t \<longrightarrow> cd \<le> now - t"
    and "d = 1 \<or> d = - 1 \<and> 1 < go_get 0 (StageTaskCount s) st"
    and "StageTaskCount s' = StageTaskCount s" and "LastScaleTime s' = LastScaleTime s"
  shows "sane_decision now cd s (scaleStage now st d s')"
  using assms by (auto simp: sane_decision_def scaleStage_def Let_def)

lemma sane_decision_upd:
  "sane_decision now cd s (s1, j) \<Longrightarrow> sane_decision now cd s (s1\<lparr>LowRateStart := m\<rparr>, j)"
  by (cases j) (simp_all add: sane_decision_def)

lemma scale_loop_sane: "sane_decision now cd s (scale_loop now cd lw hw sts s)"
proof (induction sts arbitrary: s)
  case Nil
  show ?case by (simp add: sane_decision_def)
next
  case (Cons p rest)
  obtain st stats where p: "p = (st, stats)" by (cases p)
  let ?forget = "s\<lparr>LowRateStart := AList.delete st (LowRateStart s)\<rparr>"
  have skip: "sane_decision now cd s (scale_loop now cd lw hw rest (s\<lparr>LowRateStart := m\<rparr>))" for m
    using Cons.IH [of "s\<lparr>LowRateStart := m\<rparr>"] sane_decision_cong [of "s\<lparr>LowRateStart := m\<rparr>" s] by simp
  show ?case
    using Cons.IH [of s] skip scaleStage_sane [of st s cd now 1 s] scaleStage_sane [of st s cd now "- 1" ?forget]
    by (auto simp: p Let_def case_prod_beta split: option.splits intro: sane_decision_upd)
qed

lemma scale_decision_sane: "sane_decision now cooldown s (checkAndScale now cooldown s)"
  by (simp add: checkAndScale_def scale_loop_sane) (simp add: sane_decision_def)

text \<open>
  A scaling decision is within its bounds: none is taken when autoscaling is off or in the
  first ten seconds of a job, and one that is taken changes one stage by one task, never
  the sources or the first stage, never below one task, and not within the cooldown of the
  stage's previous change.
\<close>

theorem scaling_within_bounds:
  "sane_decision now cooldown s (checkAndScale now cooldown s)
   \<and> (\<not> AutoScaleEnabled s \<or> now - JobStartTime s < 10 * 1000000000 \<longrightarrow> checkAndScale now cooldown s = (s, None))"
  using scale_decision_sane by (simp add: checkAndScale_def warmupPeriod_def)

theorem scaling_within_bounds_witness:
  "checkAndScale 0 scaleCooldown sample_server = (sample_server, None)"
  using scaling_within_bounds [of 0 scaleCooldown sample_server] by (simp add: sample_server_def)

theorem removal_never_kills_witness:
  "snd (removal_cleanup sample_env_rs (scaled_task_id 2 2) ''node2''
    (handle_completions [] (fst (removeTaskFromStage sample_env_rs 2 2
      (scale_once sample_env_rs 2 1 (fst (HandleSubmitJob sample_env_rs sample_payload2 sample_server))))))) = []"
proof -
  let ?s = "fst (HandleSubmitJob sample_env_rs sample_payload2 sample_server)"
  have w: "GetAliveWorkers sample_server \<noteq> []" by (simp add: sample_workers)
  have sc: "scalable 2 ?s" using submit_scalable [OF _ w, of sample_payload2 1 sample_env_rs] by simp
  have n: "go_get 0 (StageTaskCount ?s) 2 = 2"
    using submit_stage_count [OF _ w, of sample_payload2 1 sample_env_rs] by simp
  show ?thesis
    using scale_up_counts(1,5) [OF sc, of sample_env_rs] n
    by (intro removal_never_kills) (simp_all add: scalable_def)
qed

end
