(* ===== verification/Rs_Wellformed.thy ===== *)
theory Rs_Wellformed
  imports Rs_Worker Rs_Leader_Props
begin

text \<open>
  The data of a server stays well formed: every table is keyed by the id of what it holds,
  without repetition, and the number of completed tasks is the number of ids counted, through
  every message a server handles and every step of autoscaling.
\<close>

definition keyed :: "('v \<Rightarrow> string) \<Rightarrow> (string, 'v) gomap \<Rightarrow> bool" where
  "keyed ident m \<longleftrightarrow> go_map m \<and> list_all (\<lambda>(k, v). ident v = k) m"

lemma keyed_iff: "keyed ident m \<longleftrightarrow> go_map m \<and> (\<forall>k v. map_of m k = Some v \<longrightarrow> ident v = k)"
  by (auto simp: keyed_def list_all_iff go_map_lookup_iff)

lemma keyed_Nil [simp]: "keyed ident []"
  by (simp add: keyed_def)

lemma keyed_update: "keyed ident m \<Longrightarrow> ident v = k \<Longrightarrow> keyed ident (AList.update k v m)"
  by (auto simp: keyed_iff)

lemma keyed_delete: "keyed ident m \<Longrightarrow> keyed ident (AList.delete k m)"
  by (auto simp: keyed_iff)

lemma keyed_lookup: "keyed ident m \<Longrightarrow> map_of m k = Some v \<Longrightarrow> ident v = k"
  by (simp add: keyed_iff)

definition server_wf :: "Server \<Rightarrow> bool" where
  "server_wf s \<longleftrightarrow> keyed TkID (AllTasks s) \<and> keyed TkID (ActiveTasks s)
     \<and> keyed TmTaskID (TaskMetricsMap s) \<and> tally s \<and> distinct (UpscaledTaskIDs s)"

text \<open>A change of \<open>AllTasks\<close> alone, and of nothing that matters here.\<close>

lemma server_wf_tasks: "server_wf s \<Longrightarrow> keyed TkID m \<Longrightarrow> server_wf (s\<lparr>AllTasks := m\<rparr>)"
  by (simp add: server_wf_def tally_def)

lemma server_wf_frame:
  assumes "server_wf s" and "AllTasks t = AllTasks s" and "ActiveTasks t = ActiveTasks s"
    and "TaskMetricsMap t = TaskMetricsMap s" and "CompletedTaskIDs t = CompletedTaskIDs s"
    and "CompletedTasks t = CompletedTasks s" and "UpscaledTaskIDs t = UpscaledTaskIDs s"
  shows "server_wf t"
  using assms by (simp add: server_wf_def tally_def)

lemma server_wf_put:
  "server_wf s \<Longrightarrow> TkID t = k \<Longrightarrow> server_wf (s\<lparr>AllTasks := AList.update k t (AllTasks s)\<rparr>)"
  by (simp add: server_wf_tasks keyed_update server_wf_def [of s])

lemma server_wf_known: "server_wf s \<Longrightarrow> map_of (AllTasks s) k = Some t \<Longrightarrow> TkID t = k"
  by (auto simp: server_wf_def dest: keyed_lookup)

lemma sendScheduleTask_wf: "server_wf s \<Longrightarrow> server_wf (fst (sendScheduleTask e task rt s))"
  by (simp add: sendScheduleTask_def Let_def server_wf_put)

lemma send_all_wf: "server_wf s \<Longrightarrow> server_wf (fst (send_all e rt tasks s))"
proof (induction tasks arbitrary: s)
  case (Cons t tasks)
  then show ?case using sendScheduleTask_wf by (simp add: case_prod_beta)
qed simp

lemma HandleSubmitJob_wf:
  assumes "server_wf s"
  shows "server_wf (fst (HandleSubmitJob e payload s))"
proof -
  have m: "server_wf (s\<lparr>TaskMetricsMap := []\<rparr>)" using assms by (simp add: server_wf_def tally_def)
  have "server_wf (job_state e payload b ts (s\<lparr>TaskMetricsMap := []\<rparr>))" for b ts
    using m by (simp add: job_state_def server_wf_def tally_def)
  from send_all_wf [OF this] m show ?thesis
    by (simp add: HandleSubmitJob_def Let_def case_prod_beta)
qed

lemma HandleTaskStarted_wf: "server_wf s \<Longrightarrow> server_wf (HandleTaskStarted task s)"
  by (simp add: HandleTaskStarted_def server_wf_put server_wf_known split: option.split)

lemma HandleTaskMetrics_wf: "server_wf s \<Longrightarrow> server_wf (HandleTaskMetrics m s)"
  by (simp add: HandleTaskMetrics_def server_wf_def tally_def keyed_update)

lemma set_task_result_wf: "server_wf s \<Longrightarrow> server_wf (set_task_result p s)"
  by (simp add: set_task_result_def server_wf_put server_wf_known split: option.split)

lemma mark_completed_wf: "server_wf s \<Longrightarrow> server_wf (mark_completed t s)"
  by (auto simp: mark_completed_def server_wf_def tally_def)

lemma completed_count_wf: "server_wf s \<Longrightarrow> server_wf (fst (completed_count e p s))"
  using mark_completed_wf [OF set_task_result_wf]
  by (fastforce simp: completed_count_def Let_def intro: server_wf_frame)

lemma completed_end_wf: "server_wf s \<Longrightarrow> server_wf (fst (completed_end c s))"
  by (auto simp: completed_end_def intro: server_wf_frame)

lemma HandleTaskCompleted_wf: "server_wf s \<Longrightarrow> server_wf (fst (HandleTaskCompleted e p s))"
  using completed_end_wf [OF completed_count_wf]
  by (simp add: HandleTaskCompleted_def case_prod_beta)

lemma HandleTaskFailure_wf:
  assumes "server_wf s"
  shows "server_wf (fst (HandleTaskFailure e p s))"
proof (cases "map_of (AllTasks s) (TfTaskID p)")
  case (Some task)
  let ?s1 = "s\<lparr>AllTasks := AList.update (TfTaskID p) (task\<lparr>TkState := TaskStateFailed\<rparr>) (AllTasks s)\<rparr>"
  have s1: "server_wf ?s1" using assms Some by (simp add: server_wf_put server_wf_known)
  have "server_wf (?s1\<lparr>AllTasks := AList.update (TkID t) t (AllTasks ?s1), CurrentRoutingTable := rt\<rparr>)" for t rt
    by (rule server_wf_frame [OF server_wf_put [OF s1, of t]]) simp_all
  from sendScheduleTask_wf [OF this] s1 assms Some show ?thesis
    by (simp add: HandleTaskFailure_def Let_def)
qed (use assms in \<open>simp add: HandleTaskFailure_def\<close>)

lemma scaleStage_wf: "server_wf s \<Longrightarrow> server_wf (fst (scaleStage now st d s))"
  by (auto simp: scaleStage_def Let_def intro: server_wf_frame)

lemma scale_loop_wf: "server_wf s \<Longrightarrow> server_wf (fst (scale_loop now cd lw hw sts s))"
proof (induction now cd lw hw sts s rule: scale_loop.induct)
  case (2 now cd lw hw st ss rest s)
  have u: "server_wf (s\<lparr>LowRateStart := m\<rparr>)" for m using 2 by (auto intro: server_wf_frame)
  have v: "server_wf (fst (scaleStage now st d t)\<lparr>LowRateStart := m\<rparr>)" if "server_wf t" for t d m
    by (rule server_wf_frame [OF scaleStage_wf [OF that]]) simp_all
  show ?case using 2 u v scaleStage_wf
    by (auto simp: Let_def case_prod_beta split: option.splits)
qed simp

lemma checkAndScale_wf: "server_wf s \<Longrightarrow> server_wf (fst (checkAndScale now cd s))"
  by (simp add: checkAndScale_def scale_loop_wf)

lemma addTaskToStage_wf:
  assumes "server_wf s"
  shows "server_wf (fst (addTaskToStage e st i s))"
proof -
  have "server_wf (s\<lparr>AllTasks := AList.update (TkID t) t (AllTasks s), ExpectedTasks := n,
      UpscaledTaskIDs := List.insert (TkID t) (UpscaledTaskIDs s), CurrentRoutingTable := rt\<rparr>)" for t n rt
    using assms by (simp add: server_wf_def tally_def keyed_update)
  from sendScheduleTask_wf [OF this] assms show ?thesis
    by (simp add: addTaskToStage_def Let_def case_prod_beta split: option.split)
qed

lemma removeTaskFromStage_wf:
  assumes "server_wf s"
  shows "server_wf (fst (removeTaskFromStage e st i s))"
proof -
  have "server_wf (s\<lparr>CurrentRoutingTable := rt\<rparr>)" for rt using assms by (auto intro: server_wf_frame)
  from mark_completed_wf [OF this] assms show ?thesis
    by (simp add: removeTaskFromStage_def Let_def split: option.split)
qed

lemma removal_cleanup_wf: "server_wf s \<Longrightarrow> server_wf (fst (removal_cleanup e t w s))"
  by (simp add: removal_cleanup_def Let_def server_wf_tasks keyed_delete server_wf_def [of s])

lemma leader_step_wf: "server_wf s \<Longrightarrow> server_wf (fst (leader_step ev s))"
  by (auto simp: leader_step_def case_prod_beta HandleTaskStarted_wf HandleTaskMetrics_wf completed_count_wf
      completed_end_wf HandleTaskFailure_wf checkAndScale_wf removal_cleanup_wf run_scale_job_def
      addTaskToStage_wf removeTaskFromStage_wf split: leader_event.split scale_job.split)

lemma HandleScheduleTask_wf: "server_wf s \<Longrightarrow> server_wf (HandleScheduleTask t s)"
  by (simp add: HandleScheduleTask_def server_wf_def tally_def keyed_update)

lemma handleConnection_wf: "server_wf s \<Longrightarrow> server_wf (fst (handleConnection e msg s))"
  by (auto simp: handleConnection_def Let_def case_prod_beta HandleSubmitJob_wf HandleTaskStarted_wf
      HandleTaskMetrics_wf HandleTaskCompleted_wf HandleTaskFailure_wf HandleScheduleTask_wf
      split: rs_message.split)

section \<open>Runs of a server\<close>

datatype server_event = Incoming rs_env rs_message | Internal "rs_env \<times> leader_event"

definition server_step :: "server_event \<Rightarrow> Server \<Rightarrow> Server" where
  "server_step ev s =
     (case ev of Incoming e msg \<Rightarrow> fst (handleConnection e msg s) | Internal x \<Rightarrow> fst (leader_step x s))"

interpretation server_machine: invariant_machine server_step "\<lambda>_. True" server_wf
  by unfold_locales (auto simp: server_step_def handleConnection_wf leader_step_wf split: server_event.split)

text \<open>
  C24. The tables of a server are well formed after any sequence of messages, critical sections
  and steps of autoscaling: a task or a metric is stored under its own id, no id twice, and the
  count of completed tasks is the number of the different ids that completed.
\<close>

theorem server_stays_well_formed:
  assumes "server_wf s"
  shows "server_wf (fold server_step evs s)"
  using server_machine.run_inv [OF assms, of evs] by (simp add: list_all_iff)

theorem server_stays_well_formed_witness:
  "server_wf (fold server_step [Incoming sample_env_rs (SubmitJob sample_payload),
      Internal (sample_env_rs, EvCheckScale 20000000000),
      Incoming sample_env_rs (TaskStarted (zero_task\<lparr>TkID := ''stage1-task-0''\<rparr>))] sample_server)"
  by (rule server_stays_well_formed) (simp add: server_wf_def sample_server_def tally_def)

end
