(* ===== verification/Rs_Monitor.thy ===== *)
theory Rs_Monitor
  imports Rs_Scaling Rs_Wellformed
begin

text \<open>
  The monitor of a job (\<open>autoscaleMonitor\<close> in \<open>pkg/rainstorm/leader.go\<close>): once a second it lets
  \<open>checkAndScale\<close> decide, until it is stopped. Between two ticks the server handles messages and
  the goroutines of earlier decisions run, in any order.
\<close>

datatype monitor_event = MonitorTick int | MonitorStop

text \<open>The result has the decisions, with the times at which they were taken.\<close>

fun autoscaleMonitor ::
  "(server_event list \<times> monitor_event) list \<Rightarrow> Server \<Rightarrow> Server \<times> (int \<times> scale_job) list" where
  "autoscaleMonitor [] s = (s, [])"
| "autoscaleMonitor ((evs, MonitorStop) # rest) s = (fold server_step evs s, [])"
| "autoscaleMonitor ((evs, MonitorTick now) # rest) s =
     (case checkAndScale now scaleCooldown (fold server_step evs s) of (s1, j) \<Rightarrow>
        case autoscaleMonitor rest s1 of (s2, decisions) \<Rightarrow>
          (s2, (case j of None \<Rightarrow> [] | Some job \<Rightarrow> [(now, job)]) @ decisions))"

section \<open>What happens between the ticks\<close>

text \<open>Neither a new job nor another monitor.\<close>

definition no_new_job :: "server_event \<Rightarrow> bool" where
  "no_new_job ev =
     (case ev of Incoming e msg \<Rightarrow> (case msg of SubmitJob p \<Rightarrow> False | _ \<Rightarrow> True)
      | Internal x \<Rightarrow> (case snd x of EvCheckScale t \<Rightarrow> False | _ \<Rightarrow> True))"

definition same_scale :: "Server \<Rightarrow> Server \<Rightarrow> bool" where
  "same_scale s s' \<longleftrightarrow> StageTaskCount s' = StageTaskCount s \<and> LastScaleTime s' = LastScaleTime s"

lemma same_scale_refl [simp]: "same_scale s s"
  by (simp add: same_scale_def)

lemma same_scale_trans: "same_scale s s' \<Longrightarrow> same_scale s' s'' \<Longrightarrow> same_scale s s''"
  by (simp add: same_scale_def)

named_theorems scale_frame

lemma sendScheduleTask_scale [scale_frame]: "same_scale s (fst (sendScheduleTask e t rt s))"
  by (simp add: sendScheduleTask_def same_scale_def Let_def)

lemma mark_completed_scale [scale_frame]: "same_scale s (mark_completed t s)"
  by (simp add: mark_completed_def same_scale_def)

lemma set_task_result_scale [scale_frame]: "same_scale s (set_task_result p s)"
  by (simp add: set_task_result_def same_scale_def split: option.split)

lemma HandleTaskStarted_scale [scale_frame]: "same_scale s (HandleTaskStarted t s)"
  by (simp add: HandleTaskStarted_def same_scale_def split: option.split)

lemma HandleTaskMetrics_scale [scale_frame]: "same_scale s (HandleTaskMetrics m s)"
  by (simp add: HandleTaskMetrics_def same_scale_def)

lemma HandleScheduleTask_scale [scale_frame]: "same_scale s (HandleScheduleTask t s)"
  by (simp add: HandleScheduleTask_def same_scale_def)

lemma completed_count_scale [scale_frame]: "same_scale s (fst (completed_count e p s))"
  using same_scale_trans [OF set_task_result_scale [of s p] mark_completed_scale [of "set_task_result p s" "TcTaskID p"]]
  by (simp add: completed_count_def same_scale_def Let_def)

lemma completed_end_scale [scale_frame]: "same_scale s (fst (completed_end c s))"
  by (simp add: completed_end_def same_scale_def)

lemma HandleTaskCompleted_scale [scale_frame]: "same_scale s (fst (HandleTaskCompleted e p s))"
  using same_scale_trans [OF completed_count_scale completed_end_scale]
  by (simp add: HandleTaskCompleted_def case_prod_beta)

lemma HandleTaskFailure_scale [scale_frame]: "same_scale s (fst (HandleTaskFailure e p s))"
  by (simp add: HandleTaskFailure_def sendScheduleTask_def same_scale_def Let_def split: option.split)

lemma addTaskToStage_scale [scale_frame]: "same_scale s (fst (addTaskToStage e st i s))"
  by (simp add: addTaskToStage_def sendScheduleTask_def same_scale_def Let_def case_prod_beta split: option.split)

lemma removeTaskFromStage_scale [scale_frame]: "same_scale s (fst (removeTaskFromStage e st i s))"
  by (simp add: removeTaskFromStage_def mark_completed_def same_scale_def Let_def split: option.split)

lemma removal_cleanup_scale [scale_frame]: "same_scale s (fst (removal_cleanup e t w s))"
  by (simp add: removal_cleanup_def same_scale_def Let_def)

lemma server_step_scale: "no_new_job ev \<Longrightarrow> same_scale s (server_step ev s)"
proof (cases ev)
  case (Incoming e msg)
  then show "no_new_job ev \<Longrightarrow> ?thesis"
    by (cases msg) (simp_all add: no_new_job_def server_step_def handleConnection_def Let_def case_prod_beta scale_frame)
next
  case (Internal x)
  obtain e y where x: "x = (e, y)" by (cases x)
  then show "no_new_job ev \<Longrightarrow> ?thesis"
    using Internal by (cases y)
      (simp_all add: no_new_job_def server_step_def leader_step_def case_prod_beta scale_frame run_scale_job_def
        split: scale_job.split)
qed

lemma quiet_run_scale: "list_all no_new_job evs \<Longrightarrow> same_scale s (fold server_step evs s)"
proof (induction evs arbitrary: s)
  case (Cons ev evs)
  then show ?case using same_scale_trans [OF server_step_scale [of ev s]] by simp
qed simp

section \<open>The pace\<close>

fun job_stage :: "scale_job \<Rightarrow> int" where
  "job_stage (AddTask st i) = st"
| "job_stage (RemoveTask st i) = st"

fun job_delta :: "scale_job \<Rightarrow> int" where
  "job_delta (AddTask st i) = 1"
| "job_delta (RemoveTask st i) = - 1"

definition of_stage :: "int \<Rightarrow> (int \<times> scale_job) list \<Rightarrow> (int \<times> scale_job) list" where
  "of_stage st ds = filter (\<lambda>(t, j). job_stage j = st) ds"

lemma of_stage_append [simp]: "of_stage st (ds @ ds') = of_stage st ds @ of_stage st ds'"
  by (simp add: of_stage_def)

text \<open>One tick, as one stage sees it.\<close>

lemma tick_stage:
  assumes "checkAndScale now scaleCooldown s = (s1, j)"
  shows "case j of
      None \<Rightarrow> same_scale s s1
    | Some job \<Rightarrow> 1 < job_stage job
        \<and> (\<forall>t. map_of (LastScaleTime s) (job_stage job) = Some t \<longrightarrow> t + scaleCooldown \<le> now)
        \<and> map_of (LastScaleTime s1) (job_stage job) = Some now
        \<and> (\<forall>st. st \<noteq> job_stage job \<longrightarrow> map_of (LastScaleTime s1) st = map_of (LastScaleTime s) st)
        \<and> (\<forall>st. go_get 0 (StageTaskCount s1) st
              = go_get 0 (StageTaskCount s) st + (if st = job_stage job then job_delta job else 0))
        \<and> (job_delta job = - 1 \<longrightarrow> 2 \<le> go_get 0 (StageTaskCount s) (job_stage job))"
  using assms scale_decision_sane [of now scaleCooldown s]
  by (auto simp: sane_decision_def same_scale_def Let_def go_get_update scaleCooldown_def
      split: option.splits)

abbreviation quiet_ticks :: "(server_event list \<times> monitor_event) list \<Rightarrow> bool" where
  "quiet_ticks ticks \<equiv> list_all (\<lambda>(evs, ev). list_all no_new_job evs) ticks"

text \<open>What a stage sees of a run of the monitor from \<open>s\<close> to \<open>s'\<close>.\<close>

definition paced :: "int \<Rightarrow> Server \<Rightarrow> Server \<Rightarrow> (int \<times> scale_job) list \<Rightarrow> bool" where
  "paced st s s' ds \<longleftrightarrow>
     sorted_wrt (\<lambda>d d'. fst d + scaleCooldown \<le> fst d') (of_stage st ds)
     \<and> (\<forall>t. map_of (LastScaleTime s) st = Some t \<longrightarrow> (\<forall>d\<in>set (of_stage st ds). t + scaleCooldown \<le> fst d))
     \<and> go_get 0 (StageTaskCount s') st
         = go_get 0 (StageTaskCount s) st + sum_list (map (job_delta \<circ> snd) (of_stage st ds))
     \<and> (1 \<le> go_get 0 (StageTaskCount s) st \<longrightarrow> 1 \<le> go_get 0 (StageTaskCount s') st)
     \<and> (of_stage st ds \<noteq> [] \<longrightarrow> 1 < st)"

lemma paced_same: "same_scale s0 s \<Longrightarrow> paced st s s' ds \<Longrightarrow> paced st s0 s' ds"
  by (auto simp: paced_def same_scale_def)

lemma paced_none: "same_scale s s' \<Longrightarrow> paced st s s' []"
  by (simp add: paced_def same_scale_def of_stage_def)

lemma paced_tick:
  assumes "checkAndScale now scaleCooldown s = (s1, Some job)" and "paced st s1 s' ds"
  shows "paced st s s' ((now, job) # ds)"
proof (cases "st = job_stage job")
  case True
  then show ?thesis
    using tick_stage [OF assms(1)] assms(2)
    by (cases job) (fastforce simp: paced_def of_stage_def scaleCooldown_def)+
next
  case False
  then show ?thesis
    using tick_stage [OF assms(1)] assms(2) by (auto simp: paced_def of_stage_def)
qed

lemma monitor_paced:
  "autoscaleMonitor ticks s = (s', ds) \<Longrightarrow> quiet_ticks ticks \<Longrightarrow> paced st s s' ds"
proof (induction ticks s arbitrary: s' ds rule: autoscaleMonitor.induct)
  case (1 s)
  then show ?case using paced_none by simp
next
  case (2 evs rest s)
  then show ?case using paced_none [OF quiet_run_scale [of evs s]] by simp
next
  case (3 evs now rest s)
  let ?s0 = "fold server_step evs s"
  obtain s1 j where c: "checkAndScale now scaleCooldown ?s0 = (s1, j)" by fastforce
  obtain ds' where r: "autoscaleMonitor rest s1 = (s', ds')"
    and ds: "ds = (case j of None \<Rightarrow> [] | Some job \<Rightarrow> [(now, job)]) @ ds'"
    using "3.prems"(1) c by (auto split: prod.splits)
  have same: "same_scale s ?s0" using "3.prems"(2) by (simp add: quiet_run_scale)
  have "paced st s1 s' ds'" using "3.IH" [OF c [symmetric] r] "3.prems"(2) by simp
  then have "paced st ?s0 s' ds"
    using paced_tick [of now ?s0 s1 _ st s' ds'] paced_same [of ?s0 s1 st s' ds'] tick_stage [OF c] c
    by (cases j) (simp_all add: ds)
  then show ?case by (rule paced_same [OF same])
qed

text \<open>
  C20. The monitor paces the scaling of a job: while it runs, with any messages and any of its
  own goroutines between the ticks but no new job, two changes of the same stage are at least
  the cooldown of five seconds apart, the stage's count is what it was at the start plus its
  additions minus its removals, it never drops below one task, and the sources and the first
  stage are never changed.
\<close>

theorem monitor_paces_scaling:
  assumes "autoscaleMonitor ticks s = (s', ds)" and "quiet_ticks ticks"
  shows "sorted_wrt (\<lambda>d d'. fst d + 5 * 1000000000 \<le> fst d') (of_stage st ds)
    \<and> go_get 0 (StageTaskCount s') st
        = go_get 0 (StageTaskCount s) st + sum_list (map (job_delta \<circ> snd) (of_stage st ds))
    \<and> (1 \<le> go_get 0 (StageTaskCount s) st \<longrightarrow> 1 \<le> go_get 0 (StageTaskCount s') st)
    \<and> (st \<le> 1 \<longrightarrow> of_stage st ds = [])"
  using monitor_paced [OF assms, of st] by (auto simp: paced_def scaleCooldown_def)

text \<open>A stage of \<open>n\<close> tasks, one of which reports 50 tuples a second.\<close>

definition busy_server :: "int \<Rightarrow> (int, int) gomap \<Rightarrow> Server" where
  "busy_server n lst = sample_server\<lparr>AutoScaleEnabled := True, LowWatermark := 1, HighWatermark := 10,
     StageTaskCount := [(1, 1), (2, n)], LastScaleTime := lst,
     AllTasks := [(''stage2-task-0'', zero_task\<lparr>TkID := ''stage2-task-0'', StageID := 2, TkState := TaskStateRunning\<rparr>)],
     TaskMetricsMap := [(''stage2-task-0'',
       \<lparr>TmTaskID = ''stage2-task-0'', TuplesProcessed = 100, CurrentRate = 50, TmTimestamp = 0\<rparr>)]\<rparr>"

lemma busy_stats: "collect_stats (busy_server n lst) = [(2, \<lparr>SsRate = 50, SsTasks = 1, SsTuples = 100\<rparr>)]"
  by (simp add: collect_stats_def busy_server_def zero_stats_def go_get_def)

lemma busy_tick:
  "1 \<le> n \<Longrightarrow> checkAndScale now scaleCooldown (busy_server n lst) =
     (if now < 10000000000 \<or> (\<exists>t. map_of lst 2 = Some t \<and> now - t < 5000000000) then (busy_server n lst, None)
      else (busy_server (n + 1) (AList.update 2 now lst), Some (AddTask 2 n)))"
  by (auto simp: checkAndScale_def busy_stats)
    (auto simp: busy_server_def sample_server_def warmupPeriod_def scaleCooldown_def scaleStage_def go_get_def
      split: option.splits)

definition busy_ticks :: "(server_event list \<times> monitor_event) list" where
  "busy_ticks = map (Pair []) (map MonitorTick [9000000000, 20000000000, 21000000000, 25000000000] @ [MonitorStop])"

theorem monitor_paces_scaling_witness:
  "snd (autoscaleMonitor busy_ticks (busy_server 1 [])) = [(20000000000, AddTask 2 1), (25000000000, AddTask 2 2)]
   \<and> go_get 0 (StageTaskCount (fst (autoscaleMonitor busy_ticks (busy_server 1 [])))) 2 = 3"
proof -
  have "autoscaleMonitor busy_ticks (busy_server 1 []) =
      (busy_server 3 [(2, 25000000000)], [(20000000000, AddTask 2 1), (25000000000, AddTask 2 2)])"
    by (simp add: busy_ticks_def busy_tick)
  then show ?thesis
    using monitor_paces_scaling [of busy_ticks "busy_server 1 []" _ _ 2]
    by (simp add: of_stage_def) (simp add: busy_ticks_def busy_server_def go_get_def)
qed

end
