(* ===== verification/Rs_Operator.thy ===== *)
theory Rs_Operator
  imports Rs_Types Hydfs_Node
begin

text \<open>
  The runtime of an operator process (\<open>StartOperation\<close> and its helpers in
  \<open>pkg/rainstorm/api.go\<close>): duplicate detection, emission, end-of-stream counting, the
  state log and the batches appended to HyDFS.

  \<^item> A user operation maps its state and a tuple to a new state and the tuples it emits, or ends
    the process (\<open>None\<close>, as \<open>log.Fatal\<close> does).
  \<^item> A connection is served by a goroutine of its own, which looks the id of a tuple up
    (\<open>recv_check\<close>) and, some steps later, marks it (\<open>recv_finish\<close>); other connections can
    interleave between the two. \<open>recv\<close> is one after the other, as on a single connection.
  \<^item> \<open>op_env\<close> decides what sends meet: \<open>OpTries a t\<close> the outcomes of the attempts to deliver
    \<open>t\<close> to \<open>a\<close>, \<open>OpUp a\<close> whether an EOF marker can be sent to \<open>a\<close>.
  \<^item> A panic ends the process: afterwards nothing happens (\<open>Crashed\<close>).
  \<^item> The two channels hold at most 1000 lines; the workers that empty them are \<open>aw_step\<close>.
\<close>

type_synonym 'st user_op = "'st \<Rightarrow> Tuple \<Rightarrow> ('st \<times> Tuple list) option"

record OpFlags =
  FlPort :: int
  FlTargets :: string
  FlOutput :: string
  FlNumSources :: int
  FlHydfsDest :: string
  FlHydfsLeader :: string
  FlTaskID :: string

record 'st OpProc =
  OpState :: 'st
  ProcessedIDs :: "string list"
  TargetList :: "string list"
  IsSinkStage :: bool
  EofCount :: int
  EofTimer :: "Tuple option"
  EofBroadcast :: bool
  ShutdownSignal :: bool
  IsShuttingDown :: bool
  Crashed :: bool
  Printed :: "string list"
  OutFile :: "string list option"
  AppendChan :: "string list option"
  StateLogChan :: "string list option"
  OpTuplesProcessed :: int

datatype attempt = EncodeError | AckError | AckOther | AckGood

record op_env =
  OpTries :: "string \<Rightarrow> Tuple \<Rightarrow> attempt list"
  OpUp :: "string \<Rightarrow> bool"

datatype op_out = OutTuple string Tuple | OutEofTo string Tuple | OutSyncCheckpoint string string

definition chan_size :: nat where
  "chan_size = 1000"

section \<open>Emission\<close>

text \<open>
  Stop and wait: every attempt that encodes transmits the tuple once more; the loop ends with
  the first acknowledgement. The result is the number of transmissions and the success.
\<close>

fun send_attempts :: "attempt list \<Rightarrow> nat \<times> bool" where
  "send_attempts [] = (0, False)"
| "send_attempts (EncodeError # as) = send_attempts as"
| "send_attempts (AckError # as) = (case send_attempts as of (n, ok) \<Rightarrow> (n + 1, ok))"
| "send_attempts (AckOther # as) = (case send_attempts as of (n, ok) \<Rightarrow> (n + 1, ok))"
| "send_attempts (AckGood # as) = (1, True)"

definition emit_tuple :: "op_env \<Rightarrow> Tuple \<Rightarrow> 'st OpProc \<Rightarrow> 'st OpProc \<times> op_out list" where
  "emit_tuple e t p =
     (case pick_target (Key t) (TargetList p) of
        None \<Rightarrow> (p\<lparr>Crashed := True\<rparr>, [])
      | Some target \<Rightarrow>
          (p, replicate (fst (send_attempts (take 5 (OpTries e target t)))) (OutTuple target t)))"

definition broadcastEOF :: "op_env \<Rightarrow> Tuple \<Rightarrow> 'st OpProc \<Rightarrow> 'st OpProc \<times> op_out list" where
  "broadcastEOF e t p =
     (if EofBroadcast p then (p, [])
      else (p\<lparr>EofBroadcast := True\<rparr>, map (\<lambda>target. OutEofTo target t) (filter (OpUp e) (TargetList p))))"

definition emit_eof :: "op_env \<Rightarrow> OpFlags \<Rightarrow> Tuple \<Rightarrow> 'st OpProc \<Rightarrow> 'st OpProc \<times> op_out list" where
  "emit_eof e fl t p =
     (if FlNumSources fl > 0 then
        (let currentEOF = EofCount p + 1; p1 = p\<lparr>EofCount := currentEOF\<rparr> in
         if currentEOF \<ge> FlNumSources fl
         then (case broadcastEOF e t p1 of (p2, outs) \<Rightarrow> (p2\<lparr>ShutdownSignal := True\<rparr>, outs))
         else if currentEOF = 1 then (p1\<lparr>EofTimer := Some t\<rparr>, [])
         else (p1, []))
      else (p, []))"

text \<open>The timer started by the first marker, five seconds later.\<close>

definition eof_timeout :: "op_env \<Rightarrow> OpFlags \<Rightarrow> 'st OpProc \<Rightarrow> 'st OpProc \<times> op_out list" where
  "eof_timeout e fl p =
     (case EofTimer p of
        None \<Rightarrow> (p, [])
      | Some t \<Rightarrow>
          let p1 = p\<lparr>EofTimer := None\<rparr> in
          if EofCount p1 > 0 \<and> EofCount p1 < FlNumSources fl
          then (case broadcastEOF e t p1 of (p2, outs) \<Rightarrow> (p2\<lparr>ShutdownSignal := True\<rparr>, outs))
          else (p1, []))"

definition offer :: "string \<Rightarrow> string list option \<Rightarrow> string list option" where
  "offer line ch =
     (case ch of None \<Rightarrow> None | Some q \<Rightarrow> Some (if length q < chan_size then q @ [line] else q))"

definition emit_sink :: "OpFlags \<Rightarrow> Tuple \<Rightarrow> 'st OpProc \<Rightarrow> 'st OpProc" where
  "emit_sink fl t p =
     (if IsEOF t then
        (if IsSinkStage p \<and> FlNumSources fl > 0
         then let currentEOF = EofCount p + 1
              in p\<lparr>EofCount := currentEOF,
                   ShutdownSignal := (ShutdownSignal p \<or> currentEOF \<ge> FlNumSources fl)\<rparr>
         else p)
      else
        p\<lparr>Printed := Printed p @ [Value t],
          OutFile := map_option (\<lambda>ls. ls @ [Value t]) (OutFile p),
          AppendChan := (if IsShuttingDown p then AppendChan p else offer (Value t) (AppendChan p))\<rparr>)"

definition emit :: "op_env \<Rightarrow> OpFlags \<Rightarrow> Tuple \<Rightarrow> 'st OpProc \<Rightarrow> 'st OpProc \<times> op_out list" where
  "emit e fl t0 p =
     (let t = t0\<lparr>TpType := ''tuple''\<rparr> in
      if Crashed p then (p, [])
      else if TargetList p = [] then (emit_sink fl t p, [])
      else if IsEOF t then emit_eof e fl t p
      else emit_tuple e t p)"

fun emit_all :: "op_env \<Rightarrow> OpFlags \<Rightarrow> Tuple list \<Rightarrow> 'st OpProc \<Rightarrow> 'st OpProc \<times> op_out list" where
  "emit_all e fl [] p = (p, [])"
| "emit_all e fl (t # ts) p =
     (case emit e fl t p of (p1, o1) \<Rightarrow>
        case emit_all e fl ts p1 of (p2, o2) \<Rightarrow> (p2, o1 @ o2))"

section \<open>Receiving\<close>

datatype verdict = Handled | Duplicate | Fresh

definition recv_check :: "Tuple \<Rightarrow> 'st OpProc \<Rightarrow> 'st OpProc \<times> verdict" where
  "recv_check t p =
     (if TpType t = ''routing_update'' then (p\<lparr>TargetList := split_on (CHR '','') (Value t)\<rparr>, Handled)
      else if TpType t = ''ack'' then (p, Handled)
      else if TupleID t \<in> set (ProcessedIDs p) then (p, Duplicate)
      else (p, Fresh))"

definition state_log_file :: "OpFlags \<Rightarrow> string" where
  "state_log_file fl =
     (if FlTaskID fl \<noteq> [] then FlTaskID fl @ ''.state'' else ''task_'' @ dec_int (FlPort fl) @ ''.state'')"

definition checkpoint :: "OpFlags \<Rightarrow> Tuple \<Rightarrow> 'st OpProc \<Rightarrow> 'st OpProc \<times> op_out list" where
  "checkpoint fl t p =
     (if IsEOF t \<or> FlHydfsLeader fl = [] \<or> IsShuttingDown p then (p, [])
      else case StateLogChan p of
        None \<Rightarrow> (p, [])
      | Some q \<Rightarrow>
          if length q < chan_size then (p\<lparr>StateLogChan := Some (q @ [TupleID t])\<rparr>, [])
          else (p, [OutSyncCheckpoint (state_log_file fl) (TupleID t @ ''\<newline>'')]))"

definition mark_processed :: "Tuple \<Rightarrow> 'st OpProc \<Rightarrow> 'st OpProc" where
  "mark_processed t p =
     (if IsEOF t then p else p\<lparr>ProcessedIDs := List.insert (TupleID t) (ProcessedIDs p)\<rparr>)"

definition count_tuple_seen :: "Tuple \<Rightarrow> 'st OpProc \<Rightarrow> 'st OpProc" where
  "count_tuple_seen t p =
     (if IsEOF t then p else p\<lparr>OpTuplesProcessed := OpTuplesProcessed p + 1\<rparr>)"

text \<open>The last component is the acknowledgement: \<open>None\<close> when the process died.\<close>

definition recv_finish ::
  "'st user_op \<Rightarrow> op_env \<Rightarrow> OpFlags \<Rightarrow> Tuple \<Rightarrow> 'st OpProc \<Rightarrow> 'st OpProc \<times> op_out list \<times> string option" where
  "recv_finish process e fl t p =
     (let p1 = count_tuple_seen t p in
      case process (OpState p1) t of
        None \<Rightarrow> (p1\<lparr>Crashed := True\<rparr>, [], None)
      | Some (st, emitted) \<Rightarrow>
          (case emit_all e fl emitted (p1\<lparr>OpState := st\<rparr>) of (p2, o1) \<Rightarrow>
             if Crashed p2 then (p2, o1, None)
             else case checkpoint fl t p2 of (p3, o2) \<Rightarrow>
               (mark_processed t p3, o1 @ o2, Some (TupleID t))))"

definition recv ::
  "'st user_op \<Rightarrow> op_env \<Rightarrow> OpFlags \<Rightarrow> Tuple \<Rightarrow> 'st OpProc \<Rightarrow> 'st OpProc \<times> op_out list \<times> string option" where
  "recv process e fl t p =
     (if Crashed p then (p, [], None)
      else case recv_check t p of
        (p1, Handled) \<Rightarrow> (p1, [], None)
      | (p1, Duplicate) \<Rightarrow> (p1, [], Some (TupleID t))
      | (p1, Fresh) \<Rightarrow> recv_finish process e fl t p1)"

fun recv_all ::
  "'st user_op \<Rightarrow> op_env \<Rightarrow> OpFlags \<Rightarrow> Tuple list \<Rightarrow> 'st OpProc \<Rightarrow> 'st OpProc \<times> op_out list \<times> string option list" where
  "recv_all process e fl [] p = (p, [], [])"
| "recv_all process e fl (t # ts) p =
     (case recv process e fl t p of (p1, o1, a) \<Rightarrow>
        case recv_all process e fl ts p1 of (p2, o2, as) \<Rightarrow> (p2, o1 @ o2, a # as))"

section \<open>The state log and the append workers\<close>

definition flush_content :: "string list \<Rightarrow> bytes" where
  "flush_content buffer = strings_join ''\<newline>'' buffer @ ''\<newline>''"

text \<open>
  \<open>flush\<close> empties the buffer whether or not HyDFS can be reached (\<open>up\<close>); its second
  component is the content of the append that was sent.
\<close>

definition flush :: "bool \<Rightarrow> string list \<Rightarrow> string list \<times> bytes list" where
  "flush up buffer = (if buffer = [] then ([], []) else ([], if up then [flush_content buffer] else []))"

datatype aw_event = AwLine string | AwTick | AwStop

definition aw_step :: "bool \<Rightarrow> aw_event \<Rightarrow> string list \<Rightarrow> string list \<times> bytes list" where
  "aw_step up ev buffer =
     (case ev of
        AwLine line \<Rightarrow>
          let buffer1 = buffer @ [line] in if length buffer1 \<ge> 50 then flush up buffer1 else (buffer1, [])
      | AwTick \<Rightarrow> flush up buffer
      | AwStop \<Rightarrow> flush up buffer)"

fun aw_run :: "(bool \<times> aw_event) list \<Rightarrow> string list \<Rightarrow> string list \<times> bytes list" where
  "aw_run [] buffer = (buffer, [])"
| "aw_run ((up, ev) # evs) buffer =
     (case aw_step up ev buffer of (b1, o1) \<Rightarrow> case aw_run evs b1 of (b2, o2) \<Rightarrow> (b2, o1 @ o2))"

definition append_client :: "OpFlags \<Rightarrow> string" where
  "append_client fl = ''sink-task-'' @ dec_int (FlPort fl)"

definition append_request :: "OpFlags \<Rightarrow> string \<Rightarrow> bytes \<Rightarrow> NodeMessage" where
  "append_request fl destFile content =
     node_message ''append_file'' (append_client fl) ''append'' destFile
       [(''content'', JStr (json_string content)), (''client_id'', JStr (json_string (append_client fl)))]"

text \<open>The append that is sent at once when the channel of the state log is full.\<close>

definition sync_checkpoint_request :: "OpFlags \<Rightarrow> string \<Rightarrow> string \<Rightarrow> NodeMessage" where
  "sync_checkpoint_request fl stateFile tupleID = append_request fl stateFile (tupleID @ ''\<newline>'')"

text \<open>It is what the batch of this line alone would have been.\<close>

lemma sync_checkpoint_batch: "sync_checkpoint_request fl f x = append_request fl f (flush_content [x])"
  by (simp add: sync_checkpoint_request_def flush_content_def)

definition parse_state :: "bytes \<Rightarrow> string list" where
  "parse_state content =
     map trim_space (filter (\<lambda>line. trim_space line \<noteq> []) (split_on (CHR ''\<newline>'') content))"

datatype fetch_error = FetchUnreachable | FetchInvalidType | FetchInvalidData

definition fetchStateFromHyDFS :: "NodeMessage option \<Rightarrow> fetch_error + string list" where
  "fetchStateFromHyDFS resp =
     (case resp of
        None \<Rightarrow> Inl FetchUnreachable
      | Some r \<Rightarrow>
          if NmType r = ''error'' then Inr []
          else if NmType r \<noteq> ''get_file_response'' then Inl FetchInvalidType
          else (case data_str r ''content'' of
                  None \<Rightarrow> Inl FetchInvalidData | Some content \<Rightarrow> Inr (parse_state content)))"

section \<open>Starting and stopping\<close>

text \<open>
  \<open>resp\<close> is the reply of HyDFS to the request for the state log. A sink truncates its
  output file when it starts.
\<close>

definition start_operation :: "OpFlags \<Rightarrow> NodeMessage option \<Rightarrow> 'st \<Rightarrow> 'st OpProc" where
  "start_operation fl resp init =
     (let targets = (if FlTargets fl \<noteq> [] then split_on (CHR '','') (FlTargets fl) else []);
          ids = (if FlHydfsLeader fl = [] then []
                 else case fetchStateFromHyDFS resp of Inl err \<Rightarrow> [] | Inr ids \<Rightarrow> remdups ids)
      in \<lparr>OpState = init, ProcessedIDs = ids, TargetList = targets, IsSinkStage = (targets = []),
          EofCount = 0, EofTimer = None, EofBroadcast = False, ShutdownSignal = False,
          IsShuttingDown = False, Crashed = False, Printed = [],
          OutFile = (if targets = [] \<and> FlOutput fl \<noteq> [] then Some [] else None),
          AppendChan = (if targets = [] \<and> FlHydfsDest fl \<noteq> [] \<and> FlHydfsLeader fl \<noteq> [] then Some [] else None),
          StateLogChan = (if FlHydfsLeader fl \<noteq> [] then Some [] else None),
          OpTuplesProcessed = 0\<rparr>)"

definition begin_shutdown :: "OpFlags \<Rightarrow> 'st OpProc \<Rightarrow> 'st OpProc" where
  "begin_shutdown fl p =
     (if FlNumSources fl > 0 \<and> ShutdownSignal p then p\<lparr>IsShuttingDown := True\<rparr> else p)"

end
