(* ===== verification/Rs_Ops.thy ===== *)
theory Rs_Ops
  imports Rs_Operator
begin

text \<open>
  The operators shipped with the program (\<open>ops/*/main.go\<close>): grep, count, transform, echo,
  identity and output, and what a run of each emits.

  \<^item> \<open>compile\<close> stands for \<open>regexp.Compile\<close>: the matcher of a pattern, or \<open>None\<close> if the
    pattern is invalid. \<open>args\<close> are the arguments left after the flags.
  \<^item> The debug output and its counters of the first tuples are left out, but not the match and
    filter counts.
\<close>

section \<open>Lines of comma-separated fields\<close>

definition quote_char :: char where
  "quote_char = CHR 0x22"

fun parse_csv :: "bool \<Rightarrow> string \<Rightarrow> string \<Rightarrow> string list" where
  "parse_csv inQuotes current [] = [current]"
| "parse_csv inQuotes current (c # cs) =
     (if c = quote_char then parse_csv (\<not> inQuotes) current cs
      else if c = CHR '','' then
        (if inQuotes then parse_csv inQuotes (current @ [c]) cs
         else current # parse_csv inQuotes [] cs)
      else parse_csv inQuotes (current @ [c]) cs)"

definition parseCSVLine :: "string \<Rightarrow> string list" where
  "parseCSVLine line = parse_csv False [] line"

text \<open>The part of the line before the third separator.\<close>

fun first_fields :: "nat \<Rightarrow> bool \<Rightarrow> string \<Rightarrow> string" where
  "first_fields fieldCount inQuotes [] = []"
| "first_fields fieldCount inQuotes (c # cs) =
     (if c = quote_char then c # first_fields fieldCount (\<not> inQuotes) cs
      else if c = CHR '','' \<and> \<not> inQuotes then
        (if fieldCount + 1 = 3 then [] else c # first_fields (fieldCount + 1) inQuotes cs)
      else c # first_fields fieldCount inQuotes cs)"

definition extractFirst3Fields :: "string \<Rightarrow> string" where
  "extractFirst3Fields line = first_fields 0 False line"

section \<open>The operators\<close>

definition new_tuple :: "string \<Rightarrow> string \<Rightarrow> string \<Rightarrow> Tuple" where
  "new_tuple key val tid = \<lparr>TpType = [], Key = key, Value = val, TupleID = tid, IsEOF = False\<rparr>"

record GrepOp =
  Pattern :: "string \<Rightarrow> bool"
  MatchCount :: int
  FilterCount :: int
  ColumnNum :: int
  EofForwarded :: bool

definition column_key :: "int \<Rightarrow> string \<Rightarrow> string" where
  "column_key columnNum val =
     (let fields = parseCSVLine val
      in if columnNum \<le> int (length fields) then fields ! nat (columnNum - 1) else [])"

definition GrepOp_Process :: "GrepOp \<Rightarrow> Tuple \<Rightarrow> GrepOp \<times> Tuple list" where
  "GrepOp_Process g t =
     (if IsEOF t then (g\<lparr>EofForwarded := True\<rparr>, [t])
      else if Pattern g (Value t)
      then (g\<lparr>MatchCount := MatchCount g + 1\<rparr>,
            [if ColumnNum g > 0 then t\<lparr>Key := column_key (ColumnNum g) (Value t)\<rparr> else t])
      else (g\<lparr>FilterCount := FilterCount g + 1\<rparr>, []))"

definition grep_setup ::
  "(string \<Rightarrow> (string \<Rightarrow> bool) option) \<Rightarrow> string \<Rightarrow> int \<Rightarrow> string list \<Rightarrow> GrepOp option" where
  "grep_setup compile patternFlag columnFlag args =
     (let patternStr = (if patternFlag = [] \<and> length args > 0 then args ! 0 else patternFlag) in
      if patternStr = [] then None
      else case compile patternStr of
        None \<Rightarrow> None
      | Some pattern \<Rightarrow>
          let columnNum = (if columnFlag = 0 \<and> length args > 1 then sscan_int (args ! 1) columnFlag else columnFlag)
          in Some \<lparr>Pattern = pattern, MatchCount = 0, FilterCount = 0, ColumnNum = columnNum, EofForwarded = False\<rparr>)"

definition GrepOpWrapper ::
  "(string \<Rightarrow> (string \<Rightarrow> bool) option) \<Rightarrow> string \<Rightarrow> int \<Rightarrow> string list \<Rightarrow> GrepOp option user_op" where
  "GrepOpWrapper compile patternFlag columnFlag args st t =
     (case (case st of None \<Rightarrow> grep_setup compile patternFlag columnFlag args | Some g \<Rightarrow> Some g) of
        None \<Rightarrow> None
      | Some g \<Rightarrow> (case GrepOp_Process g t of (g1, emitted) \<Rightarrow> Some (Some g1, emitted)))"

record CountOp =
  Counts :: "(string, int) gomap"
  Flushed :: bool

definition count_tuple :: "string \<Rightarrow> int \<Rightarrow> Tuple" where
  "count_tuple word n = new_tuple word (word @ '','' @ dec_int n) (''count-'' @ word)"

definition FlushCounts :: "CountOp \<Rightarrow> Tuple list" where
  "FlushCounts c = map (\<lambda>(word, n). count_tuple word n) (Counts c)"

definition CountOp_Process :: "CountOp \<Rightarrow> Tuple \<Rightarrow> CountOp \<times> Tuple list" where
  "CountOp_Process c t =
     (if IsEOF t then (c\<lparr>Flushed := True\<rparr>, (if Flushed c then [] else FlushCounts c) @ [t])
      else (c\<lparr>Counts := AList.update (Key t) (go_get 0 (Counts c) (Key t) + 1) (Counts c)\<rparr>, []))"

definition CountOpWrapper :: "CountOp option user_op" where
  "CountOpWrapper st t =
     (case CountOp_Process (case st of None \<Rightarrow> \<lparr>Counts = [], Flushed = False\<rparr> | Some c \<Rightarrow> c) t of
        (c1, emitted) \<Rightarrow> Some (Some c1, emitted))"

definition TransformOp :: "unit user_op" where
  "TransformOp st t =
     Some (st, [if IsEOF t then t else new_tuple (Key t) (extractFirst3Fields (Value t)) (TupleID t)])"

definition EchoOp :: "unit user_op" where
  "EchoOp st t = Some (st, [new_tuple (Key t) (Value t @ '' processed'') (TupleID t)])"

definition IdentityOp :: "unit user_op" where
  "IdentityOp st t = Some (st, [t])"

text \<open>\<open>Written\<close> is the content of the output file, and \<open>creatable\<close> whether it can be created.\<close>

record OutputOp =
  Buffer :: "string list"
  Written :: "string option"

definition Flush :: "bool \<Rightarrow> OutputOp \<Rightarrow> OutputOp" where
  "Flush creatable w =
     (if Buffer w = [] \<or> \<not> creatable then w
      else w\<lparr>Written := Some (concat (map (\<lambda>line. line @ ''\<newline>'') (Buffer w)))\<rparr>)"

definition OutputOp_Process :: "bool \<Rightarrow> OutputOp user_op" where
  "OutputOp_Process creatable w t =
     Some (if IsEOF t then Flush creatable w else w\<lparr>Buffer := Buffer w @ [Value t]\<rparr>, [])"

section \<open>Runs of an operator\<close>

text \<open>Everything an operator emits when it processes a list of tuples.\<close>

fun op_run :: "'st user_op \<Rightarrow> 'st \<Rightarrow> Tuple list \<Rightarrow> ('st \<times> Tuple list) option" where
  "op_run process st [] = Some (st, [])"
| "op_run process st (t # ts) =
     (case process st t of
        None \<Rightarrow> None
      | Some (st1, o1) \<Rightarrow>
          (case op_run process st1 ts of None \<Rightarrow> None | Some (st2, o2) \<Rightarrow> Some (st2, o1 @ o2)))"

lemma op_run_append:
  "op_run process st (ts @ us) =
     (case op_run process st ts of
        None \<Rightarrow> None
      | Some (st1, o1) \<Rightarrow>
          (case op_run process st1 us of None \<Rightarrow> None | Some (st2, o2) \<Rightarrow> Some (st2, o1 @ o2)))"
  by (induction ts arbitrary: st) (simp_all split: option.split prod.split)

subsection \<open>Transform\<close>

lemma parse_first_fields:
  "n < 3 \<Longrightarrow> parse_csv q cur (first_fields n q line) = take (3 - n) (parse_csv q cur line)"
proof (induction n q line arbitrary: cur rule: first_fields.induct)
  case (1 n q)
  then show ?case by (simp add: take_Cons' Suc_diff_le)
next
  case (2 n q c cs)
  then show ?case by (auto simp: take_Cons' Suc_diff_le not_less_eq)
qed

text \<open>
  The transform operator and the CSV parser of grep agree on what a field is: the text
  that transform keeps of a line parses to the first three fields of the line, quotes and
  separators inside quotes included, and keeping it twice changes nothing.
\<close>

theorem first3_fields_agree:
  "parseCSVLine (extractFirst3Fields line) = take 3 (parseCSVLine line)
   \<and> prefix (extractFirst3Fields line) line
   \<and> extractFirst3Fields (extractFirst3Fields line) = extractFirst3Fields line"
proof -
  have p: "prefix (first_fields n q l) l" for n q l
    by (induction n q l rule: first_fields.induct) auto
  have i: "n < 3 \<Longrightarrow> first_fields n q (first_fields n q l) = first_fields n q l" for n q l
    by (induction n q l rule: first_fields.induct) auto
  show ?thesis
    using parse_first_fields [of 0 False "[]" line] p i [of 0 False line]
    by (simp add: parseCSVLine_def extractFirst3Fields_def)
qed

subsection \<open>Grep\<close>

text \<open>What grep makes of one tuple that is not an end marker, as a reference definition.\<close>

definition grep_row :: "(string \<Rightarrow> bool) \<Rightarrow> int \<Rightarrow> Tuple \<Rightarrow> Tuple list" where
  "grep_row matches col t =
     (if \<not> matches (Value t) then []
      else [if col > 0 then t\<lparr>Key := column_key col (Value t)\<rparr> else t])"

lemma grep_wrapper_step:
  "GrepOpWrapper compile pf cf args (Some g) t =
     Some (Some (fst (GrepOp_Process g t)), snd (GrepOp_Process g t))"
  by (simp add: GrepOpWrapper_def split: prod.split)

lemma grep_run:
  assumes "list_all (\<lambda>t. \<not> IsEOF t) ts"
  shows "\<exists>g'. op_run (GrepOpWrapper compile pf cf args) (Some g) ts
      = Some (Some g', concat (map (grep_row (Pattern g) (ColumnNum g)) ts))
    \<and> Pattern g' = Pattern g \<and> ColumnNum g' = ColumnNum g"
  using assms
proof (induction ts arbitrary: g)
  case Nil
  then show ?case by simp
next
  case (Cons t ts)
  define g1 where "g1 = fst (GrepOp_Process g t)"
  have g1: "GrepOp_Process g t = (g1, grep_row (Pattern g) (ColumnNum g) t)"
    and same: "Pattern g1 = Pattern g" "ColumnNum g1 = ColumnNum g"
    using Cons.prems by (simp_all add: g1_def GrepOp_Process_def grep_row_def)
  obtain g' where "op_run (GrepOpWrapper compile pf cf args) (Some g1) ts
      = Some (Some g', concat (map (grep_row (Pattern g1) (ColumnNum g1)) ts))"
    and "Pattern g' = Pattern g1" "ColumnNum g' = ColumnNum g1"
    using Cons.IH [of g1] Cons.prems by auto
  then show ?case using g1 same by (simp add: grep_wrapper_step)
qed

lemma grep_first:
  "ts \<noteq> [] \<Longrightarrow> grep_setup compile pf cf args = Some g \<Longrightarrow>
   op_run (GrepOpWrapper compile pf cf args) None ts = op_run (GrepOpWrapper compile pf cf args) (Some g) ts"
  by (cases ts) (simp_all add: GrepOpWrapper_def [of _ _ _ _ None] grep_wrapper_step case_prod_beta)

subsection \<open>Count\<close>

lemma count_wrapper_step:
  "CountOpWrapper (Some c) t = Some (Some (fst (CountOp_Process c t)), snd (CountOp_Process c t))"
  by (simp add: CountOpWrapper_def split: prod.split)

definition counted :: "(string, int) gomap \<Rightarrow> string list \<Rightarrow> bool" where
  "counted m ks \<longleftrightarrow> go_map m \<and> set (go_keys m) = set ks \<and> (\<forall>k. go_get 0 m k = int (count_list ks k))"

lemma counted_step:
  assumes "counted m ks"
  shows "counted (AList.update k (go_get 0 m k + 1) m) (ks @ [k])"
proof -
  have "set (go_keys (AList.update k (go_get 0 m k + 1) m)) = set (ks @ [k])"
    using assms unfolding counted_def keys_update by simp
  then show ?thesis using assms by (simp add: counted_def go_get_update)
qed

lemma count_run:
  assumes "list_all (\<lambda>t. \<not> IsEOF t) ts" and "counted (Counts c) ks"
  shows "\<exists>c'. op_run CountOpWrapper (Some c) ts = Some (Some c', [])
    \<and> counted (Counts c') (ks @ map Key ts) \<and> Flushed c' = Flushed c"
  using assms
proof (induction ts arbitrary: c ks)
  case Nil
  then show ?case by simp
next
  case (Cons t ts)
  let ?c = "c\<lparr>Counts := AList.update (Key t) (go_get 0 (Counts c) (Key t) + 1) (Counts c)\<rparr>"
  have "counted (Counts ?c) (ks @ [Key t])" using counted_step [OF Cons.prems(2)] by simp
  from Cons.IH [OF _ this] Cons.prems(1)
  show ?case by (auto simp: count_wrapper_step CountOp_Process_def)
qed

lemma count_first:
  "ts \<noteq> [] \<Longrightarrow> op_run CountOpWrapper None ts = op_run CountOpWrapper (Some \<lparr>Counts = [], Flushed = False\<rparr>) ts"
  by (cases ts) (simp_all add: CountOpWrapper_def [of None] count_wrapper_step case_prod_beta)

text \<open>After the first end marker only end markers come out.\<close>

lemma count_after_flush:
  "Flushed c \<Longrightarrow> \<exists>c'. op_run CountOpWrapper (Some c) ts = Some (Some c', filter IsEOF ts)"
proof (induction ts arbitrary: c)
  case Nil
  then show ?case by simp
next
  case (Cons t ts)
  define c1 where "c1 = fst (CountOp_Process c t)"
  have c1: "CountOp_Process c t = (c1, if IsEOF t then [t] else [])" "Flushed c1"
    using Cons.prems by (simp_all add: c1_def CountOp_Process_def)
  then show ?case using Cons.IH [of c1] by (auto simp: count_wrapper_step)
qed

lemma flushed_counts:
  assumes "counted (Counts c) ks"
  shows "\<exists>words. distinct words \<and> set words = set ks
    \<and> FlushCounts c = map (\<lambda>w. count_tuple w (int (count_list ks w))) words"
proof -
  have "n = int (count_list ks w)" if "(w, n) \<in> set (Counts c)" for w n
  proof -
    have "map_of (Counts c) w = Some n"
      using that assms by (simp add: counted_def go_map_lookup_iff)
    then have "go_get 0 (Counts c) w = n" by (simp add: go_get_def)
    then show ?thesis using assms by (simp add: counted_def)
  qed
  then have "FlushCounts c = map (\<lambda>w. count_tuple w (int (count_list ks w))) (go_keys (Counts c))"
    by (auto simp: FlushCounts_def)
  then show ?thesis using assms unfolding counted_def by blast
qed

lemma count_report:
  assumes "list_all (\<lambda>t. \<not> IsEOF t) ts" and "IsEOF eof"
  shows "\<exists>words. distinct words \<and> set words = Key ` set ts
    \<and> map_option snd (op_run CountOpWrapper None ts) = Some []
    \<and> map_option snd (op_run CountOpWrapper None (ts @ eof # late))
        = Some (map (\<lambda>w. count_tuple w (int (count_list (map Key ts) w))) words @ eof # filter IsEOF late)"
proof -
  let ?c0 = "\<lparr>Counts = [], Flushed = False\<rparr>"
  have "counted (Counts ?c0) []" by (simp add: counted_def go_get_def)
  then obtain c where c: "op_run CountOpWrapper (Some ?c0) ts = Some (Some c, [])"
    and k: "counted (Counts c) (map Key ts)" and f: "\<not> Flushed c"
    using count_run [OF assms(1)] by force
  obtain words where w: "distinct words" "set words = Key ` set ts"
    and out: "FlushCounts c = map (\<lambda>w. count_tuple w (int (count_list (map Key ts) w))) words"
    using flushed_counts [OF k] by auto
  have "CountOp_Process c eof = (c\<lparr>Flushed := True\<rparr>, FlushCounts c @ [eof])"
    using f assms(2) by (simp add: CountOp_Process_def)
  moreover obtain c' where "op_run CountOpWrapper (Some (c\<lparr>Flushed := True\<rparr>)) late = Some (Some c', filter IsEOF late)"
    using count_after_flush [of "c\<lparr>Flushed := True\<rparr>"] by auto
  ultimately have fin: "op_run CountOpWrapper (Some c) (eof # late) = Some (Some c', FlushCounts c @ eof # filter IsEOF late)"
    by (simp add: count_wrapper_step)
  then have all: "op_run CountOpWrapper None (ts @ eof # late)
      = Some (Some c', FlushCounts c @ eof # filter IsEOF late)"
    using count_first [of "ts @ eof # late"] c fin by (simp add: op_run_append)
  have "map_option snd (op_run CountOpWrapper None ts) = Some []"
    using c by (cases "ts = []") (simp_all add: count_first)
  with all out w show ?thesis by auto
qed

text \<open>
  C35. What count emits: nothing until the first end marker, then each distinct key once with
  the number of tuples that had it, then the marker. Tuples that arrive between the first
  and the later markers, as they do when another source is slower, are never reported: only
  the markers follow.
\<close>

theorem count_emits_multiplicities:
  assumes "list_all (\<lambda>t. \<not> IsEOF t) ts" and "IsEOF eof"
  shows "\<exists>words. distinct words \<and> set words = Key ` set ts
    \<and> map_option snd (op_run CountOpWrapper None ts) = Some []
    \<and> map_option snd (op_run CountOpWrapper None (ts @ eof # late))
        = Some (map (\<lambda>w. count_tuple w (int (count_list (map Key ts) w))) words @ eof # filter IsEOF late)"
  using assms by (rule count_report)

theorem count_emits_multiplicities_witness:
  "\<exists>words. distinct words \<and> set words = {''a'', ''b''}
    \<and> map_option snd (op_run CountOpWrapper None
          [new_tuple ''a'' ''x'' ''1'', new_tuple ''b'' ''y'' ''2'', new_tuple ''a'' ''z'' ''3'',
           (new_tuple ''EOF'' ''e'' ''4'')\<lparr>IsEOF := True\<rparr>, new_tuple ''b'' ''late'' ''5''])
        = Some (map (\<lambda>w. count_tuple w (int (count_list [''a'', ''b'', ''a''] w))) words
            @ [(new_tuple ''EOF'' ''e'' ''4'')\<lparr>IsEOF := True\<rparr>])"
  using count_emits_multiplicities
    [of "[new_tuple ''a'' ''x'' ''1'', new_tuple ''b'' ''y'' ''2'', new_tuple ''a'' ''z'' ''3'']"
        "(new_tuple ''EOF'' ''e'' ''4'')\<lparr>IsEOF := True\<rparr>" "[new_tuple ''b'' ''late'' ''5'']"]
  by (simp add: new_tuple_def insert_commute) blast

subsection \<open>Grep and count together\<close>

text \<open>The reference: the number of lines that match and have the word in the column.\<close>

definition group_count :: "(string \<Rightarrow> bool) \<Rightarrow> int \<Rightarrow> Tuple list \<Rightarrow> string \<Rightarrow> nat" where
  "group_count matches col ts word =
     length (filter (\<lambda>t. matches (Value t) \<and> column_key col (Value t) = word) ts)"

lemma grep_rows_count:
  "0 < col \<Longrightarrow> count_list (map Key (concat (map (grep_row matches col) ts))) w = group_count matches col ts w"
  by (induction ts) (auto simp: grep_row_def group_count_def)

lemma grep_rows_keys:
  "0 < col \<Longrightarrow> Key ` set (concat (map (grep_row matches col) ts))
     = column_key col ` Value ` {t \<in> set ts. matches (Value t)}"
  by (force simp: grep_row_def)

text \<open>
  The first application of the program, grep by a pattern with a column followed by count:
  on the tuples of a stream, then the end marker, count reports every value that the column
  takes in a matching line, once each, with the number of matching lines that have it.
\<close>

theorem grep_count_groups:
  assumes "grep_setup compile patternFlag columnFlag args = Some g" and "0 < ColumnNum g"
    and "list_all (\<lambda>t. \<not> IsEOF t) ts" and "IsEOF eof"
  shows "\<exists>matched words.
      map_option snd (op_run (GrepOpWrapper compile patternFlag columnFlag args) None (ts @ [eof])) = Some matched
    \<and> map_option snd (op_run CountOpWrapper None matched)
        = Some (map (\<lambda>w. count_tuple w (int (group_count (Pattern g) (ColumnNum g) ts w))) words @ [eof])
    \<and> distinct words
    \<and> set words = column_key (ColumnNum g) ` Value ` {t \<in> set ts. Pattern g (Value t)}"
proof -
  define rows where "rows = concat (map (grep_row (Pattern g) (ColumnNum g)) ts)"
  obtain g' where "op_run (GrepOpWrapper compile patternFlag columnFlag args) (Some g) ts = Some (Some g', rows)"
    using grep_run [OF assms(3)] unfolding rows_def by blast
  then have matched: "map_option snd (op_run (GrepOpWrapper compile patternFlag columnFlag args) None (ts @ [eof]))
      = Some (rows @ [eof])"
    using assms(4) grep_first [OF _ assms(1), of "ts @ [eof]"]
    by (simp add: op_run_append grep_wrapper_step GrepOp_Process_def)
  have "list_all (\<lambda>t. \<not> IsEOF t) rows"
    using assms(3) by (auto simp: rows_def list_all_iff grep_row_def)
  from count_report [OF this assms(4), of "[]"] matched show ?thesis
    using grep_rows_count [OF assms(2)] grep_rows_keys [OF assms(2)] unfolding rows_def by auto
qed

theorem grep_count_groups_witness:
  "let compile = (\<lambda>p. Some (prefix p));
       ts = [new_tuple ''f:1'' ''w,red'' ''1'', new_tuple ''f:2'' ''x,red'' ''2'',
             new_tuple ''f:3'' ''w,red'' ''3'', new_tuple ''f:4'' ''w,blue'' ''4''];
       eof = (new_tuple ''EOF'' ''e'' ''5'')\<lparr>IsEOF := True\<rparr>
   in \<exists>matched words.
      map_option snd (op_run (GrepOpWrapper compile [] 0 [''w'', ''2'']) None (ts @ [eof])) = Some matched
    \<and> map_option snd (op_run CountOpWrapper None matched)
        = Some (map (\<lambda>w. count_tuple w (int (group_count (prefix ''w'') 2 ts w))) words @ [eof])
    \<and> set words = {''red'', ''blue''} \<and> group_count (prefix ''w'') 2 ts ''red'' = 2"
proof -
  have "grep_setup (\<lambda>p. Some (prefix p)) [] 0 [''w'', ''2''] =
      Some \<lparr>Pattern = prefix ''w'', MatchCount = 0, FilterCount = 0, ColumnNum = 2, EofForwarded = False\<rparr>"
    by (simp add: grep_setup_def) code_simp
  note config = this
  let ?ts = "[new_tuple ''f:1'' ''w,red'' ''1'', new_tuple ''f:2'' ''x,red'' ''2'',
        new_tuple ''f:3'' ''w,red'' ''3'', new_tuple ''f:4'' ''w,blue'' ''4'']"
  let ?eof = "(new_tuple ''EOF'' ''e'' ''5'')\<lparr>IsEOF := True\<rparr>"
  have "map (\<lambda>t. column_key 2 (Value t)) (filter (\<lambda>t. prefix ''w'' (Value t)) ?ts)
      = [''red'', ''red'', ''blue'']"
    by code_simp
  from arg_cong [OF this, of set]
  have words: "column_key 2 ` Value ` {t \<in> set ?ts. prefix ''w'' (Value t)} = {''red'', ''blue''}"
    by (simp only: set_map set_filter image_image list.set insert_absorb2)
  have two: "group_count (prefix ''w'') 2 ?ts ''red'' = 2" by code_simp
  have tuples: "list_all (\<lambda>t. \<not> IsEOF t) ?ts" "IsEOF ?eof" by (simp_all add: new_tuple_def)
  from grep_count_groups [OF config _ tuples] show ?thesis
    unfolding Let_def GrepOp.simps words using two by fastforce
qed

end
