(* ===== verification/Rs_Stream.thy ===== *)
theory Rs_Stream
  imports Rs_Ops
begin

text \<open>
  What the operator runtime guarantees for the tuples it receives: on one connection every id
  is processed once, and a sink prints what its operator emits for the first occurrences.

  \<^item> \<open>data_tuple\<close> excludes routing updates and acknowledgements.
  \<^item> \<open>fresh_tuples seen ts\<close> is the reference for duplicate detection: the tuples whose id was
    not seen before. End markers are never recorded, so each of them is fresh.
\<close>

section \<open>What emission leaves alone\<close>

definition op_frame :: "'st OpProc \<Rightarrow> 'st OpProc \<Rightarrow> bool" where
  "op_frame p q \<longleftrightarrow> OpState q = OpState p \<and> ProcessedIDs q = ProcessedIDs p
     \<and> TargetList q = TargetList p \<and> IsSinkStage q = IsSinkStage p
     \<and> IsShuttingDown q = IsShuttingDown p \<and> StateLogChan q = StateLogChan p"

lemma op_frame_refl [simp]: "op_frame p p"
  by (simp add: op_frame_def)

lemma op_frame_trans: "op_frame p q \<Longrightarrow> op_frame q r \<Longrightarrow> op_frame p r"
  by (simp add: op_frame_def)

lemma emit_frame: "op_frame p (fst (emit e fl t p))"
  by (simp add: op_frame_def emit_def emit_sink_def emit_eof_def emit_tuple_def broadcastEOF_def Let_def
      split: option.split)

lemma emit_all_Cons:
  "emit_all e fl (t # ts) p =
     (let q = emit e fl t p; r = emit_all e fl ts (fst q) in (fst r, snd q @ snd r))"
  by (simp add: Let_def case_prod_beta)

lemma emit_all_frame: "op_frame p (fst (emit_all e fl ts p))"
proof (induction ts arbitrary: p)
  case (Cons t ts)
  show ?case
    using op_frame_trans [OF emit_frame Cons.IH] by (simp add: emit_all_Cons Let_def del: emit_all.simps)
qed simp

lemma emit_crashed: "Crashed p \<Longrightarrow> emit e fl t p = (p, [])"
  by (simp add: emit_def Let_def)

lemma emit_all_crashed: "Crashed p \<Longrightarrow> emit_all e fl ts p = (p, [])"
  by (induction ts) (simp_all add: emit_crashed)

section \<open>Duplicates on one connection\<close>

definition data_tuple :: "Tuple \<Rightarrow> bool" where
  "data_tuple t \<longleftrightarrow> TpType t \<noteq> ''routing_update'' \<and> TpType t \<noteq> ''ack''"

primrec fresh_tuples :: "string list \<Rightarrow> Tuple list \<Rightarrow> Tuple list" where
  "fresh_tuples seen [] = []"
| "fresh_tuples seen (t # ts) =
     (if TupleID t \<in> set seen then fresh_tuples seen ts
      else t # fresh_tuples (if IsEOF t then seen else List.insert (TupleID t) seen) ts)"

lemma recv_data:
  assumes "data_tuple t" and "\<not> Crashed p"
  shows "recv process e fl t p =
    (if TupleID t \<in> set (ProcessedIDs p) then (p, [], Some (TupleID t)) else recv_finish process e fl t p)"
  using assms by (simp add: recv_def recv_check_def data_tuple_def)

lemma recv_crashed: "Crashed p \<Longrightarrow> recv process e fl t p = (p, [], None)"
  by (simp add: recv_def)

lemma recv_all_crashed: "Crashed p \<Longrightarrow> recv_all process e fl ts p = (p, [], map (\<lambda>t. None) ts)"
  by (induction ts) (simp_all add: recv_crashed)

lemma recv_all_Cons:
  "recv_all process e fl (t # ts) p =
     (let q = recv process e fl t p; r = recv_all process e fl ts (fst q)
      in (fst r, fst (snd q) @ fst (snd r), snd (snd q) # snd (snd r)))"
  by (simp add: Let_def case_prod_beta)

lemma recv_all_append:
  "recv_all process e fl (ts @ us) p =
     (let q = recv_all process e fl ts p; r = recv_all process e fl us (fst q)
      in (fst r, fst (snd q) @ fst (snd r), snd (snd q) @ snd (snd r)))"
  by (induction ts arbitrary: p) (simp_all add: Let_def case_prod_beta)

lemma checkpoint_fields [simp]:
  "ProcessedIDs (fst (checkpoint fl t p)) = ProcessedIDs p"
  "OpState (fst (checkpoint fl t p)) = OpState p"
  "TargetList (fst (checkpoint fl t p)) = TargetList p"
  "IsSinkStage (fst (checkpoint fl t p)) = IsSinkStage p"
  "IsShuttingDown (fst (checkpoint fl t p)) = IsShuttingDown p"
  "Crashed (fst (checkpoint fl t p)) = Crashed p"
  "Printed (fst (checkpoint fl t p)) = Printed p"
  "EofCount (fst (checkpoint fl t p)) = EofCount p"
  "EofTimer (fst (checkpoint fl t p)) = EofTimer p"
  "ShutdownSignal (fst (checkpoint fl t p)) = ShutdownSignal p"
  by (simp_all add: checkpoint_def split: option.split)

lemma mark_processed_fields [simp]:
  "OpState (mark_processed t p) = OpState p" "TargetList (mark_processed t p) = TargetList p"
  "IsSinkStage (mark_processed t p) = IsSinkStage p" "Crashed (mark_processed t p) = Crashed p"
  "IsShuttingDown (mark_processed t p) = IsShuttingDown p"
  "Printed (mark_processed t p) = Printed p" "EofCount (mark_processed t p) = EofCount p"
  "EofTimer (mark_processed t p) = EofTimer p" "ShutdownSignal (mark_processed t p) = ShutdownSignal p"
  "ProcessedIDs (mark_processed t p)
     = (if IsEOF t then ProcessedIDs p else List.insert (TupleID t) (ProcessedIDs p))"
  by (simp_all add: mark_processed_def)

lemma count_tuple_seen_fields [simp]:
  "OpState (count_tuple_seen t p) = OpState p" "TargetList (count_tuple_seen t p) = TargetList p"
  "IsSinkStage (count_tuple_seen t p) = IsSinkStage p" "Crashed (count_tuple_seen t p) = Crashed p"
  "IsShuttingDown (count_tuple_seen t p) = IsShuttingDown p"
  "Printed (count_tuple_seen t p) = Printed p" "EofCount (count_tuple_seen t p) = EofCount p"
  "EofTimer (count_tuple_seen t p) = EofTimer p" "ShutdownSignal (count_tuple_seen t p) = ShutdownSignal p"
  "ProcessedIDs (count_tuple_seen t p) = ProcessedIDs p"
  by (simp_all add: count_tuple_seen_def)

text \<open>The three ways a fresh tuple can end: the operator exits, a send panics, or all is well.\<close>

lemma recv_finish_cases:
  obtains (exits) "process (OpState p) t = None" "Crashed (fst (recv_finish process e fl t p))"
      "fst (snd (recv_finish process e fl t p)) = []" "snd (snd (recv_finish process e fl t p)) = None"
  | (panics) st o1 where "process (OpState p) t = Some (st, o1)" "Crashed (fst (recv_finish process e fl t p))"
      "snd (snd (recv_finish process e fl t p)) = None"
  | (ends) st o1 q where "process (OpState p) t = Some (st, o1)"
      "q = fst (emit_all e fl o1 ((count_tuple_seen t p)\<lparr>OpState := st\<rparr>))" "\<not> Crashed q"
      "fst (recv_finish process e fl t p) = mark_processed t (fst (checkpoint fl t q))"
      "snd (snd (recv_finish process e fl t p)) = Some (TupleID t)"
proof (cases "process (OpState p) t")
  case None
  then show ?thesis by (intro exits) (simp_all add: recv_finish_def Let_def)
next
  case (Some so)
  then obtain st o1 where so: "process (OpState p) t = Some (st, o1)" by (cases so) auto
  let ?r = "emit_all e fl o1 ((count_tuple_seen t p)\<lparr>OpState := st\<rparr>)"
  show ?thesis
  proof (cases "Crashed (fst ?r)")
    case True
    then show ?thesis using so by (intro panics [OF so]) (simp_all add: recv_finish_def Let_def case_prod_beta)
  next
    case False
    then show ?thesis using so by (intro ends [OF so refl False]) (simp_all add: recv_finish_def Let_def case_prod_beta)
  qed
qed

lemma recv_finish_ids:
  "\<not> Crashed (fst (recv_finish process e fl t p)) \<Longrightarrow>
   ProcessedIDs (fst (recv_finish process e fl t p))
     = (if IsEOF t then ProcessedIDs p else List.insert (TupleID t) (ProcessedIDs p))
   \<and> snd (snd (recv_finish process e fl t p)) = Some (TupleID t)"
proof (rule recv_finish_cases [of process p t e fl])
  fix st o1 q
  assume "\<not> Crashed (fst (recv_finish process e fl t p))"
    and q: "q = fst (emit_all e fl o1 ((count_tuple_seen t p)\<lparr>OpState := st\<rparr>))"
    and r: "fst (recv_finish process e fl t p) = mark_processed t (fst (checkpoint fl t q))"
      "snd (snd (recv_finish process e fl t p)) = Some (TupleID t)"
  have "ProcessedIDs q = ProcessedIDs p"
    using emit_all_frame [of "(count_tuple_seen t p)\<lparr>OpState := st\<rparr>" e fl o1] q
    by (simp add: op_frame_def)
  then show ?thesis using r by simp
qed simp_all

text \<open>Duplicates change nothing: a connection may as well carry the first occurrences only.\<close>

lemma recv_all_fresh:
  assumes "list_all data_tuple ts"
  shows "fst (recv_all process e fl ts p) = fst (recv_all process e fl (fresh_tuples (ProcessedIDs p) ts) p)
    \<and> fst (snd (recv_all process e fl ts p))
        = fst (snd (recv_all process e fl (fresh_tuples (ProcessedIDs p) ts) p))
    \<and> (\<not> Crashed (fst (recv_all process e fl ts p)) \<longrightarrow>
        snd (snd (recv_all process e fl ts p)) = map (\<lambda>t. Some (TupleID t)) ts)"
  using assms
proof (induction ts arbitrary: p)
  case Nil
  then show ?case by simp
next
  case (Cons t ts)
  have d: "data_tuple t" "list_all data_tuple ts" using Cons.prems by simp_all
  consider (crashed) "Crashed p" | (dup) "\<not> Crashed p" "TupleID t \<in> set (ProcessedIDs p)"
    | (new) "\<not> Crashed p" "TupleID t \<notin> set (ProcessedIDs p)" by blast
  then show ?case
  proof cases
    case crashed
    then show ?thesis by (simp add: recv_all_crashed recv_crashed)
  next
    case dup
    then have "recv process e fl t p = (p, [], Some (TupleID t))" using d by (simp add: recv_data)
    then show ?thesis using Cons.IH [OF d(2), of p] dup by (simp add: case_prod_beta)
  next
    case new
    define q where "q = recv_finish process e fl t p"
    have r: "recv process e fl t p = q" using new d by (simp add: recv_data q_def)
    show ?thesis
    proof (cases "Crashed (fst q)")
      case True
      then show ?thesis using new r by (simp add: recv_all_crashed case_prod_beta)
    next
      case False
      have ids: "ProcessedIDs (fst q) = (if IsEOF t then ProcessedIDs p else List.insert (TupleID t) (ProcessedIDs p))"
        and ack: "snd (snd q) = Some (TupleID t)"
        using recv_finish_ids [of process e fl t p] False by (simp_all add: q_def)
      show ?thesis
        using Cons.IH [OF d(2), of "fst q"] new r ids ack by (simp add: case_prod_beta)
    qed
  qed
qed

section \<open>A sink\<close>

lemma emit_at_sink:
  assumes "TargetList p = []" and "\<not> Crashed p"
  shows "snd (emit e fl t p) = []" "\<not> Crashed (fst (emit e fl t p))"
    "Printed (fst (emit e fl t p)) = Printed p @ (if IsEOF t then [] else [Value t])"
    "OutFile (fst (emit e fl t p)) = map_option (\<lambda>ls. ls @ (if IsEOF t then [] else [Value t])) (OutFile p)"
  using assms by (simp_all add: emit_def emit_sink_def Let_def option.map_ident)

lemma emit_all_at_sink:
  assumes "TargetList p = []" and "\<not> Crashed p"
  shows "\<not> Crashed (fst (emit_all e fl ts p))
    \<and> Printed (fst (emit_all e fl ts p)) = Printed p @ map Value (filter (\<lambda>t. \<not> IsEOF t) ts)
    \<and> OutFile (fst (emit_all e fl ts p))
        = map_option (\<lambda>ls. ls @ map Value (filter (\<lambda>t. \<not> IsEOF t) ts)) (OutFile p)"
  using assms
proof (induction ts arbitrary: p)
  case Nil
  then show ?case by (simp add: option.map_ident)
next
  case (Cons t ts)
  let ?q = "fst (emit e fl t p)"
  have "TargetList ?q = []" using emit_frame [of p e fl t] Cons.prems by (simp add: op_frame_def)
  from Cons.IH [OF this] emit_at_sink [OF Cons.prems, of e fl t]
  show ?case
    by (simp add: emit_all_Cons Let_def option.map_comp comp_def del: emit_all.simps)
qed

lemma checkpoint_OutFile [simp]: "OutFile (fst (checkpoint fl t p)) = OutFile p"
  by (simp add: checkpoint_def split: option.split)

lemma mark_processed_OutFile [simp]: "OutFile (mark_processed t p) = OutFile p"
  by (simp add: mark_processed_def)

lemma count_tuple_seen_OutFile [simp]: "OutFile (count_tuple_seen t p) = OutFile p"
  by (simp add: count_tuple_seen_def)

lemma recv_finish_at_sink:
  assumes "TargetList p = []" and "\<not> Crashed p" and "process (OpState p) t = Some (st, emitted)"
  shows "\<not> Crashed (fst (recv_finish process e fl t p))"
    "OpState (fst (recv_finish process e fl t p)) = st"
    "TargetList (fst (recv_finish process e fl t p)) = []"
    "Printed (fst (recv_finish process e fl t p))
       = Printed p @ map Value (filter (\<lambda>t. \<not> IsEOF t) emitted)"
    "OutFile (fst (recv_finish process e fl t p))
       = map_option (\<lambda>ls. ls @ map Value (filter (\<lambda>t. \<not> IsEOF t) emitted)) (OutFile p)"
proof -
  let ?p = "(count_tuple_seen t p)\<lparr>OpState := st\<rparr>"
  let ?q = "fst (emit_all e fl emitted ?p)"
  have q: "\<not> Crashed ?q" "Printed ?q = Printed p @ map Value (filter (\<lambda>t. \<not> IsEOF t) emitted)"
    "OutFile ?q = map_option (\<lambda>ls. ls @ map Value (filter (\<lambda>t. \<not> IsEOF t) emitted)) (OutFile p)"
    using emit_all_at_sink [of ?p e fl emitted] assms by simp_all
  have f: "OpState ?q = st" "TargetList ?q = []"
    using emit_all_frame [of ?p e fl emitted] assms by (simp_all add: op_frame_def)
  have "fst (recv_finish process e fl t p) = mark_processed t (fst (checkpoint fl t ?q))"
    using q(1) assms(3) by (simp add: recv_finish_def Let_def case_prod_beta)
  with q f show "\<not> Crashed (fst (recv_finish process e fl t p))"
    "OpState (fst (recv_finish process e fl t p)) = st"
    "TargetList (fst (recv_finish process e fl t p)) = []"
    "Printed (fst (recv_finish process e fl t p))
       = Printed p @ map Value (filter (\<lambda>t. \<not> IsEOF t) emitted)"
    "OutFile (fst (recv_finish process e fl t p))
       = map_option (\<lambda>ls. ls @ map Value (filter (\<lambda>t. \<not> IsEOF t) emitted)) (OutFile p)"
    by simp_all
qed

lemma sink_run:
  assumes "list_all data_tuple ts" and "TargetList p = []" and "\<not> Crashed p"
    and "op_run process (OpState p) (fresh_tuples (ProcessedIDs p) ts) = Some (st', emitted)"
  shows "\<not> Crashed (fst (recv_all process e fl ts p))
    \<and> OpState (fst (recv_all process e fl ts p)) = st'
    \<and> Printed (fst (recv_all process e fl ts p))
        = Printed p @ map Value (filter (\<lambda>t. \<not> IsEOF t) emitted)
    \<and> OutFile (fst (recv_all process e fl ts p))
        = map_option (\<lambda>ls. ls @ map Value (filter (\<lambda>t. \<not> IsEOF t) emitted)) (OutFile p)"
  using assms
proof (induction ts arbitrary: p emitted)
  case Nil
  then show ?case by (simp add: option.map_ident)
next
  case (Cons t ts)
  have d: "data_tuple t" "list_all data_tuple ts" using Cons.prems by simp_all
  show ?case
  proof (cases "TupleID t \<in> set (ProcessedIDs p)")
    case True
    then have "recv process e fl t p = (p, [], Some (TupleID t))" using d Cons.prems by (simp add: recv_data)
    then show ?thesis using Cons.IH [OF d(2), of p emitted] Cons.prems True by (simp add: case_prod_beta)
  next
    case False
    let ?ids = "if IsEOF t then ProcessedIDs p else List.insert (TupleID t) (ProcessedIDs p)"
    obtain st o1 o2 where po: "process (OpState p) t = Some (st, o1)"
      and rest: "op_run process st (fresh_tuples ?ids ts) = Some (st', o2)" and em: "emitted = o1 @ o2"
      using Cons.prems(4) False by (auto split: option.splits)
    let ?q = "fst (recv_finish process e fl t p)"
    note at = recv_finish_at_sink [where process = process and t = t and e = e and fl = fl, OF Cons.prems(2,3) po]
    have ids: "ProcessedIDs ?q = ?ids" using recv_finish_ids [of process e fl t p] at(1) by blast
    have r: "fst (recv_all process e fl (t # ts) p) = fst (recv_all process e fl ts ?q)"
      using False d Cons.prems by (simp add: recv_data case_prod_beta)
    show ?thesis
      using Cons.IH [OF d(2), of ?q o2] at ids rest em
      unfolding r by (simp add: option.map_comp comp_def)
  qed
qed

text \<open>
  C10. Exactly once at a sink: on one connection, whatever repetitions arrive and whatever was
  processed before, the sink's operator sees the first occurrence of each id that is new, in
  order, its output and its output file grow by exactly what the operator emits for those,
  and every tuple is acknowledged.
\<close>

theorem sink_exactly_once:
  assumes "list_all data_tuple ts" and "TargetList p = []" and "\<not> Crashed p"
    and "op_run process (OpState p) (fresh_tuples (ProcessedIDs p) ts) = Some (st', emitted)"
  shows "case recv_all process e fl ts p of (q, outs, acks) \<Rightarrow>
      OpState q = st'
    \<and> Printed q = Printed p @ map Value (filter (\<lambda>t. \<not> IsEOF t) emitted)
    \<and> OutFile q = map_option (\<lambda>ls. ls @ map Value (filter (\<lambda>t. \<not> IsEOF t) emitted)) (OutFile p)
    \<and> acks = map (\<lambda>t. Some (TupleID t)) ts"
  using sink_run [OF assms, of e fl] recv_all_fresh [OF assms(1), of process e fl p]
  by (simp add: case_prod_beta)

definition sample_flags :: OpFlags where
  "sample_flags = \<lparr>FlPort = 10005, FlTargets = [], FlOutput = ''/out.txt'', FlNumSources = 2,
     FlHydfsDest = [], FlHydfsLeader = ''vm2:8000'', FlTaskID = ''stage1-task-0''\<rparr>"

definition sample_tuple :: "string \<Rightarrow> string \<Rightarrow> Tuple" where
  "sample_tuple tid v = \<lparr>TpType = ''tuple'', Key = v, Value = v, TupleID = tid, IsEOF = False\<rparr>"

theorem sink_exactly_once_witness:
  "Printed (fst (recv_all EchoOp \<lparr>OpTries = \<lambda>a t. [], OpUp = \<lambda>a. True\<rparr> sample_flags
      [sample_tuple ''1'' ''a'', sample_tuple ''2'' ''b'', sample_tuple ''1'' ''a'', sample_tuple ''3'' ''c'']
      (start_operation sample_flags None ())))
    = [''a processed'', ''b processed'', ''c processed'']"
  using sink_exactly_once [of
      "[sample_tuple ''1'' ''a'', sample_tuple ''2'' ''b'', sample_tuple ''1'' ''a'', sample_tuple ''3'' ''c'']"
      "start_operation sample_flags None ()" EchoOp "()"
      "[new_tuple ''a'' ''a processed'' ''1'', new_tuple ''b'' ''b processed'' ''2'', new_tuple ''c'' ''c processed'' ''3'']"
      "\<lparr>OpTries = \<lambda>a t. [], OpUp = \<lambda>a. True\<rparr>" sample_flags]
  by (simp add: sample_tuple_def sample_flags_def start_operation_def fetchStateFromHyDFS_def Let_def
      data_tuple_def EchoOp_def new_tuple_def case_prod_beta del: recv_all.simps)

section \<open>Two connections\<close>

text \<open>
  C38. The lookup and the mark of an id are two critical sections: a retransmission that arrives
  on a second connection while the first copy is being processed is not recognised. Both
  copies pass the check, both are processed, and a sink prints the value twice. This is what
  happens when the sender's acknowledgement timeout expires on a slow task and it reconnects.
\<close>

theorem dedup_race:
  assumes "data_tuple t" and "\<not> IsEOF t" and "TupleID t \<notin> set (ProcessedIDs p)"
    and "TargetList p = []" and "\<not> Crashed p"
  shows "case recv_check t p of (p1, v1) \<Rightarrow>
     case recv_check t p1 of (p2, v2) \<Rightarrow>
     case recv_finish IdentityOp e fl t p2 of (p3, outs1, ack1) \<Rightarrow>
     case recv_finish IdentityOp e fl t p3 of (p4, outs2, ack2) \<Rightarrow>
       v1 = Fresh \<and> v2 = Fresh \<and> ack1 = Some (TupleID t) \<and> ack2 = Some (TupleID t)
     \<and> Printed p4 = Printed p @ [Value t, Value t]
     \<and> Printed (fst (recv_all IdentityOp e fl [t, t] p)) = Printed p @ [Value t]"
proof -
  have c: "recv_check t p = (p, Fresh)" using assms(1,3) by (simp add: recv_check_def data_tuple_def)
  let ?q = "fst (recv_finish IdentityOp e fl t p)"
  have po: "IdentityOp st t = Some (st, [t])" for st by (simp add: IdentityOp_def)
  note a1 = recv_finish_at_sink [where process = IdentityOp and t = t and e = e and fl = fl, OF assms(4,5) po]
  note a2 = recv_finish_at_sink [where process = IdentityOp and t = t and e = e and fl = fl, OF a1(3,1) po]
  have acks: "snd (snd (recv_finish IdentityOp e fl t p)) = Some (TupleID t)"
    "snd (snd (recv_finish IdentityOp e fl t ?q)) = Some (TupleID t)"
    using recv_finish_ids a1(1) a2(1) by blast+
  have "Printed (fst (recv_all IdentityOp e fl [t, t] p)) = Printed p @ [Value t]"
    using sink_run [of "[t, t]" p IdentityOp "OpState p" "[t]" e fl] assms po by simp
  with c a1 a2 acks assms(2) show ?thesis by (simp add: case_prod_beta del: recv_all.simps)
qed

theorem dedup_race_witness:
  "case recv_finish IdentityOp \<lparr>OpTries = \<lambda>a t. [], OpUp = \<lambda>a. True\<rparr> sample_flags
          (sample_tuple ''1'' ''a'') (start_operation sample_flags None ()) of (p3, outs1, ack1) \<Rightarrow>
     Printed (fst (recv_finish IdentityOp \<lparr>OpTries = \<lambda>a t. [], OpUp = \<lambda>a. True\<rparr> sample_flags
        (sample_tuple ''1'' ''a'') p3)) = [''a'', ''a'']"
proof -
  have p: "recv_check (sample_tuple ''1'' ''a'') (start_operation sample_flags None ())
      = (start_operation sample_flags None (), Fresh)"
    "Printed (start_operation sample_flags None ()) = []"
    "Value (sample_tuple ''1'' ''a'') = ''a''"
    by (simp_all add: recv_check_def sample_tuple_def start_operation_def sample_flags_def Let_def
        fetchStateFromHyDFS_def)
  show ?thesis
    using dedup_race [of "sample_tuple ''1'' ''a''" "start_operation sample_flags None ()"
        "\<lparr>OpTries = \<lambda>a t. [], OpUp = \<lambda>a. True\<rparr>" sample_flags] p
    by (simp add: sample_tuple_def data_tuple_def start_operation_def sample_flags_def Let_def
        fetchStateFromHyDFS_def case_prod_beta del: recv_all.simps)
qed

end
