(* ===== verification/Rs_Delivery.thy ===== *)
theory Rs_Delivery
  imports Rs_Worker Rs_Stream Rs_Leader_Props
begin

text \<open>
  From the source file to the receiving task: the partition of the lines among the source tasks
  (\<open>runSourceTask\<close> in \<open>pkg/rainstorm/worker.go\<close>), the transmissions that acknowledgements and
  retries lead to, and what the receiver makes of them.
\<close>

section \<open>The partition of the lines\<close>

definition numbered_lines :: "bytes \<Rightarrow> (nat \<times> string) list" where
  "numbered_lines content =
     (let ls = split_on (CHR ''\<newline>'') content in zip [1..<Suc (length ls)] ls)"

lemma source_lines_filter:
  assumes "TotalTasks task = int n" and "0 < n"
  shows "source_lines task content
    = filter (\<lambda>(k, line). int ((k - 1) mod n) = TaskIndex task) (numbered_lines content)"
proof -
  let ?ls = "split_on (CHR ''\<newline>'') content"
  have z: "zip [1..<Suc (length ?ls)] ?ls = map (\<lambda>(i, line). (i + 1, line)) (zip [0..<length ?ls] ?ls)"
    by (simp add: map_Suc_upt [symmetric] zip_map1 One_nat_def del: upt_Suc)
  have "go_rem (int i) (int n) = int (i mod n)" for i
    using assms(2) by (simp add: go_rem_nonneg zmod_int)
  then show ?thesis
    unfolding source_lines_def numbered_lines_def Let_def z filter_map
    by (simp add: assms(1) comp_def split_def)
qed

lemma numbered_lines_distinct: "distinct (map fst (numbered_lines content))"
  by (simp add: numbered_lines_def Let_def del: upt_Suc)

lemma mset_partition:
  assumes "\<forall>x \<in> set xs. f x < n"
  shows "mset (concat (map (\<lambda>i. filter (\<lambda>x. f x = i) xs) [0..<n])) = mset xs"
  using assms
proof (induction n arbitrary: xs)
  case (Suc n)
  let ?ys = "filter (\<lambda>x. f x \<noteq> n) xs"
  have ys: "mset (concat (map (\<lambda>i. filter (\<lambda>x. f x = i) ?ys) [0..<n])) = mset ?ys"
    by (rule Suc.IH) (use Suc.prems in \<open>auto simp: less_Suc_eq\<close>)
  have same: "map (\<lambda>i. filter (\<lambda>x. f x = i) ?ys) [0..<n] = map (\<lambda>i. filter (\<lambda>x. f x = i) xs) [0..<n]"
    by (auto intro!: filter_cong)
  have "mset (concat (map (\<lambda>i. filter (\<lambda>x. f x = i) xs) [0..<n])) = mset ?ys"
    using ys unfolding same .
  moreover have "mset xs = mset ?ys + mset (filter (\<lambda>x. f x = n) xs)"
    using multiset_partition [of "mset xs" "\<lambda>x. f x \<noteq> n"] unfolding not_not mset_filter .
  ultimately show ?case by (simp only: upt_Suc if_True le0 map_append concat_append mset_append
        list.map concat.simps append_Nil2)
qed simp

lemma distinct_concat_map:
  assumes "\<And>i. distinct (g i)" and "\<And>i j. i \<noteq> j \<Longrightarrow> set (g i) \<inter> set (g j) = {}" and "distinct ks"
  shows "distinct (concat (map g ks))"
  using assms(3)
proof (induction ks)
  case (Cons k ks)
  have "set (g k) \<inter> (\<Union>j \<in> set ks. set (g j)) = {}" using Cons.prems assms(2) [of k] by fastforce
  with Cons assms(1) show ?case by simp
qed simp

lemma source_tuple_id: "TupleID (source_tuple tid f n v) = tid @ ''-tuple-'' @ dec n"
  by (simp add: source_tuple_def)

lemma dec_split: "dec i @ CHR ''-'' # x = dec j @ CHR ''-'' # y \<Longrightarrow> i = j \<and> x = y"
proof -
  assume eq: "dec i @ CHR ''-'' # x = dec j @ CHR ''-'' # y"
  have tw: "takeWhile is_digit (dec k @ CHR ''-'' # z) = dec k" for k z
    using dec_digits [of _ k] by (subst takeWhile_append2) (auto simp: is_digit_def)
  have "dec i = dec j" using arg_cong [OF eq, of "takeWhile is_digit"] by (simp add: tw)
  then show ?thesis using eq by simp
qed

lemma source_id_inject:
  "''src-task-'' @ dec i @ ''-tuple-'' @ dec m = ''src-task-'' @ dec j @ ''-tuple-'' @ dec n \<longleftrightarrow> i = j \<and> m = n"
  using dec_split [of i "''tuple-'' @ dec m" j "''tuple-'' @ dec n"] by auto

text \<open>The facts of the partition, for one file and the tasks that read it.\<close>

lemma source_tasks_partition:
  assumes "NumTasks payload = int n" and "0 < n"
  shows "mset (concat (map (\<lambda>i. source_lines (source_task cfg stamp payload (int i) (port i) (worker i)) content) [0..<n]))
      = mset (numbered_lines content)"
    and "distinct (concat (map (\<lambda>i. map TupleID
        (source_tuples (source_task cfg stamp payload (int i) (port i) (worker i)) content)) [0..<n]))"
proof -
  let ?t = "\<lambda>i. source_task cfg stamp payload (int i) (port i) (worker i)"
  let ?ls = "numbered_lines content"
  have t: "TotalTasks (?t i) = int n" "TaskIndex (?t i) = int i" "TkID (?t i) = ''src-task-'' @ dec i" for i
    using assms(1) by (simp_all add: source_task_def zero_task_def dec_int_def)
  have lines: "source_lines (?t i) content = filter (\<lambda>x. (fst x - 1) mod n = i) ?ls" for i
    using source_lines_filter [OF t(1) assms(2)] by (simp add: t(2) split_def)
  show "mset (concat (map (\<lambda>i. source_lines (?t i) content) [0..<n])) = mset ?ls"
    unfolding lines by (rule mset_partition) (use assms(2) in simp)
  have ids: "map TupleID (source_tuples (?t i) content)
      = map (\<lambda>k. ''src-task-'' @ dec i @ ''-tuple-'' @ dec k)
          (map fst (filter (\<lambda>(k, line). trim_space line \<noteq> []) (source_lines (?t i) content)))" for i
    by (simp add: source_tuples_def source_tuple_id t(3) comp_def split_def)
  have "distinct (map fst (source_lines (?t i) content))" for i
    unfolding lines by (rule distinct_map_filter) (rule numbered_lines_distinct)
  then have each: "distinct (map TupleID (source_tuples (?t i) content))" for i
    unfolding ids by (subst distinct_map) (auto simp: source_id_inject inj_on_def intro: distinct_map_filter)
  have apart: "set (map TupleID (source_tuples (?t i) content)) \<inter> set (map TupleID (source_tuples (?t j) content)) = {}"
    if "i \<noteq> j" for i j
    unfolding ids using that by (auto dest: dec_split)
  show "distinct (concat (map (\<lambda>i. map TupleID (source_tuples (?t i) content)) [0..<n]))"
    by (rule distinct_concat_map [OF each apart distinct_upt])
qed

text \<open>
  C26. The source tasks of a job partition the file: together they read every line of it, with
  its number, exactly once, and the ids they give to the tuples of different lines differ, so
  that no task of the job takes one line for a repetition of another.
\<close>

theorem source_partition:
  assumes "NumTasks payload = int n" and "0 < n"
  shows "mset (concat (map (\<lambda>i. source_lines (source_task cfg stamp payload (int i) (port i) (worker i)) content) [0..<n]))
      = mset (numbered_lines content)
    \<and> distinct (concat (map (\<lambda>i. map TupleID
        (source_tuples (source_task cfg stamp payload (int i) (port i) (worker i)) content)) [0..<n]))"
  by (intro conjI source_tasks_partition [OF assms])

definition sample_submit :: JobSubmitPayload where
  "sample_submit = \<lparr>App = ''app'', SrcFile = ''f'', DestFile = ''out'', NumTasks = 2, Stages = [''grep''],
     StageArgs = [], JobExactlyOnce = True, AutoScale = False, JobInputRate = 0,
     JobLowWatermark = 0, JobHighWatermark = 0\<rparr>"

theorem source_partition_witness:
  "mset (concat (map (\<lambda>i. source_lines (source_task \<lparr>NodePort = 8000, ClientPort = 8003, MembershipPort = 8001,
        RainStormPort = 8002, Nodes = [], VMs = []\<rparr> [] sample_submit (int i) 10000 ''vm2'') ''x\<newline>y\<newline>x'') [0..<2]))
    = {#(1, ''x''), (2, ''y''), (3, ''x'')#}"
proof -
  have "numbered_lines ''x\<newline>y\<newline>x'' = [(1, ''x''), (2, ''y''), (3, ''x'')]" by code_simp
  then show ?thesis
    using source_partition [of sample_submit 2 "\<lparr>NodePort = 8000, ClientPort = 8003, MembershipPort = 8001,
        RainStormPort = 8002, Nodes = [], VMs = []\<rparr>" "[]" "\<lambda>i. 10000" "\<lambda>i. ''vm2''" "''x\<newline>y\<newline>x''", THEN conjunct1]
    by (simp only: sample_submit_def JobSubmitPayload.simps mset.simps) simp
qed

section \<open>Transmissions\<close>

lemma src_attempts_sent:
  "src_attempts as t target s = (s', sent, r) \<Longrightarrow>
   length sent \<le> length as \<and> (r = Delivered \<longrightarrow> sent \<noteq> [])"
proof (induction as arbitrary: target s s' sent r)
  case (Cons a as)
  define c where "c = (if target \<in> set (SrcConns s) then Some (s, target, True)
      else case src_reconnect a (Key t) target s of None \<Rightarrow> None
        | Some (s1, target1) \<Rightarrow> Some (if SaDial a then src_add target1 s1 else s1, target1, SaDial a))"
  note prem = Cons.prems [unfolded src_attempts.simps, folded c_def]
  show ?case
  proof (cases c)
    case None
    then show ?thesis using prem by simp
  next
    case (Some st)
    then obtain s1 target1 up where c: "c = Some (s1, target1, up)" by (cases st) auto
    consider (retry) s2 where "src_attempts as t target1 s2 = (s', sent, r)"
      | (good) "sent = [target1]"
      | (lost) s2 sent2 where "src_attempts as t target1 s2 = (s', sent2, r)" "sent = target1 # sent2"
      using prem unfolding c option.case prod.case
      by (auto split: if_splits src_ack.splits prod.splits)
    then show ?thesis
    proof cases
      case retry
      then show ?thesis using Cons.IH by fastforce
    next
      case good
      then show ?thesis by simp
    next
      case lost
      then show ?thesis using Cons.IH [OF lost(1)] by simp
    qed
  qed
qed simp

lemma deliver_tuple_sent:
  assumes "deliver_tuple tries t s = (s', sent, r)"
  shows "length sent \<le> 10 \<and> (r = Delivered \<longrightarrow> sent \<noteq> [])"
proof (cases "pick_target (Key t) (SrcTargets s)")
  case (Some target)
  then show ?thesis using assms src_attempts_sent [of "take 10 tries" t target s s' sent r]
    by (auto simp: deliver_tuple_def)
qed (use assms in \<open>simp add: deliver_tuple_def\<close>)

text \<open>The receiver sees every tuple as often as it was transmitted, in the order of the source.\<close>

fun repeated :: "nat list \<Rightarrow> 'a list \<Rightarrow> 'a list" where
  "repeated (k # ks) (x # xs) = replicate k x @ repeated ks xs"
| "repeated _ _ = []"

lemma deliver_all_sent:
  "deliver_all tries ts s = (s', sent, n, True) \<Longrightarrow>
   \<exists>ks. length ks = length ts \<and> map snd sent = repeated ks ts \<and> list_all (\<lambda>k. k \<le> 10) ks
     \<and> n \<le> length ts \<and> (n = length ts \<longrightarrow> list_all (\<lambda>k. 0 < k) ks)"
proof (induction ts arbitrary: s s' sent n)
  case (Cons t ts)
  obtain s1 sent1 r where d: "deliver_tuple (tries t) t s = (s1, sent1, r)" by (cases "deliver_tuple (tries t) t s") auto
  then have "r \<noteq> SrcPanic" using Cons.prems by auto
  obtain s2 rest m ok where a: "deliver_all tries ts s1 = (s2, rest, m, ok)" by (cases "deliver_all tries ts s1") auto
  have eq: "sent = map (\<lambda>a. (a, t)) sent1 @ rest" "n = (if r = Delivered then m + 1 else m)" "ok"
    using Cons.prems d a \<open>r \<noteq> SrcPanic\<close> by (cases r; simp)+
  have a: "deliver_all tries ts s1 = (s2, rest, m, True)" using a eq(3) by simp
  obtain ks where ks: "length ks = length ts" "map snd rest = repeated ks ts" "list_all (\<lambda>k. k \<le> 10) ks"
    "m \<le> length ts" "m = length ts \<longrightarrow> list_all (\<lambda>k. 0 < k) ks"
    using Cons.IH [OF a] by blast
  have one: "length sent1 \<le> 10" "r = Delivered \<longrightarrow> sent1 \<noteq> []" using deliver_tuple_sent [OF d] by simp_all
  have "map snd sent = repeated (length sent1 # ks) (t # ts)"
    using ks(2) by (simp add: eq(1) comp_def map_replicate_const)
  then show ?case using ks one eq(2) by (intro exI [of _ "length sent1 # ks"]) (auto split: if_splits)
qed (simp add: exI [of _ "[]"])

lemma fresh_replicate:
  assumes "0 < k" and "\<not> IsEOF t" and "TupleID t \<notin> set seen"
  shows "fresh_tuples seen (replicate k t @ ts) = t # fresh_tuples (List.insert (TupleID t) seen) ts"
proof -
  obtain j where "k = Suc j" using assms(1) by (cases k) auto
  moreover have "fresh_tuples (List.insert (TupleID t) seen) (replicate j t @ ts)
      = fresh_tuples (List.insert (TupleID t) seen) ts" for j
    by (induction j) simp_all
  ultimately show ?thesis using assms(2,3) by simp
qed

lemma fresh_repeated:
  assumes "length ks = length ts" and "list_all (\<lambda>k. 0 < k) ks" and "list_all (\<lambda>t. \<not> IsEOF t) ts"
    and "distinct (map TupleID ts)" and "TupleID ` set ts \<inter> set seen = {}"
    and "list_all (\<lambda>u. IsEOF u \<and> TupleID u \<notin> set seen \<union> TupleID ` set ts) us"
  shows "fresh_tuples seen (repeated ks ts @ us) = ts @ us"
  using assms
proof (induction ks ts arbitrary: seen rule: list_induct2)
  case Nil
  then show ?case by (induction us) auto
next
  case (Cons k ks t ts)
  let ?seen = "List.insert (TupleID t) seen"
  have "TupleID ` set ts \<inter> set ?seen = {}" using Cons.prems by auto
  moreover have "list_all (\<lambda>u. IsEOF u \<and> TupleID u \<notin> set ?seen \<union> TupleID ` set ts) us"
    using Cons.prems(5) by (auto simp: list_all_iff)
  ultimately have "fresh_tuples ?seen (repeated ks ts @ us) = ts @ us"
    using Cons.IH [of ?seen] Cons.prems by simp
  moreover have "0 < k" "\<not> IsEOF t" "TupleID t \<notin> set seen" using Cons.prems by auto
  ultimately show ?case by (simp add: fresh_replicate)
qed

section \<open>From the file to a sink\<close>

lemma source_tuples_plain:
  "list_all (\<lambda>t. \<not> IsEOF t \<and> data_tuple t) (source_tuples task content)"
  by (auto simp: list_all_iff source_tuples_def source_tuple_def data_tuple_def)

lemma source_tuples_ids:
  "map TupleID (source_tuples task content)
     = map (\<lambda>k. TkID task @ ''-tuple-'' @ dec k)
         (map fst (filter (\<lambda>(k, line). trim_space line \<noteq> []) (source_lines task content)))"
  by (simp add: source_tuples_def source_tuple_id comp_def split_def)

lemma source_lines_distinct: "distinct (map fst (source_lines task content))"
proof -
  let ?ls = "split_on (CHR ''\<newline>'') content"
  let ?P = "\<lambda>(i, line). go_rem (int i) (TotalTasks task) = TaskIndex task"
  have "distinct (map fst (filter ?P (zip [0..<length ?ls] ?ls)))"
    by (rule distinct_map_filter) simp
  then have "distinct (map Suc (map fst (filter ?P (zip [0..<length ?ls] ?ls))))"
    by (simp only: distinct_map inj_Suc inj_on_subset [OF inj_Suc subset_UNIV] simp_thms)
  moreover have "map fst (source_lines task content) = map Suc (map fst (filter ?P (zip [0..<length ?ls] ?ls)))"
    by (simp add: source_lines_def Let_def comp_def split_def)
  ultimately show ?thesis by simp
qed

lemma source_tuples_distinct: "distinct (map TupleID (source_tuples task content))"
  unfolding source_tuples_ids
  by (subst distinct_map) (auto simp: inj_on_def intro: distinct_map_filter source_lines_distinct)

lemma source_eof_apart: "TupleID (source_eof task) \<notin> TupleID ` set (source_tuples task content)"
  by (auto simp: source_eof_def source_tuples_def source_tuple_id)

definition received :: "string \<Rightarrow> (string \<times> Tuple) list \<Rightarrow> Tuple list" where
  "received a sent = map snd (filter (\<lambda>x. fst x = a) sent)"

lemma repeated_subset: "set (repeated ks xs) \<subseteq> set xs"
  by (induction ks xs rule: repeated.induct) auto

text \<open>What a source puts on the wire: its tuples, each at least once, then the markers.\<close>

lemma source_stream_shape:
  assumes "runSourceTask (Some content) dials tries eofUp task targets = (sent, SourceDone n, reports)"
    and "n = length (source_tuples task content)" and "fst ` set sent \<subseteq> {a}"
  obtains ks k where "length ks = length (source_tuples task content)" "list_all (\<lambda>k. 0 < k) ks"
    "received a sent = repeated ks (source_tuples task content) @ replicate k (source_eof task)"
proof -
  let ?ts = "source_tuples task content"
  obtain s sent1 where d: "deliver_all tries ?ts \<lparr>SrcTargets = targets, SrcConns = remdups (filter dials targets)\<rparr>
      = (s, sent1, n, True)"
    and sent: "sent = sent1 @ map (\<lambda>a. (a, source_eof task)) (filter eofUp (SrcConns s))"
    using assms(1) by (auto simp: runSourceTask_def split: if_splits prod.splits)
  have all: "received a sent = map snd sent"
  proof -
    have "filter (\<lambda>x. fst x = a) sent = sent" using assms(3) by (auto simp: filter_id_conv)
    then show ?thesis by (simp add: received_def)
  qed
  obtain ks where ks: "length ks = length ?ts" "map snd sent1 = repeated ks ?ts" "list_all (\<lambda>k. 0 < k) ks"
    using deliver_all_sent [OF d] assms(2) by auto
  have "map snd sent = repeated ks ?ts @ replicate (length (filter eofUp (SrcConns s))) (source_eof task)"
    unfolding sent map_append ks(2) by (simp add: comp_def map_replicate_const)
  then have "received a sent = repeated ks ?ts @ replicate (length (filter eofUp (SrcConns s))) (source_eof task)"
    by (simp only: all)
  then show ?thesis using that ks(1,3) by blast
qed

lemma received_tuples:
  assumes "runSourceTask (Some content) dials tries eofUp task targets = (sent, SourceDone n, reports)"
    and "n = length (source_tuples task content)" and "fst ` set sent \<subseteq> {a}"
  shows "set (received a sent) \<subseteq> insert (source_eof task) (set (source_tuples task content))"
proof -
  obtain ks k where "received a sent = repeated ks (source_tuples task content) @ replicate k (source_eof task)"
    using source_stream_shape [OF assms] by blast
  then show ?thesis using repeated_subset [of ks "source_tuples task content"] by auto
qed

lemma source_stream:
  assumes "runSourceTask (Some content) dials tries eofUp task targets = (sent, SourceDone n, reports)"
    and "n = length (source_tuples task content)" and "fst ` set sent \<subseteq> {a}"
    and "\<forall>t \<in> insert (source_eof task) (set (source_tuples task content)). TupleID t \<notin> set seen"
  shows "list_all data_tuple (received a sent)
    \<and> fresh_tuples seen (received a sent) = source_tuples task content @ filter IsEOF (received a sent)
    \<and> (\<exists>k. filter IsEOF (received a sent) = replicate k (source_eof task))"
proof -
  let ?ts = "source_tuples task content"
  obtain ks k where ks: "length ks = length ?ts" "list_all (\<lambda>k. 0 < k) ks"
    and rec: "received a sent = repeated ks ?ts @ replicate k (source_eof task)"
    using source_stream_shape [OF assms(1-3)] .
  have eof: "IsEOF (source_eof task)" "data_tuple (source_eof task)"
    by (simp_all add: source_eof_def data_tuple_def)
  have plain: "list_all (\<lambda>t. \<not> IsEOF t) ?ts" "list_all data_tuple ?ts"
    using source_tuples_plain [of task content] by (simp_all add: list_all_iff)
  have fresh: "fresh_tuples seen (received a sent) = ?ts @ replicate k (source_eof task)"
    unfolding rec
    by (rule fresh_repeated [OF ks(1,2) plain(1) source_tuples_distinct])
      (use assms(4) eof source_eof_apart in \<open>auto simp: list_all_iff\<close>)
  have data: "list_all data_tuple (received a sent)"
    using received_tuples [OF assms(1-3)] plain(2) eof(2) by (auto simp: list_all_iff)
  have "filter IsEOF (repeated ks ?ts) = []"
    using plain(1) repeated_subset [of ks ?ts] by (auto simp: filter_empty_conv list_all_iff)
  then have "filter IsEOF (received a sent) = replicate k (source_eof task)" using eof by (simp add: rec)
  then show ?thesis using fresh data by simp
qed


lemma pick_single: "pick_target k [a] = Some a"
  by (simp add: pick_target_def target_index_def go_rem_def signed_modulo_int_def signed_divide_int_def)

definition sample_source :: Task where
  "sample_source = zero_task\<lparr>TkID := ''src-task-0'', OpArgs := [''f''], TotalTasks := 1\<rparr>"

definition sample_tries :: "Tuple \<Rightarrow> src_attempt list" where
  "sample_tries t = [\<lparr>SaLocation = None, SaDial = True, SaEncode = True, SaAck = SrcAckLost\<rparr>,
     \<lparr>SaLocation = Some [''vm2:10004''], SaDial = True, SaEncode = True, SaAck = SrcAckGood\<rparr>]"


section \<open>The next job\<close>

definition line_numbers :: "Task \<Rightarrow> bytes \<Rightarrow> nat list" where
  "line_numbers task content =
     map fst (filter (\<lambda>(k, line). trim_space line \<noteq> []) (source_lines task content))"

lemma source_ids_of_lines:
  "TupleID ` set (source_tuples task content)
     = (\<lambda>k. TkID task @ ''-tuple-'' @ dec k) ` set (line_numbers task content)"
  using arg_cong [OF source_tuples_ids, of set task content] by (simp only: set_map line_numbers_def)


definition sample_log :: NodeMessage where
  "sample_log = node_message ''get_file_response'' ''vm2'' ''get'' ''stage1-task-0.state''
     [(''content'', JStr ''src-task-0-tuple-1\<newline>'')]"


end
