(* ===== verification/Rs_Shutdown.thy ===== *)
theory Rs_Shutdown
  imports Rs_Stream
begin

text \<open>
  End of stream (\<open>emit\<close> in \<open>pkg/rainstorm/api.go\<close>): how the markers of the sources make a
  task send its own marker once to every target and shut down.

  \<^item> \<open>forwards_eof\<close> is what the runtime expects of an operator: a marker is passed on as the last
    thing it emits, and it makes no markers of its own. Grep, count, transform and identity
    do so; echo and output do not.
\<close>

section \<open>Operators and markers\<close>

definition plain_tuples :: "Tuple list \<Rightarrow> bool" where
  "plain_tuples ts = list_all (\<lambda>t. \<not> IsEOF t) ts"

definition forwards_eof :: "'st user_op \<Rightarrow> bool" where
  "forwards_eof process \<longleftrightarrow> (\<forall>st t st' out. process st t = Some (st', out) \<longrightarrow>
     (if IsEOF t then \<exists>xs. out = xs @ [t] \<and> plain_tuples xs else plain_tuples out))"

lemma grep_forwards_eof: "forwards_eof (GrepOpWrapper compile pf cf args)"
proof -
  have "if IsEOF t then \<exists>xs. out = xs @ [t] \<and> plain_tuples xs else plain_tuples out"
    if "GrepOp_Process g t = (g', out)" for g g' t out
    using that by (auto simp: GrepOp_Process_def plain_tuples_def split: if_splits)
  then show ?thesis
    unfolding forwards_eof_def GrepOpWrapper_def by (auto split: option.splits prod.splits)
qed

lemma count_forwards_eof: "forwards_eof CountOpWrapper"
proof -
  have f: "plain_tuples (FlushCounts c)" for c
    by (auto simp: plain_tuples_def FlushCounts_def list_all_iff count_tuple_def new_tuple_def)
  have n: "plain_tuples []" by (simp add: plain_tuples_def)
  have "if IsEOF t then \<exists>xs. out = xs @ [t] \<and> plain_tuples xs else plain_tuples out"
    if "CountOp_Process c t = (c', out)" for c c' t out
    using that f [of c] n by (auto simp: CountOp_Process_def split: if_splits)
  then show ?thesis
    unfolding forwards_eof_def CountOpWrapper_def by (auto split: option.splits prod.splits)
qed

lemma transform_forwards_eof: "forwards_eof TransformOp"
  by (auto simp: forwards_eof_def TransformOp_def plain_tuples_def new_tuple_def)

lemma identity_forwards_eof: "forwards_eof IdentityOp"
  by (auto simp: forwards_eof_def IdentityOp_def plain_tuples_def)

section \<open>A task with targets\<close>

fun is_eof_out :: "op_out \<Rightarrow> bool" where
  "is_eof_out (OutEofTo a t) = True"
| "is_eof_out (OutTuple a t) = False"
| "is_eof_out (OutSyncCheckpoint f c) = False"

definition markers_to :: "op_env \<Rightarrow> string list \<Rightarrow> op_out list \<Rightarrow> bool" where
  "markers_to e targets outs \<longleftrightarrow>
     (\<exists>t. filter is_eof_out outs = map (\<lambda>a. OutEofTo a t) (filter (OpUp e) targets))"

text \<open>The broadcast happens in at most one of the steps of a run.\<close>

definition eof_trans :: "op_env \<Rightarrow> 'st OpProc \<Rightarrow> op_out list \<Rightarrow> 'st OpProc \<Rightarrow> bool" where
  "eof_trans e p outs q \<longleftrightarrow> TargetList q = TargetList p
     \<and> (if EofBroadcast q \<and> \<not> EofBroadcast p then markers_to e (TargetList p) outs
        else filter is_eof_out outs = [] \<and> EofBroadcast q = EofBroadcast p)"

lemma eof_trans_refl [simp]: "eof_trans e p [] p"
  by (simp add: eof_trans_def)

lemma eof_trans_trans:
  "eof_trans e p o1 q \<Longrightarrow> eof_trans e q o2 r \<Longrightarrow> eof_trans e p (o1 @ o2) r"
  by (auto simp: eof_trans_def markers_to_def split: if_splits)

definition eof_state :: "OpFlags \<Rightarrow> 'st OpProc \<Rightarrow> bool" where
  "eof_state fl p \<longleftrightarrow> TargetList p \<noteq> [] \<and> 0 \<le> EofCount p
     \<and> (EofCount p = 0 \<longrightarrow> EofTimer p = None \<and> \<not> EofBroadcast p)
     \<and> (if EofBroadcast p then ShutdownSignal p
        else EofCount p = 0 \<or> (EofTimer p \<noteq> None \<and> EofCount p < FlNumSources fl))"

lemma emit_eof_step:
  assumes "eof_state fl p" and "0 < FlNumSources fl" and "\<not> Crashed p"
  shows "eof_state fl (fst (emit e fl t p))
    \<and> eof_trans e p (snd (emit e fl t p)) (fst (emit e fl t p))
    \<and> EofCount (fst (emit e fl t p)) = EofCount p + (if IsEOF t then 1 else 0)"
proof (cases "IsEOF t")
  case False
  then show ?thesis using assms
    by (auto simp: emit_def Let_def emit_tuple_def eof_state_def eof_trans_def split: option.split)
next
  case True
  then have "emit e fl t p = emit_eof e fl (t\<lparr>TpType := ''tuple''\<rparr>) p"
    using assms by (simp add: emit_def Let_def eof_state_def)
  moreover have "eof_state fl (fst (emit_eof e fl t p))
    \<and> eof_trans e p (snd (emit_eof e fl t p)) (fst (emit_eof e fl t p))
    \<and> EofCount (fst (emit_eof e fl t p)) = EofCount p + 1" for t
    using assms
    by (auto simp: emit_eof_def Let_def broadcastEOF_def eof_state_def eof_trans_def markers_to_def
        comp_def split: if_splits)
  ultimately show ?thesis using True by simp
qed

lemma emit_all_eof:
  assumes "eof_state fl p" and "0 < FlNumSources fl"
  shows "eof_state fl (fst (emit_all e fl ts p))
    \<and> eof_trans e p (snd (emit_all e fl ts p)) (fst (emit_all e fl ts p))
    \<and> (\<not> Crashed (fst (emit_all e fl ts p)) \<longrightarrow>
        EofCount (fst (emit_all e fl ts p)) = EofCount p + int (length (filter IsEOF ts)))"
  using assms
proof (induction ts arbitrary: p)
  case Nil
  then show ?case by simp
next
  case (Cons t ts)
  show ?case
  proof (cases "Crashed p")
    case True
    then show ?thesis using Cons.prems by (simp add: emit_all_crashed del: emit_all.simps)
  next
    case False
    note one = emit_eof_step [OF Cons.prems False, of e t]
    note rest = Cons.IH [OF conjunct1 [OF one] Cons.prems(2)]
    show ?thesis
      using one rest eof_trans_trans [of e p "snd (emit e fl t p)" "fst (emit e fl t p)"]
      by (auto simp: emit_all_Cons Let_def simp del: emit_all.simps)
  qed
qed

lemma eof_fields [simp]:
  "EofBroadcast (fst (checkpoint fl t p)) = EofBroadcast p"
  "EofBroadcast (mark_processed t p) = EofBroadcast p"
  "EofBroadcast (count_tuple_seen t p) = EofBroadcast p"
  "filter is_eof_out (snd (checkpoint fl t p)) = []"
  by (simp_all add: checkpoint_def mark_processed_def count_tuple_seen_def split: option.split)

lemma forwards_eof_number:
  assumes "forwards_eof process" and "process st t = Some (st', out)"
  shows "length (filter IsEOF out) = (if IsEOF t then 1 else 0)"
proof -
  have p: "plain_tuples xs \<Longrightarrow> filter IsEOF xs = []" for xs
    by (simp add: plain_tuples_def list_all_iff filter_empty_conv)
  have "if IsEOF t then \<exists>xs. out = xs @ [t] \<and> plain_tuples xs else plain_tuples out"
    using assms unfolding forwards_eof_def by blast
  then show ?thesis using p by (auto split: if_splits)
qed

lemma recv_finish_eof:
  assumes "eof_state fl p" and "0 < FlNumSources fl" and "forwards_eof process"
    and "\<not> Crashed (fst (recv_finish process e fl t p))"
  shows "eof_state fl (fst (recv_finish process e fl t p))
    \<and> eof_trans e p (fst (snd (recv_finish process e fl t p))) (fst (recv_finish process e fl t p))
    \<and> EofCount (fst (recv_finish process e fl t p)) = EofCount p + (if IsEOF t then 1 else 0)"
proof (rule recv_finish_cases [of process p t e fl])
  fix st o1 q
  assume so: "process (OpState p) t = Some (st, o1)"
    and q: "q = fst (emit_all e fl o1 ((count_tuple_seen t p)\<lparr>OpState := st\<rparr>))" and nc: "\<not> Crashed q"
    and r: "fst (recv_finish process e fl t p) = mark_processed t (fst (checkpoint fl t q))"
  let ?p = "(count_tuple_seen t p)\<lparr>OpState := st\<rparr>"
  have outs: "fst (snd (recv_finish process e fl t p))
      = snd (emit_all e fl o1 ?p) @ snd (checkpoint fl t q)"
    using so q nc by (simp add: recv_finish_def Let_def case_prod_beta)
  have "eof_state fl ?p" using assms(1) by (auto simp: eof_state_def split: if_splits)
  from emit_all_eof [OF this assms(2), of e o1] forwards_eof_number [OF assms(3) so] nc
  have "eof_state fl q" "eof_trans e ?p (snd (emit_all e fl o1 ?p)) q"
    "EofCount q = EofCount p + (if IsEOF t then 1 else 0)"
    by (simp_all add: q)
  then show ?thesis unfolding r outs
    by (auto simp: eof_state_def eof_trans_def markers_to_def split: if_splits)
qed (use assms(4) in simp_all)

text \<open>
  A relation between the states before and after, the outputs and the number of fresh markers
  holds of a run that ends alive if it holds of every step and composes.
\<close>

lemma recv_all_relation:
  assumes refl: "\<And>p. R p [] 0 p"
    and trans: "\<And>p o1 m q o2 n r. R p o1 m q \<Longrightarrow> R q o2 n r \<Longrightarrow> R p (o1 @ o2) (m + n) r"
    and step: "\<And>p t. \<not> Crashed p \<Longrightarrow> \<not> Crashed (fst (recv_finish process e fl t p)) \<Longrightarrow>
      R p (fst (snd (recv_finish process e fl t p))) (if IsEOF t then 1 else 0) (fst (recv_finish process e fl t p))"
    and "list_all data_tuple ts" and "\<not> Crashed (fst (recv_all process e fl ts p))"
  shows "R p (fst (snd (recv_all process e fl ts p)))
    (length (filter IsEOF (fresh_tuples (ProcessedIDs p) ts))) (fst (recv_all process e fl ts p))"
  using assms(4,5)
proof (induction ts arbitrary: p)
  case Nil
  then show ?case by (simp add: refl)
next
  case (Cons t ts)
  have d: "data_tuple t" "list_all data_tuple ts" using Cons.prems by simp_all
  have up: "\<not> Crashed p"
    using Cons.prems(2) by (cases "Crashed p") (simp_all add: recv_all_crashed recv_crashed)
  show ?case
  proof (cases "TupleID t \<in> set (ProcessedIDs p)")
    case True
    then have "recv process e fl t p = (p, [], Some (TupleID t))" using d up by (simp add: recv_data)
    then show ?thesis using Cons.IH [OF d(2)] Cons.prems(2) True by (simp add: case_prod_beta)
  next
    case False
    define q where "q = recv_finish process e fl t p"
    have r: "recv process e fl t p = q" using False d up by (simp add: recv_data q_def)
    have nc: "\<not> Crashed (fst q)" "\<not> Crashed (fst (recv_all process e fl ts (fst q)))"
      using Cons.prems(2) r by (cases "Crashed (fst q)"; simp add: recv_all_crashed case_prod_beta)+
    have ids: "ProcessedIDs (fst q) = (if IsEOF t then ProcessedIDs p else List.insert (TupleID t) (ProcessedIDs p))"
      using recv_finish_ids [of process e fl t p] nc(1) by (simp add: q_def)
    have one: "R p (fst (snd q)) (if IsEOF t then 1 else 0) (fst q)"
      using step [OF up, of t] nc(1) by (simp add: q_def)
    show ?thesis
      using trans [OF one Cons.IH [OF d(2) nc(2)]] ids r False by (simp add: case_prod_beta split: if_splits)
  qed
qed

lemma recv_all_eof:
  assumes "eof_state fl p" and "0 < FlNumSources fl" and "forwards_eof process" and "list_all data_tuple ts"
    and "\<not> Crashed (fst (recv_all process e fl ts p))"
  shows "eof_state fl (fst (recv_all process e fl ts p))
    \<and> eof_trans e p (fst (snd (recv_all process e fl ts p))) (fst (recv_all process e fl ts p))
    \<and> EofCount (fst (recv_all process e fl ts p))
        = EofCount p + int (length (filter IsEOF (fresh_tuples (ProcessedIDs p) ts)))"
proof -
  let ?R = "\<lambda>p outs n q. eof_state fl p \<longrightarrow>
    eof_state fl q \<and> eof_trans e p outs q \<and> EofCount q = EofCount p + int n"
  have "?R p (fst (snd (recv_all process e fl ts p)))
    (length (filter IsEOF (fresh_tuples (ProcessedIDs p) ts))) (fst (recv_all process e fl ts p))"
  proof (rule recv_all_relation [where R = ?R, OF _ _ _ assms(4,5)])
    fix p o1 m q o2 n and r :: "'a OpProc"
    assume "?R p o1 m q" and "?R q o2 n r"
    then show "?R p (o1 @ o2) (m + n) r" using eof_trans_trans [of e p o1 q o2 r] by auto
  qed (use recv_finish_eof [OF _ assms(2,3)] in auto)
  then show ?thesis using assms(1) by blast
qed


definition sample_middle :: OpFlags where
  "sample_middle = \<lparr>FlPort = 10002, FlTargets = ''vm2:10004,vm3:10006'', FlOutput = [], FlNumSources = 2,
     FlHydfsDest = [], FlHydfsLeader = [], FlTaskID = ''stage1-task-0''\<rparr>"

definition sample_marker :: "string \<Rightarrow> Tuple" where
  "sample_marker tid = \<lparr>TpType = ''tuple'', Key = ''EOF'', Value = ''end-of-stream'', TupleID = tid, IsEOF = True\<rparr>"


section \<open>A sink\<close>

definition sink_state :: "OpFlags \<Rightarrow> 'st OpProc \<Rightarrow> bool" where
  "sink_state fl p \<longleftrightarrow> TargetList p = [] \<and> IsSinkStage p \<and> EofTimer p = None
     \<and> (ShutdownSignal p \<longleftrightarrow> FlNumSources fl \<le> EofCount p)"

lemma emit_all_sink_state:
  assumes "sink_state fl p" and "0 < FlNumSources fl" and "\<not> Crashed p"
  shows "sink_state fl (fst (emit_all e fl ts p))
    \<and> EofCount (fst (emit_all e fl ts p)) = EofCount p + int (length (filter IsEOF ts))"
  using assms
proof (induction ts arbitrary: p)
  case Nil
  then show ?case by simp
next
  case (Cons t ts)
  have "sink_state fl (fst (emit e fl t p)) \<and> \<not> Crashed (fst (emit e fl t p))
    \<and> EofCount (fst (emit e fl t p)) = EofCount p + (if IsEOF t then 1 else 0)"
    using Cons.prems by (auto simp: emit_def emit_sink_def sink_state_def Let_def)
  with Cons.IH [of "fst (emit e fl t p)"] Cons.prems(2) show ?case
    by (simp add: emit_all_Cons Let_def del: emit_all.simps)
qed

lemma recv_finish_sink_state:
  assumes "sink_state fl p" and "0 < FlNumSources fl" and "\<not> Crashed p" and "forwards_eof process"
    and "\<not> Crashed (fst (recv_finish process e fl t p))"
  shows "sink_state fl (fst (recv_finish process e fl t p))
    \<and> EofCount (fst (recv_finish process e fl t p)) = EofCount p + (if IsEOF t then 1 else 0)"
proof (rule recv_finish_cases [of process p t e fl])
  fix st o1 q
  assume so: "process (OpState p) t = Some (st, o1)"
    and q: "q = fst (emit_all e fl o1 ((count_tuple_seen t p)\<lparr>OpState := st\<rparr>))"
    and r: "fst (recv_finish process e fl t p) = mark_processed t (fst (checkpoint fl t q))"
  have "sink_state fl ((count_tuple_seen t p)\<lparr>OpState := st\<rparr>)" using assms(1) by (simp add: sink_state_def)
  from emit_all_sink_state [OF this assms(2), of e o1] forwards_eof_number [OF assms(4) so] assms(3)
  have "sink_state fl q" "EofCount q = EofCount p + (if IsEOF t then 1 else 0)" by (simp_all add: q)
  then show ?thesis unfolding r by (simp add: sink_state_def)
qed (use assms(5) in simp_all)

lemma recv_all_sink_state:
  assumes "sink_state fl p" and "0 < FlNumSources fl" and "forwards_eof process" and "list_all data_tuple ts"
    and "\<not> Crashed (fst (recv_all process e fl ts p))"
  shows "sink_state fl (fst (recv_all process e fl ts p))
    \<and> EofCount (fst (recv_all process e fl ts p))
        = EofCount p + int (length (filter IsEOF (fresh_tuples (ProcessedIDs p) ts)))"
proof -
  let ?R = "\<lambda>p outs n q. sink_state fl p \<longrightarrow> sink_state fl q \<and> EofCount q = EofCount p + int n"
  have "?R p (fst (snd (recv_all process e fl ts p)))
    (length (filter IsEOF (fresh_tuples (ProcessedIDs p) ts))) (fst (recv_all process e fl ts p))"
    by (rule recv_all_relation [where R = ?R, OF _ _ _ assms(4,5)])
      (use recv_finish_sink_state [OF _ assms(2) _ assms(3)] in auto)
  then show ?thesis using assms(1) by blast
qed

text \<open>
  A sink has no timer: it signals its shutdown exactly when the markers it received are as
  many as the sources, and if one of them is lost, the passing of time changes nothing, where
  a task with targets would go on after five seconds.
\<close>

theorem sink_waits_for_every_marker:
  assumes "forwards_eof process" and "0 < FlNumSources fl" and "list_all data_tuple ts"
    and "TargetList p = []" and "IsSinkStage p" and "EofCount p = 0" and "EofTimer p = None"
    and "\<not> ShutdownSignal p" and "\<not> Crashed (fst (recv_all process e fl ts p))"
  shows "(ShutdownSignal (fst (recv_all process e fl ts p))
        \<longleftrightarrow> FlNumSources fl \<le> int (length (filter IsEOF (fresh_tuples (ProcessedIDs p) ts))))
    \<and> eof_timeout e fl (fst (recv_all process e fl ts p)) = (fst (recv_all process e fl ts p), [])"
proof -
  have "sink_state fl p" using assms by (simp add: sink_state_def)
  from recv_all_sink_state [OF this assms(2,1,3,9)] assms(6)
  show ?thesis by (simp add: sink_state_def eof_timeout_def)
qed

theorem sink_waits_for_every_marker_witness:
  "let e = \<lparr>OpTries = \<lambda>a t. [], OpUp = \<lambda>a. True\<rparr>;
       p = start_operation sample_flags None None;
       q = fst (recv_all CountOpWrapper e sample_flags [sample_tuple ''1'' ''a'', sample_marker ''src-task-0-eof''] p)
   in \<not> ShutdownSignal q \<and> eof_timeout e sample_flags q = (q, [])"
proof -
  let ?e = "\<lparr>OpTries = \<lambda>a t. [], OpUp = \<lambda>a. True\<rparr>"
  let ?p = "start_operation sample_flags None None :: CountOp option OpProc"
  let ?ts = "[sample_tuple ''1'' ''a'', sample_marker ''src-task-0-eof'']"
  have p: "TargetList ?p = []" "IsSinkStage ?p" "EofCount ?p = 0" "EofTimer ?p = None"
    "\<not> ShutdownSignal ?p" "ProcessedIDs ?p = []"
    by (simp_all add: start_operation_def sample_flags_def Let_def fetchStateFromHyDFS_def)
  have "\<not> Crashed (fst (recv_all CountOpWrapper ?e sample_flags ?ts ?p))" by code_simp
  from sink_waits_for_every_marker [OF count_forwards_eof _ _ p(1-5) this] show ?thesis
    by (simp add: Let_def p(6) data_tuple_def sample_tuple_def sample_marker_def sample_flags_def
        del: recv_all.simps)
qed

section \<open>Operators that swallow the markers\<close>

definition quiet :: "'st OpProc \<Rightarrow> bool" where
  "quiet p \<longleftrightarrow> EofCount p = 0 \<and> EofTimer p = None \<and> \<not> ShutdownSignal p"

definition makes_no_markers :: "'st user_op \<Rightarrow> bool" where
  "makes_no_markers process \<longleftrightarrow> (\<forall>st t st' out. process st t = Some (st', out) \<longrightarrow> plain_tuples out)"

lemma emit_all_quiet:
  "quiet p \<Longrightarrow> plain_tuples ts \<Longrightarrow> quiet (fst (emit_all e fl ts p))"
proof (induction ts arbitrary: p)
  case (Cons t ts)
  then have "quiet (fst (emit e fl t p))"
    by (auto simp: emit_def emit_sink_def emit_tuple_def quiet_def plain_tuples_def Let_def split: option.split)
  with Cons show ?case by (simp add: emit_all_Cons Let_def plain_tuples_def del: emit_all.simps)
qed simp

lemma recv_finish_quiet:
  assumes "makes_no_markers process" and "quiet p"
  shows "quiet (fst (recv_finish process e fl t p))"
proof (cases "process (OpState p) t")
  case None
  then show ?thesis using assms(2) by (simp add: recv_finish_def Let_def quiet_def)
next
  case (Some so)
  then obtain st o1 where so: "process (OpState p) t = Some (st, o1)" by (cases so) auto
  have "plain_tuples o1" using assms(1) so unfolding makes_no_markers_def by blast
  moreover have "quiet ((count_tuple_seen t p)\<lparr>OpState := st\<rparr>)" using assms(2) by (simp add: quiet_def)
  ultimately have "quiet (fst (emit_all e fl o1 ((count_tuple_seen t p)\<lparr>OpState := st\<rparr>)))"
    by (intro emit_all_quiet)
  then show ?thesis by (simp add: recv_finish_def so Let_def case_prod_beta quiet_def)
qed

lemma recv_all_quiet:
  assumes "makes_no_markers process"
  shows "quiet p \<Longrightarrow> quiet (fst (recv_all process e fl ts p))"
proof (induction ts arbitrary: p)
  case (Cons t ts)
  have "quiet (fst (recv process e fl t p))"
  proof (cases "Crashed p")
    case False
    have c: "quiet (fst (recv_check t p))" using Cons.prems by (simp add: recv_check_def quiet_def)
    then show ?thesis using False recv_finish_quiet [OF assms c, of e fl t]
      by (auto simp: recv_def split: prod.splits verdict.splits)
  qed (use Cons.prems in \<open>simp add: recv_crashed\<close>)
  then show ?case using Cons.IH by (simp add: case_prod_beta)
qed simp

text \<open>
  A stage that runs echo or output never ends: echo forwards a marker as an ordinary tuple
  and output swallows it, so that whatever such a task receives, routing updates and any
  number of markers included, it neither counts a marker nor starts the timer, and its
  shutdown is never signalled. The leader then waits for its completion for ever.
\<close>

theorem echo_output_never_shut_down:
  assumes "quiet p" and "quiet p'"
  shows "\<not> ShutdownSignal (fst (recv_all EchoOp e fl ts p))
    \<and> eof_timeout e fl (fst (recv_all EchoOp e fl ts p)) = (fst (recv_all EchoOp e fl ts p), [])
    \<and> \<not> ShutdownSignal (fst (recv_all (OutputOp_Process creatable) e fl ts p'))
    \<and> eof_timeout e fl (fst (recv_all (OutputOp_Process creatable) e fl ts p'))
        = (fst (recv_all (OutputOp_Process creatable) e fl ts p'), [])"
proof -
  have e: "makes_no_markers EchoOp"
    by (auto simp: makes_no_markers_def EchoOp_def plain_tuples_def new_tuple_def)
  have o: "makes_no_markers (OutputOp_Process creatable)"
    by (auto simp: makes_no_markers_def OutputOp_Process_def plain_tuples_def)
  show ?thesis
    using recv_all_quiet [OF e assms(1), of e fl ts] recv_all_quiet [OF o assms(2), of e fl ts]
    by (simp add: quiet_def eof_timeout_def)
qed

theorem echo_output_never_shut_down_witness:
  "\<not> ShutdownSignal (fst (recv_all EchoOp \<lparr>OpTries = \<lambda>a t. [], OpUp = \<lambda>a. True\<rparr> sample_flags
      [sample_marker ''src-task-0-eof'', sample_marker ''src-task-1-eof'']
      (start_operation sample_flags None ())))"
proof -
  have "quiet (start_operation sample_flags None ())" "quiet (start_operation sample_flags None \<lparr>Buffer = [], Written = None\<rparr>)"
    by (simp_all add: quiet_def start_operation_def sample_flags_def Let_def fetchStateFromHyDFS_def)
  from echo_output_never_shut_down [OF this] show ?thesis by blast
qed

end
