(* ===== verification/Rs_Connections.thy ===== *)
theory Rs_Connections
  imports Rs_Delivery Rs_Shutdown "HOL-Library.Sublist"
begin

text \<open>
  Several connections at once: each connection of an operator process is served by a goroutine of
  its own (\<open>StartOperation\<close> in \<open>pkg/rainstorm/api.go\<close>), and between the lookup of an id and its
  mark the goroutines of other connections go on.

  \<^item> A state is the process and the tuples in progress, at most one for each connection.
  \<^item> A step is the arrival of a tuple with the lookup of its id, or the end of its processing. A
    step of a connection that is busy, or idle when it should be busy, does not exist.
  \<^item> The log has an entry for every tuple that is done with, in the order in which they are: the
    connection, the tuple and the acknowledgement.
\<close>

section \<open>The steps of the connections\<close>

type_synonym 'st conns = "'st OpProc \<times> (nat, Tuple) gomap"
type_synonym conn_log = "(nat \<times> Tuple \<times> string option) list"

datatype conn_event = Arrives nat Tuple | Finishes nat

definition conn_step ::
  "'st user_op \<Rightarrow> op_env \<Rightarrow> OpFlags \<Rightarrow> conn_event \<Rightarrow> 'st conns \<Rightarrow> 'st conns \<times> op_out list \<times> conn_log" where
  "conn_step process e fl ev s =
     (case s of (p, busy) \<Rightarrow>
        if Crashed p then (s, [], [])
        else case ev of
          Arrives c t \<Rightarrow>
            if go_has busy c then (s, [], [])
            else (case recv_check t p of
              (p1, Handled) \<Rightarrow> ((p1, busy), [], [(c, t, None)])
            | (p1, Duplicate) \<Rightarrow> ((p1, busy), [], [(c, t, Some (TupleID t))])
            | (p1, Fresh) \<Rightarrow> ((p1, AList.update c t busy), [], []))
        | Finishes c \<Rightarrow>
            (case map_of busy c of
               None \<Rightarrow> (s, [], [])
             | Some t \<Rightarrow>
                 (case recv_finish process e fl t p of
                    (p1, outs, ack) \<Rightarrow> ((p1, AList.delete c busy), outs, [(c, t, ack)]))))"

fun conn_run ::
  "'st user_op \<Rightarrow> op_env \<Rightarrow> OpFlags \<Rightarrow> conn_event list \<Rightarrow> 'st conns \<Rightarrow> 'st conns \<times> op_out list \<times> conn_log" where
  "conn_run process e fl [] s = (s, [], [])"
| "conn_run process e fl (ev # evs) s =
     (case conn_step process e fl ev s of (s1, o1, l1) \<Rightarrow>
        case conn_run process e fl evs s1 of (s2, o2, l2) \<Rightarrow> (s2, o1 @ o2, l1 @ l2))"

text \<open>No id is in progress on two connections at any time of the run.\<close>

fun exclusive :: "'st user_op \<Rightarrow> op_env \<Rightarrow> OpFlags \<Rightarrow> conn_event list \<Rightarrow> 'st conns \<Rightarrow> bool" where
  "exclusive process e fl [] s = distinct (map (\<lambda>(c, t). TupleID t) (snd s))"
| "exclusive process e fl (ev # evs) s =
     (distinct (map (\<lambda>(c, t). TupleID t) (snd s)) \<and> exclusive process e fl evs (fst (conn_step process e fl ev s)))"

definition logged :: "conn_log \<Rightarrow> Tuple list" where
  "logged l = map (\<lambda>(c, t, a). t) l"

definition acks :: "conn_log \<Rightarrow> string option list" where
  "acks l = map (\<lambda>(c, t, a). a) l"

lemma logged_simps [simp]:
  "logged [] = []" "logged ((c, t, a) # l) = t # logged l" "logged (l @ l') = logged l @ logged l'"
  "acks [] = []" "acks ((c, t, a) # l) = a # acks l" "acks (l @ l') = acks l @ acks l'"
  by (simp_all add: logged_def acks_def)

section \<open>A run is as if one tuple came after the other\<close>

text \<open>What is in progress is not processed yet and is data.\<close>

definition in_progress :: "'st conns \<Rightarrow> bool" where
  "in_progress s \<longleftrightarrow> go_map (snd s)
     \<and> (\<forall>(c, t) \<in> set (snd s). data_tuple t \<and> TupleID t \<notin> set (ProcessedIDs (fst s)))"

lemma conn_step_crashed: "Crashed (fst s) \<Longrightarrow> conn_step process e fl ev s = (s, [], [])"
  by (cases s) (simp add: conn_step_def)

lemma conn_run_crashed: "Crashed (fst s) \<Longrightarrow> conn_run process e fl evs s = (s, [], [])"
  by (induction evs) (simp_all add: conn_step_crashed)

lemma recv_check_ids [simp]: "ProcessedIDs (fst (recv_check t p)) = ProcessedIDs p"
  "Crashed (fst (recv_check t p)) = Crashed p"
  by (simp_all add: recv_check_def)

lemma delete_distinct_ids:
  assumes "distinct (map (\<lambda>(c, t). TupleID t) busy)" and "go_map busy" and "map_of busy c = Some t"
    and "(c', t') \<in> set (AList.delete c busy)"
  shows "(c', t') \<in> set busy \<and> TupleID t' \<noteq> TupleID t"
proof -
  have m: "(c', t') \<in> set busy" "c' \<noteq> c" "(c, t) \<in> set busy"
    using assms(3,4) by (auto simp: AList.delete_eq map_of_SomeD)
  have "inj_on (\<lambda>(c, t). TupleID t) (set busy)" using assms(1) by (simp add: distinct_map)
  then show ?thesis using m inj_onD [of _ _ "(c', t')" "(c, t)"] by fastforce
qed

lemma update_entries: "(k, v) \<in> set (AList.update c t m) \<Longrightarrow> (k, v) = (c, t) \<or> (k, v) \<in> set m"
  by (induction m) (auto split: if_splits)

text \<open>One step is one receipt, or none.\<close>

lemma conn_step_recv:
  assumes "in_progress s" and "distinct (map (\<lambda>(c, t). TupleID t) (snd s))"
    and "conn_step process e fl ev s = (s1, o1, l1)"
  shows "recv_all process e fl (logged l1) (fst s) = (fst s1, o1, acks l1)
    \<and> (Crashed (fst s1) \<or> in_progress s1)"
proof (cases s)
  case (Pair p busy)
  show ?thesis
  proof (cases "Crashed p")
    case True
    then show ?thesis using assms Pair by (simp add: conn_step_crashed)
  next
    case nc: False
    show ?thesis
    proof (cases ev)
      case (Arrives c t)
      consider (busy) "go_has busy c" | (handled) "\<not> go_has busy c" "\<not> data_tuple t"
        | (dup) "\<not> go_has busy c" "data_tuple t" "TupleID t \<in> set (ProcessedIDs p)"
        | (new) "\<not> go_has busy c" "data_tuple t" "TupleID t \<notin> set (ProcessedIDs p)" by blast
      then show ?thesis
      proof cases
        case handled
        then have "snd (recv_check t p) = Handled" by (auto simp: recv_check_def data_tuple_def)
        then obtain p1 where c1: "recv_check t p = (p1, Handled)" by (cases "recv_check t p") simp
        have p1: "ProcessedIDs p1 = ProcessedIDs p" using recv_check_ids(1) [of t p] c1 by simp
        show ?thesis
          using assms(1,3) handled nc c1 p1 by (auto simp: Pair Arrives conn_step_def recv_def in_progress_def)
      next
        case new
        then have "recv_check t p = (p, Fresh)" by (simp add: recv_check_def data_tuple_def)
        then show ?thesis using assms(1,3) new nc
          by (auto simp: Pair Arrives conn_step_def in_progress_def go_has_def dest!: update_entries split: if_splits)
      qed (use assms(1,3) nc in \<open>auto simp: Pair Arrives conn_step_def recv_def recv_check_def data_tuple_def in_progress_def\<close>)
    next
      case (Finishes c)
      show ?thesis
      proof (cases "map_of busy c")
        case None
        then show ?thesis using assms(1,3) nc by (simp add: Pair Finishes conn_step_def)
      next
        case (Some t)
        then have t: "data_tuple t" "TupleID t \<notin> set (ProcessedIDs p)"
          using assms(1) by (auto simp: Pair in_progress_def dest: map_of_SomeD)
        let ?r = "recv_finish process e fl t p"
        have r: "recv process e fl t p = ?r" using t nc by (simp add: recv_data)
        have s1: "s1 = (fst ?r, AList.delete c busy)" "o1 = fst (snd ?r)" "l1 = [(c, t, snd (snd ?r))]"
          using assms(3) nc Some by (simp_all add: Pair Finishes conn_step_def case_prod_beta)
        have "in_progress s1" if ok: "\<not> Crashed (fst ?r)"
        proof -
          have g: "go_map busy" using assms(1) by (simp add: Pair in_progress_def)
          have "data_tuple t' \<and> TupleID t' \<notin> set (ProcessedIDs (fst ?r))"
            if m: "(c', t') \<in> set (AList.delete c busy)" for c' t'
          proof -
            have "(c', t') \<in> set busy \<and> TupleID t' \<noteq> TupleID t"
              using delete_distinct_ids [OF _ g Some m] assms(2) by (simp add: Pair)
            then show ?thesis
              using recv_finish_ids [OF ok] assms(1)
              by (auto simp: Pair in_progress_def split: if_splits)
          qed
          then show ?thesis using g by (auto simp: s1 in_progress_def)
        qed
        then show ?thesis using r by (auto simp: Pair s1 case_prod_beta)
      qed
    qed
  qed
qed

lemma conn_run_serial:
  assumes "exclusive process e fl evs (p, [])"
    and "conn_run process e fl evs (p, []) = ((q, busy), outs, served)"
  shows "recv_all process e fl (logged served) p = (q, outs, acks served)"
proof -
  have "recv_all process e fl (logged l) (fst s) = (fst s', os, acks l)"
    if "in_progress s \<or> Crashed (fst s)" "exclusive process e fl evs s" "conn_run process e fl evs s = (s', os, l)"
    for s s' os l
    using that
  proof (induction evs arbitrary: s os l)
    case Nil
    then show ?case by simp
  next
    case (Cons ev evs)
    show ?case
    proof (cases "Crashed (fst s)")
      case True
      then show ?thesis using Cons.prems(3) by (simp add: conn_run_crashed [OF True] del: conn_run.simps)
    next
      case False
      obtain s1 o1 l1 where st: "conn_step process e fl ev s = (s1, o1, l1)" by (cases "conn_step process e fl ev s") auto
      obtain o2 l2 where rest: "conn_run process e fl evs s1 = (s', o2, l2)" and eq: "os = o1 @ o2" "l = l1 @ l2"
        using Cons.prems(3) st by (auto split: prod.splits)
      have ex: "distinct (map (\<lambda>(c, t). TupleID t) (snd s))" "exclusive process e fl evs s1"
        using Cons.prems(2) st by simp_all
      note one = conn_step_recv [OF _ ex(1) st]
      have "recv_all process e fl (logged l2) (fst s1) = (fst s', o2, acks l2)"
        using Cons.IH [OF _ ex(2) rest] one Cons.prems(1) False by blast
      then show ?thesis using one Cons.prems(1) False by (simp add: eq recv_all_append Let_def)
    qed
  qed
  from this [of "(p, [])" "(q, busy)" outs served] show ?thesis
    using assms by (simp add: in_progress_def)
qed


definition sample_conn_env :: op_env where
  "sample_conn_env = \<lparr>OpTries = \<lambda>a t. [], OpUp = \<lambda>a. True\<rparr>"


section \<open>All the sources of a job\<close>

lemma fresh_tuples_data:
  "distinct (map TupleID (filter (\<lambda>t. \<not> IsEOF t) (fresh_tuples seen ts)))
   \<and> TupleID ` set (filter (\<lambda>t. \<not> IsEOF t) (fresh_tuples seen ts)) \<inter> set seen = {}
   \<and> set (fresh_tuples seen ts) \<subseteq> set ts
   \<and> (\<forall>t \<in> set ts. \<not> IsEOF t \<longrightarrow> TupleID t \<in> set seen
        \<or> TupleID t \<in> TupleID ` set (filter (\<lambda>t. \<not> IsEOF t) (fresh_tuples seen ts)))"
proof (induction ts arbitrary: seen)
  case (Cons t ts)
  consider (old) "TupleID t \<in> set seen" | (marker) "TupleID t \<notin> set seen" "IsEOF t"
    | (new) "TupleID t \<notin> set seen" "\<not> IsEOF t" by blast
  then show ?case
  proof cases
    case old
    then show ?thesis using Cons.IH [of seen] by auto
  next
    case marker
    then show ?thesis using Cons.IH [of seen] by auto
  next
    case new
    let ?fs = "fresh_tuples (List.insert (TupleID t) seen) ts"
    have ih: "distinct (map TupleID (filter (\<lambda>t. \<not> IsEOF t) ?fs))"
      "TupleID ` set (filter (\<lambda>t. \<not> IsEOF t) ?fs) \<inter> set (List.insert (TupleID t) seen) = {}"
      "set ?fs \<subseteq> set ts"
      "\<forall>u \<in> set ts. \<not> IsEOF u \<longrightarrow> TupleID u \<in> set (List.insert (TupleID t) seen)
        \<or> TupleID u \<in> TupleID ` set (filter (\<lambda>t. \<not> IsEOF t) ?fs)"
      using Cons.IH [of "List.insert (TupleID t) seen"] by simp_all
    have eq: "fresh_tuples seen (t # ts) = t # ?fs" using new by simp
    show ?thesis unfolding eq
    proof (intro conjI)
      show "distinct (map TupleID (filter (\<lambda>t. \<not> IsEOF t) (t # ?fs)))" using ih(1,2) new by auto
      show "TupleID ` set (filter (\<lambda>t. \<not> IsEOF t) (t # ?fs)) \<inter> set seen = {}" using ih(2) new by auto
      show "set (t # ?fs) \<subseteq> set (t # ts)" using ih(3) by auto
      show "\<forall>u \<in> set (t # ts). \<not> IsEOF u \<longrightarrow> TupleID u \<in> set seen
        \<or> TupleID u \<in> TupleID ` set (filter (\<lambda>t. \<not> IsEOF t) (t # ?fs))"
        using ih(4) new by auto
    qed
  qed
qed simp

lemma fresh_tuples_markers:
  assumes "\<forall>m \<in> set ts. IsEOF m \<longrightarrow> TupleID m \<notin> set seen \<union> TupleID ` set (filter (\<lambda>t. \<not> IsEOF t) ts)"
  shows "filter IsEOF (fresh_tuples seen ts) = filter IsEOF ts"
  using assms
proof (induction ts arbitrary: seen)
  case (Cons t ts)
  then show ?case
    using Cons.IH [of seen] Cons.IH [of "List.insert (TupleID t) seen"] by (cases "IsEOF t") auto
qed simp

lemma identity_run: "op_run IdentityOp st ts = Some (st, ts)"
  by (induction ts) (simp_all add: IdentityOp_def)

lemma source_task_id: "TkID (source_task cfg stamp payload (int i) port worker) = ''src-task-'' @ dec i"
  by (simp add: source_task_def zero_task_def dec_int_def)

text \<open>The lines that count: trimmed, and not blank.\<close>

definition lines_of :: "bytes \<Rightarrow> string list" where
  "lines_of content = filter (\<lambda>l. l \<noteq> []) (map trim_space (split_on (CHR ''\<newline>'') content))"

lemma source_tuples_lines:
  assumes "mset (concat (map (\<lambda>i. source_lines (task i) content) is)) = mset (numbered_lines content)"
  shows "mset (map Value (concat (map (\<lambda>i. source_tuples (task i) content) is))) = mset (lines_of content)"
proof -
  let ?keep = "\<lambda>(n :: nat, line). trim_space line \<noteq> []" and ?val = "\<lambda>(n :: nat, line). trim_space line"
  have one: "map Value (source_tuples (task i) content) = map ?val (filter ?keep (source_lines (task i) content))" for i
    by (simp add: source_tuples_def source_tuple_def comp_def split_def)
  have "map Value (concat (map (\<lambda>i. source_tuples (task i) content) js))
      = map ?val (filter ?keep (concat (map (\<lambda>i. source_lines (task i) content) js)))" for js
    by (induction js) (simp_all only: list.map concat.simps map_append filter_append one filter.simps)
  then have "mset (map Value (concat (map (\<lambda>i. source_tuples (task i) content) is)))
      = mset (map ?val (filter ?keep (numbered_lines content)))"
    by (simp only: mset_map mset_filter assms)
  moreover have "map ?val (filter ?keep (zip ks ls)) = filter (\<lambda>l. l \<noteq> []) (map trim_space ls)"
    if "length ks = length ls" for ks :: "nat list" and ls
    using that by (induction ks ls rule: list_induct2) auto
  ultimately show ?thesis by (simp add: lines_of_def numbered_lines_def Let_def del: upt_Suc)
qed

lemma markers_at_least:
  assumes "\<And>i. i < (n :: nat) \<Longrightarrow> eof i \<in> set ms" and "\<And>i j. eof i = eof j \<Longrightarrow> i = j"
  shows "n \<le> length ms"
proof -
  have "inj_on eof {..<n}" using assms(2) by (intro inj_onI) blast
  then have "n = card (eof ` {..<n})" by (simp add: card_image)
  also have "\<dots> \<le> card (set ms)" using assms(1) by (intro card_mono) auto
  also have "\<dots> \<le> length ms" by (rule card_length)
  finally show ?thesis .
qed

text \<open>What arrives at the sink from all the sources, once repetitions are dropped.\<close>

lemma all_sources_fresh:
  assumes data: "\<And>t. t \<in> set ts \<Longrightarrow> \<not> IsEOF t \<Longrightarrow> t \<in> set ds"
    and all: "set ds \<subseteq> set ts" and plain: "list_all (\<lambda>t. \<not> IsEOF t) ds"
    and dist: "distinct (map TupleID ds)"
  shows "mset (filter (\<lambda>t. \<not> IsEOF t) (fresh_tuples [] ts)) = mset ds"
proof -
  let ?fs = "filter (\<lambda>t. \<not> IsEOF t) (fresh_tuples [] ts)"
  note f = fresh_tuples_data [of "[]" ts]
  have "distinct (map TupleID ?fs)" using f by blast
  then have df: "distinct ?fs" by (simp add: distinct_map)
  have sub: "set ?fs \<subseteq> set ds" using f data by auto
  have "t \<in> set ?fs" if t: "t \<in> set ds" for t
  proof -
    have "t \<in> set ts" "\<not> IsEOF t" using t all plain by (auto simp: list_all_iff)
    then have "TupleID t \<in> TupleID ` set ?fs" using f by auto
    then obtain u where u: "u \<in> set ?fs" "TupleID u = TupleID t" by auto
    have "inj_on TupleID (set ds)" using dist by (simp add: distinct_map)
    then have "u = t" using u sub t by (auto dest: inj_onD)
    then show ?thesis using u by simp
  qed
  then have "set ?fs = set ds" using sub by blast
  moreover have "distinct ds" using dist by (simp add: distinct_map)
  ultimately show ?thesis using df by (metis set_eq_iff_mset_eq_distinct)
qed

text \<open>The tuples of the first \<open>n\<close> tasks and their markers, in some order and with repetitions.\<close>

definition carries :: "nat \<Rightarrow> (nat \<Rightarrow> Task) \<Rightarrow> bytes \<Rightarrow> Tuple list \<Rightarrow> bool" where
  "carries n task content ts \<longleftrightarrow>
     (\<forall>t \<in> set ts. \<exists>i < n. t = source_eof (task i) \<or> t \<in> set (source_tuples (task i) content))
     \<and> (\<forall>i < n. source_eof (task i) \<in> set ts \<and> set (source_tuples (task i) content) \<subseteq> set ts)"

lemma source_tuple_kind: "t \<in> set (source_tuples task content) \<Longrightarrow> \<not> IsEOF t" "IsEOF (source_eof task)"
  using source_tuples_plain [of task content] by (auto simp: list_all_iff source_eof_def)

lemma carries_data:
  "carries n task content ts \<Longrightarrow> t \<in> set ts \<Longrightarrow> \<not> IsEOF t \<Longrightarrow> \<exists>i < n. t \<in> set (source_tuples (task i) content)"
  unfolding carries_def using source_tuple_kind(2) by metis

lemma logged_split:
  assumes "\<And>i. i < (n :: nat) \<Longrightarrow> logged (filter (\<lambda>x. sender (fst x) = i) served) = rs i"
    and "\<And>x. x \<in> set served \<Longrightarrow> sender (fst x) < n"
  shows "t \<in> set (logged served) \<longleftrightarrow> (\<exists>i < n. t \<in> set (rs i))"
proof -
  have "t \<in> set (logged served) \<longleftrightarrow> (\<exists>i < n. t \<in> set (logged (filter (\<lambda>x. sender (fst x) = i) served)))"
    using assms(2) by (force simp: logged_def)
  then show ?thesis using assms(1) by auto
qed

lemma sources_carried:
  assumes runs: "\<And>i. i < n \<Longrightarrow> runSourceTask (Some content) (dials i) (tries i) (eofUp i) (task i) targets
        = (sent i, SourceDone (length (source_tuples (task i) content)), reports i)"
    and wire: "\<And>i. i < n \<Longrightarrow> fst ` set (sent i) \<subseteq> {a} \<and> filter IsEOF (received a (sent i)) \<noteq> []"
    and ts: "\<And>t. t \<in> set ts \<longleftrightarrow> (\<exists>i < n. t \<in> set (received a (sent i)))"
  shows "list_all data_tuple ts" "carries n task content ts"
proof -
  have one: "list_all data_tuple (received a (sent i)) \<and> set (source_tuples (task i) content) \<subseteq> set (received a (sent i))
      \<and> source_eof (task i) \<in> set (received a (sent i))
      \<and> set (received a (sent i)) \<subseteq> insert (source_eof (task i)) (set (source_tuples (task i) content))"
    if i: "i < n" for i
  proof -
    have st: "list_all data_tuple (received a (sent i))"
      "fresh_tuples [] (received a (sent i)) = source_tuples (task i) content @ filter IsEOF (received a (sent i))"
      "\<exists>k. filter IsEOF (received a (sent i)) = replicate k (source_eof (task i))"
      using source_stream [OF runs [OF i] refl, of a "[]"] wire [OF i] by auto
    have "set (source_tuples (task i) content) \<subseteq> set (received a (sent i))"
      using st(2) fresh_tuples_data [of "[]" "received a (sent i)"] by auto
    moreover obtain k where "filter IsEOF (received a (sent i)) = replicate k (source_eof (task i))"
      using st(3) by blast
    then have "source_eof (task i) \<in> set (filter IsEOF (received a (sent i)))" using wire [OF i] by (cases k) auto
    ultimately show ?thesis
      using st(1) received_tuples [OF runs [OF i] refl, of a] wire [OF i] by auto
  qed
  show "list_all data_tuple ts" unfolding list_all_iff using one ts by (auto simp: list_all_iff)
  show "carries n task content ts" unfolding carries_def using one ts by blast
qed

lemma carried_lines:
  assumes "NumTasks payload = int n" and "0 < n"
    and task: "\<And>i. task i = source_task cfg stamp payload (int i) (port i) (worker i)"
    and ts: "carries n task content ts"
  shows "mset (map Value (filter (\<lambda>t. \<not> IsEOF t) (fresh_tuples [] ts))) = mset (lines_of content)"
proof -
  let ?D = "concat (map (\<lambda>i. source_tuples (task i) content) [0..<n])"
  have "mset (filter (\<lambda>t. \<not> IsEOF t) (fresh_tuples [] ts)) = mset ?D"
  proof (rule all_sources_fresh)
    show "distinct (map TupleID ?D)"
      using source_tasks_partition(2) [OF assms(1,2)] by (simp add: map_concat comp_def task)
    show "t \<in> set ?D" if "t \<in> set ts" "\<not> IsEOF t" for t using carries_data [OF ts that] by auto
    show "set ?D \<subseteq> set ts" using ts by (auto simp: carries_def)
  qed (auto simp: list_all_iff dest: source_tuple_kind(1))
  then show ?thesis
    using source_tuples_lines [of task content "[0..<n]"] source_tasks_partition(1) [OF assms(1,2)]
    by (simp only: mset_map task)
qed

lemma carried_markers:
  assumes tid: "\<And>i. TkID (task i) = ''src-task-'' @ dec i" and ts: "carries n task content ts"
  shows "n \<le> length (filter IsEOF (fresh_tuples [] ts))"
proof -
  have apart: "TupleID (source_eof (task i)) \<noteq> TupleID t" if "t \<in> set (source_tuples (task j) content)" for i j t
    using that by (auto simp: source_eof_def source_tuples_def source_tuple_id tid dest: dec_split)
  have "TupleID m \<notin> set [] \<union> TupleID ` set (filter (\<lambda>t. \<not> IsEOF t) ts)" if m: "m \<in> set ts" "IsEOF m" for m
  proof -
    obtain i where i: "m = source_eof (task i)" using ts m source_tuple_kind(1) unfolding carries_def by blast
    have "\<exists>j. t \<in> set (source_tuples (task j) content)" if t: "t \<in> set ts" "\<not> IsEOF t" for t
      using carries_data [OF ts t] by blast
    then show ?thesis using apart unfolding i by fastforce
  qed
  then have "filter IsEOF (fresh_tuples [] ts) = filter IsEOF ts" by (intro fresh_tuples_markers) blast
  moreover have "n \<le> length (filter IsEOF ts)"
    by (rule markers_at_least [of n "\<lambda>i. source_eof (task i)"])
      (use ts tid source_tuple_kind(2) in \<open>auto simp: carries_def source_eof_def\<close>)
  ultimately show ?thesis by simp
qed


definition sample_part :: "nat \<Rightarrow> Task" where
  "sample_part i = source_task sample_config ''now'' sample_submit (int i) 10000 ''vm2''"

definition sample_sent :: "nat \<Rightarrow> (string \<times> Tuple) list" where
  "sample_sent i = fst (runSourceTask (Some ''x\<newline>y\<newline>x'') (\<lambda>a. True) sample_tries (\<lambda>a. True)
     (sample_part i) [''vm2:10004''])"

text \<open>Every tuple is sent twice, the second time on a new connection; two sources interleave.\<close>

definition sample_schedule :: "conn_event list" where
  "sample_schedule =
     (let t = source_tuple ''src-task-0'' ''f'' 1 ''x''; u = source_tuple ''src-task-0'' ''f'' 3 ''x'';
          v = source_tuple ''src-task-1'' ''f'' 2 ''y'' in
      [Arrives 0 t, Arrives 1 v, Finishes 0, Arrives 2 t, Finishes 1, Arrives 3 v, Arrives 2 u, Finishes 2,
       Arrives 4 u, Arrives 3 (source_eof (sample_part 1)), Arrives 4 (source_eof (sample_part 0)),
       Finishes 3, Finishes 4])"

lemma sample_parts:
  "source_tuples (sample_part 0) ''x\<newline>y\<newline>x''
     = [source_tuple ''src-task-0'' ''f'' 1 ''x'', source_tuple ''src-task-0'' ''f'' 3 ''x'']"
  "source_tuples (sample_part 1) ''x\<newline>y\<newline>x'' = [source_tuple ''src-task-1'' ''f'' 2 ''y'']"
proof -
  have digits: "dec 0 = ''0''" "dec 1 = ''1''" "dec (Suc 0) = ''1''" by code_simp+
  have n: "numbered_lines ''x\<newline>y\<newline>x'' = [(1, ''x''), (2, ''y''), (3, ''x'')]" by code_simp
  have "TotalTasks (sample_part i) = int 2" "TaskIndex (sample_part i) = int i" for i
    by (simp_all add: sample_part_def source_task_def sample_submit_def)
  then have part: "source_lines (sample_part i) ''x\<newline>y\<newline>x''
      = filter (\<lambda>(k, line). int ((k - 1) mod 2) = int i) [(1, ''x''), (2, ''y''), (3, ''x'')]" for i
    using source_lines_filter [of "sample_part i" 2 "''x\<newline>y\<newline>x''"] unfolding n by simp
  have l: "source_lines (sample_part 0) ''x\<newline>y\<newline>x'' = [(1, ''x''), (3, ''x'')]"
    "source_lines (sample_part 1) ''x\<newline>y\<newline>x'' = [(2, ''y'')]"
    unfolding part by simp_all
  have trim: "trim_space ''x'' = ''x''" "trim_space ''y'' = ''y''"
    by (simp_all add: trim_space_plain is_ascii_def is_space_def)
  have id: "TkID (sample_part 0) = ''src-task-0''" "TkID (sample_part 1) = ''src-task-1''"
    "OpArgs (sample_part i) = [''f'']" for i
    by (simp_all only: sample_part_def source_task_id of_nat_0 of_nat_1 digits)
      (simp_all add: source_task_def sample_submit_def digits dec_int_def)
  show "source_tuples (sample_part 0) ''x\<newline>y\<newline>x''
     = [source_tuple ''src-task-0'' ''f'' 1 ''x'', source_tuple ''src-task-0'' ''f'' 3 ''x'']"
    "source_tuples (sample_part 1) ''x\<newline>y\<newline>x'' = [source_tuple ''src-task-1'' ''f'' 2 ''y'']"
    by (simp_all only: source_tuples_def l id) (simp_all add: trim)
qed

lemma sample_sources:
  "fst (snd (runSourceTask (Some ''x\<newline>y\<newline>x'') (\<lambda>a. True) sample_tries (\<lambda>a. True) (sample_part 0) [''vm2:10004'']))
     = SourceDone 2"
  "fst (snd (runSourceTask (Some ''x\<newline>y\<newline>x'') (\<lambda>a. True) sample_tries (\<lambda>a. True) (sample_part 1) [''vm2:10004'']))
     = SourceDone 1"
  "sample_sent 0 = map (Pair ''vm2:10004'')
     [source_tuple ''src-task-0'' ''f'' 1 ''x'', source_tuple ''src-task-0'' ''f'' 1 ''x'',
      source_tuple ''src-task-0'' ''f'' 3 ''x'', source_tuple ''src-task-0'' ''f'' 3 ''x'', source_eof (sample_part 0)]"
  "sample_sent 1 = map (Pair ''vm2:10004'')
     [source_tuple ''src-task-1'' ''f'' 2 ''y'', source_tuple ''src-task-1'' ''f'' 2 ''y'', source_eof (sample_part 1)]"
  by (simp_all add: sample_sent_def runSourceTask_def sample_parts deliver_tuple_def pick_single sample_tries_def
      src_reconnect_def src_add_def src_drop_def del: One_nat_def)

definition sample_copy :: "unit conns \<times> op_out list \<times> conn_log" where
  "sample_copy = conn_run IdentityOp sample_conn_env sample_flags sample_schedule (start_operation sample_flags None (), [])"

lemma sample_schedule_run:
  "exclusive IdentityOp sample_conn_env sample_flags sample_schedule (start_operation sample_flags None (), [])"
  "map fst (snd (snd sample_copy)) = [0, 2, 1, 3, 2, 4, 3, 4]"
  "logged (snd (snd sample_copy)) =
     [source_tuple ''src-task-0'' ''f'' 1 ''x'', source_tuple ''src-task-0'' ''f'' 1 ''x'',
      source_tuple ''src-task-1'' ''f'' 2 ''y'', source_tuple ''src-task-1'' ''f'' 2 ''y'',
      source_tuple ''src-task-0'' ''f'' 3 ''x'', source_tuple ''src-task-0'' ''f'' 3 ''x'',
      source_eof (sample_part 1), source_eof (sample_part 0)]"
proof -
  have digits: "dec 1 = ''1''" "dec (Suc 0) = ''1''" "dec 2 = ''2''" "dec 3 = ''3''" by code_simp+
  have id: "TkID (sample_part i) = ''src-task-'' @ dec i" for i by (simp add: sample_part_def source_task_id)
  note defs = sample_copy_def sample_schedule_def conn_step_def recv_check_def source_tuple_def source_eof_def id digits
    start_operation_def sample_flags_def Let_def fetchStateFromHyDFS_def recv_finish_def IdentityOp_def emit_def
    emit_sink_def count_tuple_seen_def checkpoint_def mark_processed_def chan_size_def go_has_def offer_def
  have "dec 0 = ''0''" by code_simp
  then show "exclusive IdentityOp sample_conn_env sample_flags sample_schedule (start_operation sample_flags None (), [])"
    "map fst (snd (snd sample_copy)) = [0, 2, 1, 3, 2, 4, 3, 4]"
    "logged (snd (snd sample_copy)) =
     [source_tuple ''src-task-0'' ''f'' 1 ''x'', source_tuple ''src-task-0'' ''f'' 1 ''x'',
      source_tuple ''src-task-1'' ''f'' 2 ''y'', source_tuple ''src-task-1'' ''f'' 2 ''y'',
      source_tuple ''src-task-0'' ''f'' 3 ''x'', source_tuple ''src-task-0'' ''f'' 3 ''x'',
      source_eof (sample_part 1), source_eof (sample_part 0)]"
    by (simp_all add: defs)
qed


end
