(* ===== verification/Rs_Recovery.thy ===== *)
theory Rs_Recovery
  imports Rs_Stream Hydfs_Props
begin

text \<open>
  The state log of a task: from the ids queued in \<open>hydfsAppendWorker\<close>, over the appends handled
  by a node of HyDFS and its block store, to the ids a restarted task reads back with
  \<open>fetchStateFromHyDFS\<close>.

  \<^item> \<open>log_id\<close> are ids as the program makes them: ASCII, not empty, without blanks at the ends
    or line breaks.
\<close>

section \<open>The text of the log\<close>

definition log_id :: "string \<Rightarrow> bool" where
  "log_id s \<longleftrightarrow> s \<noteq> [] \<and> trimmed s \<and> is_ascii s \<and> CHR ''\<newline>'' \<notin> set s"

lemma is_ascii_append [simp]: "is_ascii (s @ t) \<longleftrightarrow> is_ascii s \<and> is_ascii t"
  by (simp add: is_ascii_def)

lemma is_ascii_concat: "is_ascii (concat xss) \<longleftrightarrow> (\<forall>xs \<in> set xss. is_ascii xs)"
  by (induction xss) (simp_all add: is_ascii_def)

lemma newline_ascii [simp]: "is_ascii ''\<newline>''"
  by (simp add: is_ascii_def)

lemma log_id_plain:
  assumes "s \<noteq> []" and "is_ascii s" and "CHR ''\<newline>'' \<notin> set s"
    and "\<not> is_space (of_char (hd s))" and "\<not> is_space (of_char (last s))"
  shows "log_id s"
  using assms by (simp add: log_id_def trimmed_def trim_space_plain)

lemma flush_content_concat: "b \<noteq> [] \<Longrightarrow> flush_content b = concat (map (\<lambda>line. line @ ''\<newline>'') b)"
proof (induction b)
  case (Cons x xs)
  then show ?case by (cases xs) (simp_all add: flush_content_def)
qed simp

lemma parse_state_line:
  assumes "log_id s"
  shows "parse_state (s @ CHR ''\<newline>'' # rest) = s # parse_state rest"
  using assms by (simp add: parse_state_def log_id_def trimmed_def split_on_append)

lemma parse_state_Nil [simp]: "parse_state [] = []"
  by (simp add: parse_state_def)

lemma parse_state_lines:
  "list_all log_id ids \<Longrightarrow> parse_state (concat (map (\<lambda>line. line @ ''\<newline>'') ids)) = ids"
  by (induction ids) (simp_all add: parse_state_line)

lemma log_lines_ascii: "list_all log_id ids \<Longrightarrow> is_ascii (concat (map (\<lambda>line. line @ ''\<newline>'') ids))"
  by (auto simp: is_ascii_concat list_all_iff log_id_def)

section \<open>The append worker\<close>

definition queued_lines :: "aw_event list \<Rightarrow> string list" where
  "queued_lines evs = concat (map (\<lambda>ev. case ev of AwLine line \<Rightarrow> [line] | _ \<Rightarrow> []) evs)"

definition log_text :: "string list \<Rightarrow> bytes" where
  "log_text ids = concat (map (\<lambda>line. line @ ''\<newline>'') ids)"

lemma log_text_append: "log_text (xs @ ys) = log_text xs @ log_text ys"
  by (simp add: log_text_def)

lemma flush_up: "flush True buffer = ([], if buffer = [] then [] else [log_text buffer])"
  by (simp add: flush_def flush_content_concat log_text_def)

text \<open>While HyDFS can be reached every line is either written or still in the buffer, in order.\<close>

lemma aw_run_lines:
  "aw_run (map (Pair True) evs) buffer = (buffer', contents) \<Longrightarrow>
   \<exists>batches. contents = map log_text batches \<and> concat batches @ buffer' = buffer @ queued_lines evs
     \<and> [] \<notin> set batches"
proof (induction evs arbitrary: buffer contents)
  case Nil
  then show ?case by (auto simp: queued_lines_def intro!: exI [of _ "[]"])
next
  case (Cons ev evs)
  obtain b1 o1 where s: "aw_step True ev buffer = (b1, o1)" by force
  obtain o2 where r: "aw_run (map (Pair True) evs) b1 = (buffer', o2)" and c: "contents = o1 @ o2"
    using Cons.prems s by (auto split: prod.splits)
  obtain batches where ih: "o2 = map log_text batches"
    "concat batches @ buffer' = b1 @ queued_lines evs" "[] \<notin> set batches"
    using Cons.IH [OF r] by blast
  have q: "queued_lines (ev # evs) = (case ev of AwLine line \<Rightarrow> [line] | _ \<Rightarrow> []) @ queued_lines evs"
    by (simp add: queued_lines_def)
  have "\<exists>first. o1 = map log_text first \<and> concat first @ b1
      = buffer @ (case ev of AwLine line \<Rightarrow> [line] | _ \<Rightarrow> []) \<and> [] \<notin> set first"
  proof -
    have e: "\<exists>first. (if x = [] then [] else [log_text x]) = map log_text first \<and> concat first = x \<and> [] \<notin> set first" for x
      by (cases "x = []") (auto intro: exI [of _ "[]"] exI [of _ "[x]"])
    show ?thesis
      using s e [of buffer] e [of "buffer @ [line]" for line]
      by (cases ev) (auto simp: aw_step_def Let_def flush_up split: if_splits intro: exI [of _ "[]"] exI [of _ "[buffer @ [x]]" for x])
  qed
  then obtain first where "o1 = map log_text first" "[] \<notin> set first"
    "concat first @ b1 = buffer @ (case ev of AwLine line \<Rightarrow> [line] | _ \<Rightarrow> [])" by blast
  then show ?case using ih c q by (intro exI [of _ "first @ batches"]) (metis (no_types, lifting) append.assoc concat_append map_append set_append Un_iff)
qed

section \<open>Through a node of HyDFS\<close>

text \<open>The appends of a log, handled one after the other by a node that is a replica of it.\<close>

definition log_appends :: "env \<Rightarrow> OpFlags \<Rightarrow> string \<Rightarrow> bytes list \<Rightarrow> HydfsNode \<Rightarrow> HydfsNode" where
  "log_appends e fl f contents n = fold (\<lambda>c n. fst (handle_message e (append_request fl f c) n)) contents n"

definition state_request :: "string \<Rightarrow> NodeMessage" where
  "state_request f = node_message ''get_file'' ''task-recovery'' ''get'' f []"

definition healthy_env :: "env \<Rightarrow> bool" where
  "healthy_env e \<longleftrightarrow> EIo e = (\<lambda>_. IoOk) \<and> EIo0 e = IoOk \<and> EMkdir e"

lemma append_client_ascii: "is_ascii (append_client fl)"
proof -
  have "is_ascii (dec n)" for n
    using dec_digits [of _ n] by (fastforce simp: is_ascii_def list_all_iff is_digit_def)
  then show ?thesis by (simp add: append_client_def dec_int_def is_ascii_def)
qed

lemma handle_append:
  assumes "RingID (HNode n) \<in> set (file_replicas n f)" and "healthy_env e" and "is_ascii c"
  shows "fst (handle_message e (append_request fl f c) n)
    = n\<lparr>Store := healthy_append f c (append_client fl) (Store n)\<rparr>"
proof -
  have "file_replicas n f \<noteq> []" using assms(1) by auto
  then show ?thesis using assms append_client_ascii [of fl]
    by (simp add: handle_message_def append_request_def node_message_def on_append_file_def data_str_def
        json_string_ascii store_append_def healthy_append_def healthy_env_def)
qed

lemma log_appends_store:
  assumes "RingID (HNode n) \<in> set (file_replicas n f)" and "healthy_env e" and "list_all is_ascii cs"
    and "usable_file f (Store n)"
  shows "\<exists>fs. log_appends e fl f cs n = n\<lparr>Store := fs\<rparr> \<and> contents_of f fs = contents_of f (Store n) @ concat cs
    \<and> (cs \<noteq> [] \<longrightarrow> file_ok fs f)"
  using assms
proof (induction cs arbitrary: n)
  case Nil
  have "log_appends e fl f [] n = n\<lparr>Store := Store n\<rparr>" by (simp add: log_appends_def)
  then show ?case by fastforce
next
  case (Cons c cs)
  let ?n = "n\<lparr>Store := healthy_append f c (append_client fl) (Store n)\<rparr>"
  have step: "log_appends e fl f (c # cs) n = log_appends e fl f cs ?n"
    using handle_append [OF Cons.prems(1,2)] Cons.prems(3) by (simp add: log_appends_def)
  have ok: "file_ok (Store ?n) f" "contents_of f (Store ?n) = contents_of f (Store n) @ c"
    using healthy_append_contents [OF Cons.prems(4), of c "append_client fl"] by simp_all
  have "RingID (HNode ?n) \<in> set (file_replicas ?n f)"
    using Cons.prems(1) by (simp add: file_replicas_def node_info_def)
  from Cons.IH [OF this Cons.prems(2) _] Cons.prems(3) ok
  obtain fs where "log_appends e fl f cs ?n = ?n\<lparr>Store := fs\<rparr>"
    "contents_of f fs = contents_of f (Store n) @ c @ concat cs" "cs \<noteq> [] \<longrightarrow> file_ok fs f"
    by (auto simp: usable_file_def)
  then show ?case using step ok by (cases "cs = []") (auto simp: log_appends_def)
qed

lemma get_state:
  assumes "file_ok (Store n) f"
  shows "handle_message e (state_request f) n = (n, [], Reply (get_response n f (contents_of f (Store n))), Done)"
proof -
  have "ReadFile f (Store n) = Inr (contents_of f (Store n))"
    using ReadFile_log [OF assms] contents_of_log [OF assms] by simp
  then show ?thesis
    by (simp add: handle_message_def state_request_def node_message_def on_get_file_def)
qed

lemma fetch_response:
  "is_ascii c \<Longrightarrow> fetchStateFromHyDFS (Some (get_response n f c)) = Inr (parse_state c)"
  by (simp add: fetchStateFromHyDFS_def get_response_def node_message_def data_str_def json_string_ascii)

text \<open>
  C12. Recovery of the processed ids: the ids queued by a task, written in batches by the append
  worker and handled by a replica of the state log, are read back by a task started with the
  same id, exactly those that had left the worker's buffer, in order and without repetition.
\<close>

theorem checkpoint_recovery:
  assumes "aw_run (map (Pair True) evs) [] = (buffer, contents)" and "list_all log_id (queued_lines evs)"
    and "RingID (HNode n) \<in> set (file_replicas n (state_log_file fl))" and "healthy_env e"
    and "map_of (Store n) (getFileDir (state_log_file fl)) = None"
    and "contents \<noteq> []" and "FlHydfsLeader fl \<noteq> []"
  shows "\<exists>r logged. handle_message e (state_request (state_log_file fl))
        (log_appends e fl (state_log_file fl) contents n)
        = (log_appends e fl (state_log_file fl) contents n, [], Reply r, Done)
    \<and> logged @ buffer = queued_lines evs
    \<and> ProcessedIDs (start_operation fl (Some r) init) = remdups logged"
proof -
  let ?f = "state_log_file fl"
  obtain batches where b: "contents = map log_text batches" "concat batches @ buffer = queued_lines evs"
    using aw_run_lines [OF assms(1)] by auto
  have ids: "list_all log_id (concat batches)" using assms(2) b(2) by (metis list_all_append)
  have whole: "concat contents = log_text (concat batches)"
    unfolding b(1) by (induction batches) (simp_all add: log_text_append log_text_def)
  have "\<forall>bt \<in> set batches. list_all log_id bt" using ids by (auto simp: list_all_iff)
  then have "list_all is_ascii contents"
    using log_lines_ascii by (auto simp: b(1) list_all_iff log_text_def)
  moreover have "usable_file ?f (Store n)" using assms(5) by (simp add: usable_file_def)
  ultimately obtain fs where fs: "log_appends e fl ?f contents n = n\<lparr>Store := fs\<rparr>"
    "contents_of ?f fs = log_text (concat batches)" "file_ok fs ?f"
    using log_appends_store [OF assms(3,4)] contents_of_missing [OF assms(5)] assms(6) whole by fastforce
  let ?n = "n\<lparr>Store := fs\<rparr>"
  let ?r = "get_response ?n ?f (log_text (concat batches))"
  have "handle_message e (state_request ?f) ?n = (?n, [], Reply ?r, Done)"
    using get_state [of ?n ?f e] fs by simp
  moreover have "ProcessedIDs (start_operation fl (Some ?r) init) = remdups (concat batches)"
    using assms(7) ids log_lines_ascii [OF ids]
    by (simp add: start_operation_def Let_def fetch_response log_text_def parse_state_lines)
  ultimately show ?thesis using b(2) fs(1) by auto
qed

definition sample_queue :: "aw_event list" where
  "sample_queue = [AwLine ''t-1'', AwLine ''t-3'', AwTick, AwLine ''t-5'']"

theorem checkpoint_recovery_witness:
  "\<exists>r n. n = log_appends sample_env sample_flags ''stage1-task-0.state''
        (snd (aw_run (map (Pair True) sample_queue) [])) (sample_hydfs 1)
    \<and> handle_message sample_env (state_request ''stage1-task-0.state'') n = (n, [], Reply r, Done)
    \<and> ProcessedIDs (start_operation sample_flags (Some r) ()) = [''t-1'', ''t-3'']"
proof -
  define written where "written = snd (aw_run (map (Pair True) sample_queue) [])"
  have run: "aw_run (map (Pair True) sample_queue) [] = ([''t-5''], written)"
    and some: "written \<noteq> []"
    and q: "queued_lines sample_queue = [''t-1'', ''t-3'', ''t-5'']"
    by (simp_all add: written_def sample_queue_def aw_step_def Let_def flush_def queued_lines_def)
  have ids: "list_all log_id (queued_lines sample_queue)" unfolding q by (simp add: log_id_plain is_ascii_def is_space_def)
  have f: "state_log_file sample_flags = ''stage1-task-0.state''" and l: "FlHydfsLeader sample_flags \<noteq> []"
    by (simp_all add: state_log_file_def sample_flags_def)
  have n: "RingID (HNode (sample_hydfs 1)) \<in> set (file_replicas (sample_hydfs 1) (state_log_file sample_flags))"
    "healthy_env sample_env" "map_of (Store (sample_hydfs 1)) (getFileDir (state_log_file sample_flags)) = None"
    by (simp_all add: sample_replicas healthy_env_def sample_env_def)
  define node where "node = log_appends sample_env sample_flags ''stage1-task-0.state'' written (sample_hydfs 1)"
  obtain r logged where r: "handle_message sample_env (state_request ''stage1-task-0.state'') node
      = (node, [], Reply r, Done)"
    and split: "logged @ [''t-5''] = [''t-1'', ''t-3''] @ [''t-5'']"
    and got: "ProcessedIDs (start_operation sample_flags (Some r) ()) = remdups logged"
    using checkpoint_recovery [OF run ids n some l, of "()"] unfolding f node_def q by (auto simp only: append.simps)
  have "logged = [''t-1'', ''t-3'']" using split by (simp only: append1_eq_conv)
  with got have "ProcessedIDs (start_operation sample_flags (Some r) ()) = [''t-1'', ''t-3'']" by simp
  with r show ?thesis unfolding node_def written_def by blast
qed

section \<open>What is not recovered\<close>

lemma fresh_old: "list_all (\<lambda>t. TupleID t \<in> set seen) old \<Longrightarrow> fresh_tuples seen (old @ ts) = fresh_tuples seen ts"
  by (induction old) simp_all

lemma fresh_distinct:
  "distinct (map TupleID ts) \<Longrightarrow> \<forall>t \<in> set ts. TupleID t \<notin> set seen \<Longrightarrow> fresh_tuples seen ts = ts"
proof (induction ts arbitrary: seen)
  case (Cons t ts)
  have "\<forall>u \<in> set ts. TupleID u \<noteq> TupleID t" using Cons.prems(1) by (auto simp: image_iff)
  then have "\<forall>u \<in> set ts. TupleID u \<notin> set (if IsEOF t then seen else List.insert (TupleID t) seen)"
    using Cons.prems(2) by auto
  from Cons.IH [OF _ this] Cons.prems show ?case by simp
qed simp

text \<open>
  A restarted count loses its counts: only the ids are logged, so a count task that starts
  with the ids of the tuples it had counted rejects every one of them when they are sent
  again, and at the end of the stream it reports the new tuples alone.
\<close>

theorem recovered_count_forgets:
  assumes "FlTargets fl = []" and "p = start_operation fl resp None"
    and "list_all (\<lambda>t. TupleID t \<in> set (ProcessedIDs p)) old"
    and "distinct (map TupleID (new @ [eof]))" and "\<forall>t \<in> set (new @ [eof]). TupleID t \<notin> set (ProcessedIDs p)"
    and "list_all data_tuple (old @ new @ [eof])" and "list_all (\<lambda>t. \<not> IsEOF t) new" and "IsEOF eof"
  shows "\<exists>words. distinct words \<and> set words = Key ` set new
    \<and> Printed (fst (recv_all CountOpWrapper e fl (old @ new @ [eof]) p))
        = map (\<lambda>w. w @ '','' @ dec_int (int (count_list (map Key new) w))) words"
proof -
  have p: "TargetList p = []" "\<not> Crashed p" "OpState p = None" "Printed p = []"
    using assms(1,2) by (simp_all add: start_operation_def Let_def)
  have fresh: "fresh_tuples (ProcessedIDs p) (old @ new @ [eof]) = new @ [eof]"
    using assms(3-5) by (simp only: fresh_old fresh_distinct)
  obtain words where w: "distinct words" "set words = Key ` set new"
    and out: "map_option snd (op_run CountOpWrapper None (new @ [eof]))
      = Some (map (\<lambda>w. count_tuple w (int (count_list (map Key new) w))) words @ [eof])"
    using count_report [OF assms(7,8), of "[]"] by auto
  then obtain st where "op_run CountOpWrapper (OpState p) (fresh_tuples (ProcessedIDs p) (old @ new @ [eof]))
      = Some (st, map (\<lambda>w. count_tuple w (int (count_list (map Key new) w))) words @ [eof])"
    unfolding fresh p(3) by auto
  from sink_run [OF assms(6) p(1,2) this, of e fl]
  have "Printed (fst (recv_all CountOpWrapper e fl (old @ new @ [eof]) p))
      = map (\<lambda>w. w @ '','' @ dec_int (int (count_list (map Key new) w))) words"
    using assms(8) p(4) by (simp add: filter_map comp_def count_tuple_def new_tuple_def)
  with w show ?thesis by blast
qed

theorem recovered_count_forgets_witness:
  "\<exists>words. distinct words \<and> set words = {''b''}
    \<and> Printed (fst (recv_all CountOpWrapper \<lparr>OpTries = \<lambda>a t. [], OpUp = \<lambda>a. True\<rparr> sample_flags
          [sample_tuple ''1'' ''a'', sample_tuple ''2'' ''a'', sample_tuple ''3'' ''b'',
           (sample_tuple ''4'' ''e'')\<lparr>IsEOF := True\<rparr>]
          (start_operation sample_flags (Some (get_response (sample_hydfs 1) ''s'' (log_text [''1'', ''2'']))) None)))
        = map (\<lambda>w. w @ '','' @ dec_int (int (count_list [''b''] w))) words"
proof -
  define resp where "resp = Some (get_response (sample_hydfs 1) ''s'' (log_text [''1'', ''2'']))"
  define p where "p = start_operation sample_flags resp (None :: CountOp option)"
  have ok: "list_all log_id [''1'', ''2'']" by (simp add: log_id_plain is_ascii_def is_space_def)
  have "fetchStateFromHyDFS resp = Inr [''1'', ''2'']"
    unfolding resp_def log_text_def fetch_response [OF log_lines_ascii [OF ok]] parse_state_lines [OF ok] ..
  then have ids: "ProcessedIDs p = [''1'', ''2'']"
    by (simp add: p_def start_operation_def Let_def sample_flags_def)
  have fl: "FlTargets sample_flags = []" by (simp add: sample_flags_def)
  let ?eof = "(sample_tuple ''4'' ''e'')\<lparr>IsEOF := True\<rparr>"
  have old: "list_all (\<lambda>t. TupleID t \<in> set (ProcessedIDs p)) [sample_tuple ''1'' ''a'', sample_tuple ''2'' ''a'']"
    and new: "distinct (map TupleID ([sample_tuple ''3'' ''b''] @ [?eof]))"
      "\<forall>t \<in> set ([sample_tuple ''3'' ''b''] @ [?eof]). TupleID t \<notin> set (ProcessedIDs p)"
    and data: "list_all data_tuple ([sample_tuple ''1'' ''a'', sample_tuple ''2'' ''a''] @ [sample_tuple ''3'' ''b''] @ [?eof])"
      "list_all (\<lambda>t. \<not> IsEOF t) [sample_tuple ''3'' ''b'']" "IsEOF ?eof"
    and k: "map Key [sample_tuple ''3'' ''b''] = [''b'']" "Key ` set [sample_tuple ''3'' ''b''] = {''b''}"
    by (simp_all add: ids sample_tuple_def data_tuple_def)
  show ?thesis
    using recovered_count_forgets [OF fl p_def old new data] unfolding k p_def resp_def append.simps .
qed

end
