(* ===== verification/Rs_Exit.thy ===== *)
theory Rs_Exit
  imports Rs_Connections Rs_Recovery
begin

text \<open>
  How an operator process ends (\<open>StartOperation\<close> and \<open>hydfsAppendWorker\<close> in
  \<open>pkg/rainstorm/api.go\<close>): after the shutdown signal the flag is set and the listener closed, the
  connections that are open are served for half a second, then the output file is closed and the
  append workers are told to stop.

  \<^item> A step is one of a connection, the append worker receiving a line from its channel, or the
    tick of its timer. The worker's steps tell whether HyDFS can be reached.
  \<^item> On the stop signal the worker flushes what it has received; the process ends a second later.
\<close>

datatype exit_event = Serve conn_event | Take bool | Tick bool

type_synonym 'st exit_state = "'st conns \<times> string list"

definition take_line :: "bool \<Rightarrow> 'st OpProc \<Rightarrow> string list \<Rightarrow> 'st OpProc \<times> string list \<times> bytes list" where
  "take_line up p buffer =
     (case AppendChan p of
        Some (line # q) \<Rightarrow>
          (case aw_step up (AwLine line) buffer of (b, sent) \<Rightarrow> (p\<lparr>AppendChan := Some q\<rparr>, b, sent))
      | _ \<Rightarrow> (p, buffer, []))"

fun exit_step ::
  "'st user_op \<Rightarrow> op_env \<Rightarrow> OpFlags \<Rightarrow> exit_event \<Rightarrow> 'st exit_state \<Rightarrow> 'st exit_state \<times> bytes list" where
  "exit_step process e fl (Serve ev) (s, buffer) = ((fst (conn_step process e fl ev s), buffer), [])"
| "exit_step process e fl (Take up) ((p, busy), buffer) =
     (case take_line up p buffer of (p1, b, sent) \<Rightarrow> (((p1, busy), b), sent))"
| "exit_step process e fl (Tick up) (s, buffer) =
     (case aw_step up AwTick buffer of (b, sent) \<Rightarrow> ((s, b), sent))"

fun exit_run ::
  "'st user_op \<Rightarrow> op_env \<Rightarrow> OpFlags \<Rightarrow> exit_event list \<Rightarrow> 'st exit_state \<Rightarrow> 'st exit_state \<times> bytes list" where
  "exit_run process e fl [] x = (x, [])"
| "exit_run process e fl (ev # evs) x =
     (case exit_step process e fl ev x of (x1, sent1) \<Rightarrow>
        case exit_run process e fl evs x1 of (x2, sent2) \<Rightarrow> (x2, sent1 @ sent2))"

text \<open>
  The end of the process: the process as it is then, the output file, and the contents of the
  appends to the destination file. \<open>evs\<close> are the steps of the half second; the file is closed
  after them. \<open>late\<close> are the steps until the append worker sees the signal, the last of it.
  Without a number of sources a process never ends.
\<close>

definition operator_exit ::
  "'st user_op \<Rightarrow> op_env \<Rightarrow> OpFlags \<Rightarrow> exit_event list \<Rightarrow> exit_event list \<Rightarrow> bool \<Rightarrow> 'st exit_state
   \<Rightarrow> ('st OpProc \<times> string list option \<times> bytes list) option" where
  "operator_exit process e fl evs late up x =
     (case x of ((p, busy), buffer) \<Rightarrow>
        if \<not> (FlNumSources fl > 0 \<and> ShutdownSignal p) then None
        else case exit_run process e fl evs ((begin_shutdown fl p, busy), buffer) of
          (((p1, busy1), b1), sent1) \<Rightarrow>
            (case exit_run process e fl late ((p1\<lparr>OutFile := None\<rparr>, busy1), b1) of
               (((p2, busy2), b2), sent2) \<Rightarrow>
                 Some (p2, OutFile p1, sent1 @ sent2 @ snd (aw_step up AwStop b2))))"

section \<open>What the steps of a connection change now\<close>

definition at_exit :: "'st OpProc \<Rightarrow> 'st OpProc \<Rightarrow> bool" where
  "at_exit p q \<longleftrightarrow> IsShuttingDown q \<and> AppendChan q = AppendChan p \<and> StateLogChan q = StateLogChan p
     \<and> (\<exists>xs. Printed q = Printed p @ xs \<and> OutFile q = map_option (\<lambda>ls. ls @ xs) (OutFile p))"

lemma at_exit_refl: "IsShuttingDown p \<Longrightarrow> at_exit p p"
  by (auto simp: at_exit_def option.map_ident)

lemma at_exit_trans: "at_exit p q \<Longrightarrow> at_exit q r \<Longrightarrow> at_exit p r"
  by (auto simp: at_exit_def option.map_comp comp_def)

lemma emit_at_exit: "IsShuttingDown p \<Longrightarrow> at_exit p (fst (emit e fl t p))"
  using at_exit_refl [of p]
  by (auto simp: at_exit_def emit_def emit_sink_def emit_eof_def emit_tuple_def broadcastEOF_def Let_def
      option.map_ident split: option.split)

lemma emit_all_at_exit: "IsShuttingDown p \<Longrightarrow> at_exit p (fst (emit_all e fl ts p))"
proof (induction ts arbitrary: p)
  case (Cons t ts)
  have "at_exit p (fst (emit e fl t p))" using Cons.prems by (rule emit_at_exit)
  moreover from this have "IsShuttingDown (fst (emit e fl t p))" by (simp add: at_exit_def)
  ultimately show ?case
    using at_exit_trans [OF _ Cons.IH] by (simp add: emit_all_Cons Let_def del: emit_all.simps)
qed (simp add: at_exit_refl)

lemma recv_finish_at_exit:
  assumes "IsShuttingDown p"
  shows "at_exit p (fst (recv_finish process e fl t p))"
proof (cases "process (OpState p) t")
  case None
  then show ?thesis
    using at_exit_refl [OF assms] by (simp add: recv_finish_def Let_def at_exit_def count_tuple_seen_def)
next
  case (Some so)
  obtain st o1 where so: "process (OpState p) t = Some (st, o1)" using Some by (cases so) auto
  let ?p1 = "(count_tuple_seen t p)\<lparr>OpState := st\<rparr>"
  have p1: "at_exit p ?p1" using at_exit_refl [OF assms] by (simp add: at_exit_def count_tuple_seen_def)
  then have all: "at_exit ?p1 (fst (emit_all e fl o1 ?p1))" by (intro emit_all_at_exit) (simp add: at_exit_def)
  have "at_exit p (fst (emit_all e fl o1 ?p1))" by (rule at_exit_trans [OF p1 all])
  then show ?thesis
    by (auto simp: recv_finish_def so Let_def case_prod_beta checkpoint_def mark_processed_def at_exit_def)
qed

lemma conn_step_at_exit:
  "IsShuttingDown (fst s) \<Longrightarrow> at_exit (fst s) (fst (fst (conn_step process e fl ev s)))"
  using at_exit_refl [of "fst s"] recv_finish_at_exit [of "fst s"]
  by (auto simp: conn_step_def recv_check_def at_exit_def case_prod_beta split: prod.splits conn_event.splits option.splits verdict.splits)

section \<open>What an exit loses\<close>

fun reached :: "exit_event \<Rightarrow> bool" where
  "reached (Serve ev) = True" | "reached (Take up) = up" | "reached (Tick up) = up"

text \<open>The lines that the append worker has or is going to receive.\<close>

definition waiting :: "'st exit_state \<Rightarrow> string list" where
  "waiting x = snd x @ (case AppendChan (fst (fst x)) of None \<Rightarrow> [] | Some q \<Rightarrow> q)"

text \<open>What the steps after the signal do: print, write to the file, and send what was waiting.\<close>

definition exits :: "'st exit_state \<Rightarrow> 'st exit_state \<Rightarrow> bytes list \<Rightarrow> bool" where
  "exits x y sent \<longleftrightarrow> IsShuttingDown (fst (fst y)) \<and> StateLogChan (fst (fst y)) = StateLogChan (fst (fst x))
     \<and> (\<exists>batches. sent = map log_text batches \<and> concat batches @ waiting y = waiting x)
     \<and> (\<exists>xs. Printed (fst (fst y)) = Printed (fst (fst x)) @ xs
          \<and> OutFile (fst (fst y)) = map_option (\<lambda>ls. ls @ xs) (OutFile (fst (fst x))))"

lemma exits_refl: "IsShuttingDown (fst (fst x)) \<Longrightarrow> exits x x []"
  by (auto simp: exits_def option.map_ident intro!: exI [of _ "[]"])

lemma exits_trans:
  assumes "exits x y s1" and "exits y z s2"
  shows "exits x z (s1 @ s2)"
proof -
  obtain bs cs where "s1 = map log_text bs" "concat bs @ waiting y = waiting x"
    "s2 = map log_text cs" "concat cs @ waiting z = waiting y"
    using assms unfolding exits_def by blast
  then have "\<exists>batches. s1 @ s2 = map log_text batches \<and> concat batches @ waiting z = waiting x"
    by (intro exI [of _ "bs @ cs"]) simp
  then show ?thesis
    using assms unfolding exits_def by (elim conjE exE, intro conjI) (auto simp: option.map_comp comp_def)
qed

lemma flush_batches: "\<exists>batches. snd (flush True b) = map log_text batches \<and> concat batches @ fst (flush True b) = b"
  by (cases "b = []") (auto simp: flush_up intro: exI [of _ "[]"] exI [of _ "[b]"])

lemma aw_step_batches:
  "\<exists>batches. snd (aw_step True ev b) = map log_text batches
     \<and> concat batches @ fst (aw_step True ev b) = b @ (case ev of AwLine line \<Rightarrow> [line] | _ \<Rightarrow> [])"
  using flush_batches [of b] flush_batches [of "b @ [line]" for line]
  by (cases ev) (auto simp: aw_step_def Let_def intro: exI [of _ "[]"])

lemma exit_step_exits:
  assumes "IsShuttingDown (fst (fst x))" and "reached ev"
  shows "exits x (fst (exit_step process e fl ev x)) (snd (exit_step process e fl ev x))"
proof -
  obtain p busy buffer where x: "x = ((p, busy), buffer)" by (metis surj_pair)
  show ?thesis
  proof (cases ev)
    case (Serve c)
    then show ?thesis
      using conn_step_at_exit [of "(p, busy)" process e fl c] assms(1) by (auto simp: x exits_def at_exit_def waiting_def)
  next
    case (Take up)
    show ?thesis
    proof (cases "AppendChan p = None \<or> AppendChan p = Some []")
      case True
      then show ?thesis
        using exits_refl [of x] assms(1) by (auto simp: x Take take_line_def)
    next
      case False
      then obtain line q where q: "AppendChan p = Some (line # q)" by (cases "AppendChan p") (auto simp: neq_Nil_conv)
      have xs: "\<exists>xs. Printed p = Printed p @ xs \<and> OutFile p = map_option (\<lambda>ls. ls @ xs) (OutFile p)"
        by (intro exI [of _ "[]"]) (simp add: option.map_ident)
      show ?thesis
        using aw_step_batches [of "AwLine line" buffer] assms xs
        by (auto simp: x Take take_line_def q case_prod_beta exits_def waiting_def)
    qed
  next
    case (Tick up)
    have xs: "\<exists>xs. Printed p = Printed p @ xs \<and> OutFile p = map_option (\<lambda>ls. ls @ xs) (OutFile p)"
      by (intro exI [of _ "[]"]) (simp add: option.map_ident)
    show ?thesis
      using aw_step_batches [of AwTick buffer] assms xs
      by (auto simp: x Tick case_prod_beta exits_def waiting_def)
  qed
qed

lemma exit_run_exits:
  assumes "IsShuttingDown (fst (fst x))" and "list_all reached evs" and "exit_run process e fl evs x = (y, sent)"
  shows "exits x y sent"
  using assms
proof (induction evs arbitrary: x sent)
  case Nil
  then show ?case using exits_refl by simp
next
  case (Cons ev evs)
  obtain x1 sent1 where st: "exit_step process e fl ev x = (x1, sent1)" by fastforce
  obtain sent2 where r: "exit_run process e fl evs x1 = (y, sent2)" "sent = sent1 @ sent2"
    using Cons.prems(3) st by (auto split: prod.splits)
  have e: "exits x x1 sent1" using exit_step_exits [of x ev process e fl] Cons.prems(1,2) st by simp
  then have "exits x1 y sent2" using Cons.IH [OF _ _ r(1)] Cons.prems(2) by (simp add: exits_def)
  then show ?case using exits_trans [OF e] r(2) by blast
qed


text \<open>A line is queued, another is being processed: neither is appended.\<close>

definition ending_sink :: "unit exit_state" where
  "ending_sink =
     (((start_operation sample_flags None ())\<lparr>ShutdownSignal := True, OutFile := Some [''a''], AppendChan := Some [''a''],
        Printed := [''a'']\<rparr>, [(1, sample_tuple ''2'' ''b'')]), [])"


end
