(* ===== verification/Rs_Restart.thy ===== *)
theory Rs_Restart
  imports Rs_Worker Rs_Leader_Props
begin

text \<open>
  What the reports of a worker do at the leader when a task process dies
  (\<open>runTaskProcess\<close> in \<open>worker.go\<close>, \<open>HandleTaskFailure\<close> and \<open>HandleTaskCompleted\<close> in
  \<open>leader.go\<close>).
\<close>

primrec deliver_reports :: "rs_env \<Rightarrow> Server \<Rightarrow> report_msg list \<Rightarrow> Server \<Rightarrow> Server \<times> rs_out list" where
  "deliver_reports e worker [] s = (s, [])"
| "deliver_reports e worker (r # rs) s =
     (case deliver_report e worker r s of (s1, o1) \<Rightarrow>
        case deliver_reports e worker rs s1 of (s2, o2) \<Rightarrow> (s2, o1 @ o2))"

lemma HandleTaskStarted_fields [simp]:
  "JobEnded (HandleTaskStarted t s) = JobEnded s"
  "GetAliveWorkers (HandleTaskStarted t s) = GetAliveWorkers s"
  "CurrentRoutingTable (HandleTaskStarted t s) = CurrentRoutingTable s"
  "SConfig (HandleTaskStarted t s) = SConfig s"
  "CompletedTaskIDs (HandleTaskStarted t s) = CompletedTaskIDs s"
  "CompletedTasks (HandleTaskStarted t s) = CompletedTasks s"
  "ExpectedTasks (HandleTaskStarted t s) = ExpectedTasks s"
  "CurrentJobName (HandleTaskStarted t s) = CurrentJobName s"
  "map_of (AllTasks s) (TkID t) = Some u \<Longrightarrow>
    map_of (AllTasks (HandleTaskStarted t s)) (TkID t)
      = Some (u\<lparr>PID := PID t, LogFile := LogFile t, TkState := TaskStateRunning\<rparr>)"
  by (simp_all add: HandleTaskStarted_def GetAliveWorkers_def leader_hostname_def split: option.split)

lemma HandleTaskFailure_restarts:
  assumes "\<not> JobEnded s" and "map_of (AllTasks s) (TfTaskID pl) = Some u"
    and "CurrentRoutingTable s \<noteq> None" and "GetAliveWorkers s \<noteq> []" and "\<forall>a. RsUp e a"
  obtains rt where "snd (HandleTaskFailure e pl s) =
      [OutSchedule (join_host_port (hd (GetAliveWorkers s)) (RainStormPort (SConfig s)))
        (restart_task (hd (GetAliveWorkers s)) u) rt]"
    "JobEnded (fst (HandleTaskFailure e pl s)) = JobEnded s"
    "CompletedTaskIDs (fst (HandleTaskFailure e pl s)) = CompletedTaskIDs s"
    "CompletedTasks (fst (HandleTaskFailure e pl s)) = CompletedTasks s"
    "ExpectedTasks (fst (HandleTaskFailure e pl s)) = ExpectedTasks s"
    "CurrentJobName (fst (HandleTaskFailure e pl s)) = CurrentJobName s"
proof -
  have w: "GetAliveWorkers (s\<lparr>AllTasks := m\<rparr>) = GetAliveWorkers s" for m
    by (simp add: GetAliveWorkers_def leader_hostname_def)
  show thesis
    by (rule that) (use assms in \<open>simp_all add: HandleTaskFailure_def Let_def w sendScheduleTask_def restart_task_def\<close>)
qed

lemma HandleTaskCompleted_ends:
  assumes "TcTaskID pl \<notin> set (CompletedTaskIDs s)" and "ExpectedTasks s \<le> CompletedTasks s + 1" and "\<not> JobEnded s"
  shows "JobEnded (fst (HandleTaskCompleted e pl s)) \<and> OutRunEnd (CurrentJobName s) \<in> set (snd (HandleTaskCompleted e pl s))"
proof -
  have f: "CompletedTaskIDs (set_task_result pl s) = CompletedTaskIDs s" "CompletedTasks (set_task_result pl s) = CompletedTasks s"
    "ExpectedTasks (set_task_result pl s) = ExpectedTasks s" "CurrentJobName (set_task_result pl s) = CurrentJobName s"
    by (simp_all add: set_task_result_def split: option.split)
  have n: "CurrentJobName (mark_completed t s) = CurrentJobName s" for t s by (simp add: mark_completed_def)
  obtain s1 c o1 where c: "completed_count e pl s = (s1, c, o1)" by (cases "completed_count e pl s") auto
  then have "c = snapshot (mark_completed (TcTaskID pl) (set_task_result pl s))"
    by (auto simp: completed_count_def Let_def split: if_splits)
  then have "cpCompleted c = CompletedTasks s + 1" "cpExpected c = ExpectedTasks s" "cpJobName c = CurrentJobName s"
    using assms(1) f n by (simp_all add: snapshot_def) (simp add: mark_completed_def f)
  moreover have "\<not> JobEnded s1" using completed_count_ended [of e pl s] c assms(3) by simp
  ultimately show ?thesis using assms(2) c
    by (simp add: HandleTaskCompleted_def completed_end_def)
qed

text \<open>
  C37. A crash can end a run: when a task process dies, the worker reports it as failed and also
  as completed. The leader restarts it, on the first worker, and then counts the completion
  of the process that died, so that if the other tasks are done it declares the run ended while the
  restarted task has only just been scheduled.
\<close>

theorem crashed_task_ends_run:
  assumes "runTaskProcess True (Some pid) False cwd now task = (task', reports)"
    and "map_of (AllTasks s) (TkID task) = Some u" and "TkID task \<notin> set (CompletedTaskIDs s)"
    and "ExpectedTasks s \<le> CompletedTasks s + 1" and "\<not> JobEnded s"
    and "CurrentRoutingTable s \<noteq> None" and "GetAliveWorkers s \<noteq> []"
    and "Role worker = ''worker''" and "\<forall>a. RsUp e a"
    and "deliver_reports e worker reports s = (s', outs)"
  shows "JobEnded s' \<and> OutRunEnd (CurrentJobName s) \<in> set outs
    \<and> (\<exists>t rt. OutSchedule (join_host_port (hd (GetAliveWorkers s)) (RainStormPort (SConfig s))) t rt \<in> set outs
        \<and> TkID t = TkID u \<and> TkState t = TaskStateIdle \<and> TkPort t = TkPort u)"
proof -
  let ?t = "task\<lparr>PID := pid, LogFile := task_log_file cwd now task, TkState := TaskStateRunning\<rparr>"
  let ?s1 = "HandleTaskStarted ?t s"
  have reports: "reports = [ReportStarted ?t, ReportFailed ?t, ReportCompleted (?t\<lparr>TkState := TaskStateFailed\<rparr>) False]"
    using arg_cong [OF assms(1), of snd] by (simp add: runTaskProcess_def Let_def)
  have "map_of (AllTasks ?s1) (TkID ?t)
      = Some (u\<lparr>PID := PID ?t, LogFile := LogFile ?t, TkState := TaskStateRunning\<rparr>)" (is "_ = Some ?u")
    using assms(2) by (intro HandleTaskStarted_fields(9)) simp
  then obtain rt where fail: "snd (HandleTaskFailure e (failure_payload ?t) ?s1) =
       [OutSchedule (join_host_port (hd (GetAliveWorkers s)) (RainStormPort (SConfig s)))
          (restart_task (hd (GetAliveWorkers s)) ?u) rt]"
    and same: "JobEnded (fst (HandleTaskFailure e (failure_payload ?t) ?s1)) = JobEnded s"
      "CompletedTaskIDs (fst (HandleTaskFailure e (failure_payload ?t) ?s1)) = CompletedTaskIDs s"
      "CompletedTasks (fst (HandleTaskFailure e (failure_payload ?t) ?s1)) = CompletedTasks s"
      "ExpectedTasks (fst (HandleTaskFailure e (failure_payload ?t) ?s1)) = ExpectedTasks s"
      "CurrentJobName (fst (HandleTaskFailure e (failure_payload ?t) ?s1)) = CurrentJobName s"
    using HandleTaskFailure_restarts [of ?s1 "failure_payload ?t" ?u e] assms(5-7,9)
    by (simp add: failure_payload_def) metis
  define s2 where "s2 = fst (HandleTaskFailure e (failure_payload ?t) ?s1)"
  let ?pl = "completed_payload (?t\<lparr>TkState := TaskStateFailed\<rparr>) False"
  have ends: "JobEnded (fst (HandleTaskCompleted e ?pl s2))"
    "OutRunEnd (CurrentJobName s) \<in> set (snd (HandleTaskCompleted e ?pl s2))"
    using HandleTaskCompleted_ends [of ?pl s2 e] assms(3-5) same by (simp_all add: completed_payload_def s2_def)
  have "deliver_reports e worker reports s = (fst (HandleTaskCompleted e ?pl s2),
      [OutSchedule (join_host_port (hd (GetAliveWorkers s)) (RainStormPort (SConfig s)))
         (restart_task (hd (GetAliveWorkers s)) ?u) rt] @ snd (HandleTaskCompleted e ?pl s2))"
    using assms(8,9) fail
    by (simp add: reports deliver_report_def ReportTaskStarted_def NotifyLeaderTaskFailed_def
        ReportTaskCompleted_def case_prod_beta s2_def)
  then show ?thesis using ends assms(10) by (auto simp: restart_task_def)
qed

theorem crashed_task_ends_run_witness:
  "let task = zero_task\<lparr>TkID := ''stage1-task-0'', TkPort := 10001\<rparr>;
       s = sample_server\<lparr>AllTasks := [(''stage1-task-0'', task)], CurrentRoutingTable := Some [],
         ExpectedTasks := 1, CurrentJobName := ''grep''\<rparr>
   in JobEnded (fst (deliver_reports sample_env_rs (sample_server\<lparr>Role := ''worker''\<rparr>)
        (snd (runTaskProcess True (Some 7) False ''/home'' ''now'' task)) s))"
proof -
  let ?task = "zero_task\<lparr>TkID := ''stage1-task-0'', TkPort := 10001\<rparr>"
  let ?s = "sample_server\<lparr>AllTasks := [(''stage1-task-0'', ?task)], CurrentRoutingTable := Some [],
         ExpectedTasks := 1, CurrentJobName := ''grep''\<rparr>"
  let ?w = "sample_server\<lparr>Role := ''worker''\<rparr>"
  let ?r = "snd (runTaskProcess True (Some 7) False ''/home'' ''now'' ?task)"
  have "GetAliveWorkers ?s = GetAliveWorkers sample_server" by (simp add: GetAliveWorkers_def leader_hostname_def)
  then have w: "GetAliveWorkers ?s \<noteq> []" by (simp add: sample_workers)
  have s: "map_of (AllTasks ?s) (TkID ?task) = Some ?task" "TkID ?task \<notin> set (CompletedTaskIDs ?s)"
    "ExpectedTasks ?s \<le> CompletedTasks ?s + 1" "\<not> JobEnded ?s" "CurrentRoutingTable ?s \<noteq> None"
    by (simp_all add: sample_server_def)
  have r: "Role ?w = ''worker''" "\<forall>a. RsUp sample_env_rs a" by (simp_all add: sample_env_rs_def)
  show ?thesis unfolding Let_def
    by (rule crashed_task_ends_run [OF surjective_pairing s w r surjective_pairing, THEN conjunct1])
qed

end
