(* ===== verification/Rs_Pipeline.thy ===== *)
theory Rs_Pipeline
  imports Rs_Delivery
begin

text \<open>
  A whole job: a source task, a task of a middle stage and the sinks of the last stage, with
  transmissions that are repeated on every hop.

  \<^item> \<open>to_target b outs\<close> is what the outputs of a task put on its connection to \<open>b\<close>.
  \<^item> \<open>out_stream\<close> is the reference for these outputs: it depends on the emitted tuples, the
    number of markers so far and the flag of the broadcast, and not on the rest of the state.
\<close>

section \<open>The outputs of a task with targets\<close>

fun to_target :: "string \<Rightarrow> op_out list \<Rightarrow> Tuple list" where
  "to_target b [] = []"
| "to_target b (OutTuple a t # os) = (if a = b then t # to_target b os else to_target b os)"
| "to_target b (OutEofTo a t # os) = (if a = b then t # to_target b os else to_target b os)"
| "to_target b (OutSyncCheckpoint f s # os) = to_target b os"

lemma to_target_append [simp]: "to_target b (os @ os') = to_target b os @ to_target b os'"
  by (induction b os rule: to_target.induct) simp_all

definition as_tuple :: "Tuple \<Rightarrow> Tuple" where
  "as_tuple t = t\<lparr>TpType := ''tuple''\<rparr>"

lemma as_tuple_fields [simp]:
  "Key (as_tuple t) = Key t" "Value (as_tuple t) = Value t" "TupleID (as_tuple t) = TupleID t"
  "IsEOF (as_tuple t) = IsEOF t" "data_tuple (as_tuple t)"
  by (simp_all add: as_tuple_def data_tuple_def)

definition sends :: "op_env \<Rightarrow> string \<Rightarrow> Tuple \<Rightarrow> nat \<times> bool" where
  "sends e target t = send_attempts (take 5 (OpTries e target t))"

primrec out_stream ::
  "op_env \<Rightarrow> int \<Rightarrow> string list \<Rightarrow> string \<Rightarrow> int \<times> bool \<Rightarrow> Tuple list \<Rightarrow> Tuple list" where
  "out_stream e n bs b cb [] = []"
| "out_stream e n bs b cb (t # ts) =
     (if IsEOF t then
        (if n \<le> 0 then out_stream e n bs b cb ts
         else
           (if fst cb + 1 \<ge> n \<and> \<not> snd cb
            then replicate (count_list (filter (OpUp e) bs) b) (as_tuple t) else [])
           @ out_stream e n bs b (fst cb + 1, snd cb \<or> fst cb + 1 \<ge> n) ts)
      else
        (if pick_target (Key t) bs = Some b then replicate (fst (sends e b (as_tuple t))) (as_tuple t) else [])
        @ out_stream e n bs b cb ts)"

primrec out_after :: "int \<Rightarrow> int \<times> bool \<Rightarrow> Tuple list \<Rightarrow> int \<times> bool" where
  "out_after n cb [] = cb"
| "out_after n cb (t # ts) =
     out_after n (if IsEOF t \<and> n > 0 then (fst cb + 1, snd cb \<or> fst cb + 1 \<ge> n) else cb) ts"

lemma out_stream_append:
  "out_stream e n bs b cb (xs @ ys) = out_stream e n bs b cb xs @ out_stream e n bs b (out_after n cb xs) ys"
  by (induction xs arbitrary: cb) simp_all

lemma out_after_append: "out_after n cb (xs @ ys) = out_after n (out_after n cb xs) ys"
  by (induction xs arbitrary: cb) simp_all

text \<open>A task that can send: it has targets, has not crashed, and its keys have a target.\<close>

definition sending :: "string list \<Rightarrow> 'st OpProc \<Rightarrow> bool" where
  "sending bs p \<longleftrightarrow> TargetList p = bs \<and> bs \<noteq> [] \<and> \<not> Crashed p"

definition has_target :: "string list \<Rightarrow> Tuple \<Rightarrow> bool" where
  "has_target bs t \<longleftrightarrow> IsEOF t \<or> pick_target (Key t) bs \<noteq> None"

lemma to_target_replicate: "to_target b (replicate k (OutTuple a t)) = (if a = b then replicate k t else [])"
  by (induction k) auto

lemma to_target_eofs: "to_target b (map (\<lambda>a. OutEofTo a t) as) = replicate (count_list as b) t"
  by (induction as) auto

lemma emit_stream:
  assumes "sending bs p" and "has_target bs t"
  shows "to_target b (snd (emit e fl t p))
      = out_stream e (FlNumSources fl) bs b (EofCount p, EofBroadcast p) [t]
    \<and> sending bs (fst (emit e fl t p))
    \<and> (EofCount (fst (emit e fl t p)), EofBroadcast (fst (emit e fl t p)))
      = out_after (FlNumSources fl) (EofCount p, EofBroadcast p) [t]"
proof (cases "IsEOF t")
  case True
  then show ?thesis using assms(1)
    by (auto simp: emit_def emit_eof_def broadcastEOF_def Let_def sending_def as_tuple_def to_target_eofs)
next
  case False
  then obtain a where a: "pick_target (Key t) bs = Some a" using assms(2) by (auto simp: has_target_def)
  then show ?thesis using False assms(1)
    by (simp add: emit_def emit_tuple_def Let_def sending_def as_tuple_def to_target_replicate sends_def)
qed

lemma emit_all_stream:
  assumes "sending bs p" and "list_all (has_target bs) ts"
  shows "to_target b (snd (emit_all e fl ts p))
      = out_stream e (FlNumSources fl) bs b (EofCount p, EofBroadcast p) ts
    \<and> sending bs (fst (emit_all e fl ts p))
    \<and> (EofCount (fst (emit_all e fl ts p)), EofBroadcast (fst (emit_all e fl ts p)))
      = out_after (FlNumSources fl) (EofCount p, EofBroadcast p) ts"
  using assms
proof (induction ts arbitrary: p)
  case Nil
  then show ?case by simp
next
  case (Cons t ts)
  have h: "has_target bs t" "list_all (has_target bs) ts" using Cons.prems(2) by simp_all
  note one = emit_stream [OF Cons.prems(1) h(1), of b e fl]
  note rest = Cons.IH [OF conjunct1 [OF conjunct2 [OF one]] h(2)]
  show ?case
    using one rest out_stream_append [of e "FlNumSources fl" bs b "(EofCount p, EofBroadcast p)" "[t]" ts]
      out_after_append [of "FlNumSources fl" "(EofCount p, EofBroadcast p)" "[t]" ts]
    by (simp add: emit_all_Cons Let_def del: emit_all.simps out_stream.simps out_after.simps)
qed

lemma checkpoint_sends [simp]: "to_target b (snd (checkpoint fl t p)) = []"
  by (simp add: checkpoint_def split: option.split)

lemma checkpoint_EofBroadcast [simp]: "EofBroadcast (fst (checkpoint fl t p)) = EofBroadcast p"
  by (simp add: checkpoint_def split: option.split)

lemma mark_processed_EofBroadcast [simp]: "EofBroadcast (mark_processed t p) = EofBroadcast p"
  by (simp add: mark_processed_def)

lemma count_tuple_seen_EofBroadcast [simp]: "EofBroadcast (count_tuple_seen t p) = EofBroadcast p"
  by (simp add: count_tuple_seen_def)

lemma recv_finish_stream:
  assumes "sending bs p" and "process (OpState p) t = Some (st, em)" and "list_all (has_target bs) em"
  shows "to_target b (fst (snd (recv_finish process e fl t p)))
      = out_stream e (FlNumSources fl) bs b (EofCount p, EofBroadcast p) em
    \<and> sending bs (fst (recv_finish process e fl t p)) \<and> OpState (fst (recv_finish process e fl t p)) = st
    \<and> (EofCount (fst (recv_finish process e fl t p)), EofBroadcast (fst (recv_finish process e fl t p)))
      = out_after (FlNumSources fl) (EofCount p, EofBroadcast p) em"
proof -
  let ?p = "(count_tuple_seen t p)\<lparr>OpState := st\<rparr>"
  let ?q = "emit_all e fl em ?p"
  have s: "sending bs ?p" using assms(1) by (simp add: sending_def)
  note em = emit_all_stream [OF s assms(3), of b e fl]
  have "OpState (fst ?q) = st" using emit_all_frame [of ?p e fl em] by (simp add: op_frame_def)
  then show ?thesis using em assms(2)
    by (simp add: recv_finish_def Let_def case_prod_beta sending_def)
qed

text \<open>All that a task puts on the connection to \<open>b\<close>, for whatever repetitions it receives.\<close>

lemma recv_all_stream:
  assumes "list_all data_tuple ts" and "sending bs p"
    and "op_run process (OpState p) (fresh_tuples (ProcessedIDs p) ts) = Some (st', em)"
    and "list_all (has_target bs) em"
  shows "to_target b (fst (snd (recv_all process e fl ts p)))
      = out_stream e (FlNumSources fl) bs b (EofCount p, EofBroadcast p) em
    \<and> sending bs (fst (recv_all process e fl ts p)) \<and> OpState (fst (recv_all process e fl ts p)) = st'"
  using assms
proof (induction ts arbitrary: p em)
  case Nil
  then show ?case by simp
next
  case (Cons t ts)
  have d: "data_tuple t" "list_all data_tuple ts" and nc: "\<not> Crashed p"
    using Cons.prems by (simp_all add: sending_def)
  show ?case
  proof (cases "TupleID t \<in> set (ProcessedIDs p)")
    case True
    then have "recv process e fl t p = (p, [], Some (TupleID t))" using d nc by (simp add: recv_data)
    then show ?thesis using Cons.IH [OF d(2) Cons.prems(2), of em] Cons.prems True by (simp add: case_prod_beta)
  next
    case False
    let ?ids = "if IsEOF t then ProcessedIDs p else List.insert (TupleID t) (ProcessedIDs p)"
    obtain st o1 o2 where po: "process (OpState p) t = Some (st, o1)"
      and rest: "op_run process st (fresh_tuples ?ids ts) = Some (st', o2)" and em: "em = o1 @ o2"
      using Cons.prems(3) False by (auto split: option.splits)
    have ht: "list_all (has_target bs) o1" "list_all (has_target bs) o2" using Cons.prems(4) em by simp_all
    let ?r = "recv_finish process e fl t p"
    note at = recv_finish_stream [where process = process and t = t and e = e and fl = fl and b = b,
        OF Cons.prems(2) po ht(1)]
    have "\<not> Crashed (fst ?r)" using at by (simp add: sending_def)
    then have ids: "ProcessedIDs (fst ?r) = ?ids" using recv_finish_ids [of process e fl t p] by blast
    have "recv process e fl t p = ?r" using False d nc by (simp add: recv_data)
    moreover have "op_run process (OpState (fst ?r)) (fresh_tuples (ProcessedIDs (fst ?r)) ts) = Some (st', o2)"
      using rest ids at by simp
    ultimately show ?thesis
      using Cons.IH [OF d(2) _ _ ht(2), of "fst ?r"] at
      by (simp add: case_prod_beta em out_stream_append)
  qed
qed

section \<open>Through a middle stage\<close>

text \<open>The tuples that are for \<open>b\<close>.\<close>

definition for_target :: "string list \<Rightarrow> string \<Rightarrow> Tuple list \<Rightarrow> Tuple list" where
  "for_target bs b ts = filter (\<lambda>t. pick_target (Key t) bs = Some b) ts"

lemma out_stream_data:
  "list_all (\<lambda>t. \<not> IsEOF t) ds \<Longrightarrow>
   out_stream e n bs b cb ds
     = repeated (map (\<lambda>t. fst (sends e b (as_tuple t))) (for_target bs b ds)) (map as_tuple (for_target bs b ds))
   \<and> out_after n cb ds = cb"
  by (induction ds) (simp_all add: for_target_def)

lemma out_stream_markers:
  assumes "IsEOF t" and "0 < k"
  shows "out_stream e 1 bs b (0, False) (replicate k t) = replicate (count_list (filter (OpUp e) bs) b) (as_tuple t)"
proof -
  have "out_stream e 1 bs b (c, True) (replicate j t) = []" for c j
    using assms(1) by (induction j arbitrary: c) simp_all
  moreover obtain j where "k = Suc j" using assms(2) by (cases k) auto
  ultimately show ?thesis using assms(1) by simp
qed

lemma count_list_up: "distinct bs \<Longrightarrow> b \<in> set bs \<Longrightarrow> OpUp e b \<Longrightarrow> count_list (filter (OpUp e) bs) b = 1"
  by (induction bs) (auto simp: count_list_0_iff)

lemma send_attempts_ok: "snd (send_attempts as) \<Longrightarrow> 0 < fst (send_attempts as)"
  by (induction as rule: send_attempts.induct) (auto split: prod.splits)

text \<open>
  A job of three stages, exactly once: a source task sends its part of a file to a task of
  a middle stage, which sends what it emits to the sinks by the hash of the keys, and on both
  hops connections break, acknowledgements are lost and tuples are sent again. If everything
  was acknowledged in the end, every sink has printed exactly what its operator emits on the
  middle operator's tuples with its keys, each once and in order, followed by one end marker.
\<close>

lemma pipeline_exactly_once:
  assumes "runSourceTask (Some content) dials tries eofUp task targets = (sent, SourceDone n, reports)"
    and "n = length (source_tuples task content)" and "fst ` set sent \<subseteq> {a}"
    and "\<forall>t \<in> insert (source_eof task) (set (source_tuples task content)). TupleID t \<notin> set (ProcessedIDs p)"
    and "sending bs p" and "distinct bs" and "EofCount p = 0" and "\<not> EofBroadcast p" and "FlNumSources fl = 1"
    and "op_run middle (OpState p) (source_tuples task content @ filter IsEOF (received a sent))
         = Some (st1, ds @ replicate k (source_eof task))"
    and "0 < k" and "list_all (\<lambda>t. \<not> IsEOF t) ds" and "list_all (has_target bs) ds"
    and "list_all (\<lambda>t. snd (sends e b (as_tuple t))) (for_target bs b ds)"
    and "b \<in> set bs" and "OpUp e b" and "TargetList q = []" and "\<not> Crashed q"
    and "distinct (map TupleID (for_target bs b ds))"
    and "insert (TupleID (source_eof task)) (TupleID ` set (for_target bs b ds)) \<inter> set (ProcessedIDs q) = {}"
    and "TupleID (source_eof task) \<notin> TupleID ` set (for_target bs b ds)"
    and "op_run last_op (OpState q) (map as_tuple (for_target bs b ds) @ [as_tuple (source_eof task)]) = Some (st2, em)"
  shows "Printed (fst (recv_all last_op e' fl' (to_target b (fst (snd (recv_all middle e fl (received a sent) p)))) q))
    = Printed q @ map Value (filter (\<lambda>t. \<not> IsEOF t) em)"
proof -
  let ?ts = "source_tuples task content" and ?eof = "source_eof task" and ?D = "for_target bs b ds"
  note stream = source_stream [OF assms(1-4)]
  have eof: "IsEOF ?eof" "has_target bs ?eof" by (simp_all add: source_eof_def has_target_def)
  have ht: "list_all (has_target bs) (ds @ replicate k ?eof)"
    using assms(13) eof(2) by (auto simp: list_all_iff)
  have "op_run middle (OpState p) (fresh_tuples (ProcessedIDs p) (received a sent)) = Some (st1, ds @ replicate k ?eof)"
    using stream assms(10) by simp
  from recv_all_stream [OF conjunct1 [OF stream] assms(5) this ht, of b e fl]
  have "to_target b (fst (snd (recv_all middle e fl (received a sent) p)))
      = out_stream e 1 bs b (0, False) (ds @ replicate k ?eof)"
    using assms(7-9) by simp
  also have "\<dots> = repeated (map (\<lambda>t. fst (sends e b (as_tuple t))) ?D) (map as_tuple ?D) @ [as_tuple ?eof]"
    using out_stream_data [OF assms(12), of e 1 bs b "(0, False)"]
      out_stream_markers [OF eof(1) assms(11), of e bs b] count_list_up [of bs b e] assms(6,15,16)
    by (simp add: out_stream_append)
  finally have outs: "to_target b (fst (snd (recv_all middle e fl (received a sent) p)))
      = repeated (map (\<lambda>t. fst (sends e b (as_tuple t))) ?D) (map as_tuple ?D) @ [as_tuple ?eof]" .
  have fresh: "fresh_tuples (ProcessedIDs q) (to_target b (fst (snd (recv_all middle e fl (received a sent) p))))
      = map as_tuple ?D @ [as_tuple ?eof]"
    unfolding outs
  proof (rule fresh_repeated)
    show "list_all (\<lambda>k. 0 < k) (map (\<lambda>t. fst (sends e b (as_tuple t))) ?D)"
      using assms(14) send_attempts_ok by (auto simp: list_all_iff sends_def)
    show "list_all (\<lambda>t. \<not> IsEOF t) (map as_tuple ?D)"
      using assms(12) by (auto simp: list_all_iff for_target_def)
    show "distinct (map TupleID (map as_tuple ?D))" using assms(19) by (simp add: comp_def)
    show "TupleID ` set (map as_tuple ?D) \<inter> set (ProcessedIDs q) = {}"
      using assms(20) by (auto simp: image_iff)
    show "list_all (\<lambda>u. IsEOF u \<and> TupleID u \<notin> set (ProcessedIDs q) \<union> TupleID ` set (map as_tuple ?D)) [as_tuple ?eof]"
      using assms(20,21) eof by (auto simp: image_iff)
  qed simp
  have sub: "set (repeated js xs) \<subseteq> set xs" for js and xs :: "Tuple list"
    by (induction js xs rule: repeated.induct) auto
  have "\<forall>t \<in> set (map as_tuple ?D) \<union> {as_tuple ?eof}. data_tuple t" by auto
  then have data: "list_all data_tuple (to_target b (fst (snd (recv_all middle e fl (received a sent) p))))"
    using sub unfolding outs list_all_iff by fastforce
  show ?thesis
    using sink_run [OF data assms(17,18), of last_op st2 em] fresh assms(22) by simp
qed

section \<open>The job that greps and counts\<close>

text \<open>The number of lines that match and have the word in the column.\<close>

definition line_count :: "(string \<Rightarrow> bool) \<Rightarrow> int \<Rightarrow> string list \<Rightarrow> string \<Rightarrow> nat" where
  "line_count matches col ls word = length (filter (\<lambda>l. matches l \<and> column_key col l = word) ls)"

definition grep_rows :: "GrepOp \<Rightarrow> Tuple list \<Rightarrow> Tuple list" where
  "grep_rows g ts = concat (map (grep_row (Pattern g) (ColumnNum g)) ts)"

lemma grep_run_markers:
  assumes "IsEOF t"
  shows "\<exists>g'. op_run (GrepOpWrapper compile pf cf args) (Some g) (replicate k t) = Some (Some g', replicate k t)"
proof (induction k arbitrary: g)
  case (Suc k)
  obtain g' where "op_run (GrepOpWrapper compile pf cf args) (Some (g\<lparr>EofForwarded := True\<rparr>)) (replicate k t)
      = Some (Some g', replicate k t)"
    using Suc.IH by blast
  then show ?case using assms by (simp add: grep_wrapper_step GrepOp_Process_def)
qed simp

lemma grep_job_run:
  assumes "grep_setup compile pf cf args = Some g" and "list_all (\<lambda>t. \<not> IsEOF t) ts" and "IsEOF t" and "0 < k"
  shows "\<exists>g'. op_run (GrepOpWrapper compile pf cf args) None (ts @ replicate k t)
    = Some (Some g', grep_rows g ts @ replicate k t)"
proof -
  have "ts @ replicate k t \<noteq> []" using assms(4) by simp
  from grep_first [OF this assms(1)]
  have first: "op_run (GrepOpWrapper compile pf cf args) None (ts @ replicate k t)
      = op_run (GrepOpWrapper compile pf cf args) (Some g) (ts @ replicate k t)" .
  obtain g1 where "op_run (GrepOpWrapper compile pf cf args) (Some g) ts = Some (Some g1, grep_rows g ts)"
    using grep_run [OF assms(2)] unfolding grep_rows_def by blast
  moreover obtain g2 where "op_run (GrepOpWrapper compile pf cf args) (Some g1) (replicate k t) = Some (Some g2, replicate k t)"
    using grep_run_markers [OF assms(3)] by blast
  ultimately have "op_run (GrepOpWrapper compile pf cf args) (Some g) (ts @ replicate k t)
      = Some (Some g2, grep_rows g ts @ replicate k t)"
    by (simp add: op_run_append)
  then show ?thesis using first by simp
qed

lemma grep_rows_ids: "map TupleID (grep_rows g ts) = map TupleID (filter (\<lambda>t. Pattern g (Value t)) ts)"
  by (induction ts) (simp_all add: grep_rows_def grep_row_def)

lemma grep_rows_plain: "list_all (\<lambda>t. \<not> IsEOF t) ts \<Longrightarrow> list_all (\<lambda>t. \<not> IsEOF t) (grep_rows g ts)"
  by (auto simp: grep_rows_def list_all_iff grep_row_def)

lemma grep_rows_words:
  "0 < ColumnNum g \<Longrightarrow> Key ` set (grep_rows g ts)
     = column_key (ColumnNum g) ` {l \<in> set (map Value ts). Pattern g l}"
  unfolding grep_rows_def using grep_rows_keys [of "ColumnNum g" "Pattern g" ts] by auto

lemma count_for_target:
  "pick_target w bs = Some b \<Longrightarrow> count_list (map Key (for_target bs b ds)) w = count_list (map Key ds) w"
  by (induction ds) (auto simp: for_target_def)

lemma group_line_count: "group_count matches col ts w = line_count matches col (map Value ts) w"
  by (induction ts) (auto simp: group_count_def line_count_def)

text \<open>
  C3. The job that greps a column and counts its values is right, over connections that break
  on every hop: a source task reads its part of a file, a grep task sends the matching lines
  to the count tasks by the hash of the column, and everything is acknowledged in the end,
  after any number of lost acknowledgements and retransmissions. Then every count task has
  printed, for each value of the column in a matching line that hashes to it, one line with
  the exact number of matching lines that have the value, and nothing else.
\<close>

theorem grep_count_job:
  assumes "runSourceTask (Some content) dials tries eofUp task targets = (sent, SourceDone n, reports)"
    and "n = length (source_tuples task content)" and "fst ` set sent \<subseteq> {a}" and "filter IsEOF (received a sent) \<noteq> []"
    and "grep_setup compile patternFlag columnFlag args = Some g" and "0 < ColumnNum g"
    and "p = start_operation fl resp None" and "ProcessedIDs p = []" and "FlNumSources fl = 1"
    and "TargetList p = bs" and "bs \<noteq> []" and "distinct bs"
    and "\<forall>l \<in> set (map Value (source_tuples task content)).
           Pattern g l \<longrightarrow> pick_target (column_key (ColumnNum g) l) bs \<noteq> None"
    and "\<And>t. snd (sends e b t)" and "b \<in> set bs" and "OpUp e b"
    and "q = start_operation fl' resp' None" and "ProcessedIDs q = []" and "FlTargets fl' = []"
  shows "\<exists>words. distinct words
    \<and> set words = {w \<in> column_key (ColumnNum g) ` {l \<in> set (map Value (source_tuples task content)). Pattern g l}.
        pick_target w bs = Some b}
    \<and> Printed (fst (recv_all CountOpWrapper e' fl' (to_target b (fst (snd
          (recv_all (GrepOpWrapper compile patternFlag columnFlag args) e fl (received a sent) p)))) q))
      = map (\<lambda>w. w @ '','' @ dec (line_count (Pattern g) (ColumnNum g) (map Value (source_tuples task content)) w)) words"
proof -
  let ?ts = "source_tuples task content" and ?eof = "source_eof task"
  let ?ds = "grep_rows g ?ts" and ?D = "for_target bs b (grep_rows g ?ts)"
  have plain: "list_all (\<lambda>t. \<not> IsEOF t) ?ts" using source_tuples_plain [of task content] by (simp add: list_all_iff)
  have eof: "IsEOF ?eof" by (simp add: source_eof_def)
  have seen: "\<forall>t \<in> insert ?eof (set ?ts). TupleID t \<notin> set (ProcessedIDs p)" using assms(8) by simp
  obtain k where k: "filter IsEOF (received a sent) = replicate k ?eof" "0 < k"
    using source_stream [OF assms(1-3) seen] assms(4) by fastforce
  obtain st1 where run: "op_run (GrepOpWrapper compile patternFlag columnFlag args) (OpState p)
      (?ts @ filter IsEOF (received a sent)) = Some (st1, ?ds @ replicate k ?eof)"
    using grep_job_run [OF assms(5) plain eof k(2)] assms(7) k(1) by (auto simp: start_operation_def Let_def)
  have start_p: "sending bs p" "EofCount p = 0" "\<not> EofBroadcast p"
    using assms(7,10,11) by (simp_all add: sending_def start_operation_def Let_def)
  have start_q: "TargetList q = []" "\<not> Crashed q" "Printed q = []" "OpState q = None"
    using assms(17,19) by (simp_all add: start_operation_def Let_def)
  have ids: "TupleID ` set ?D \<subseteq> TupleID ` set ?ts"
  proof -
    have "set (map TupleID ?ds) \<subseteq> set (map TupleID ?ts)" unfolding grep_rows_ids by auto
    then show ?thesis by (auto simp: for_target_def)
  qed
  have dist: "distinct (map TupleID ?D)"
  proof -
    have "distinct (map TupleID ?ds)"
      unfolding grep_rows_ids by (intro distinct_map_filter source_tuples_distinct)
    then show ?thesis unfolding for_target_def by (rule distinct_map_filter)
  qed
  have keys: "Key ` set ?ds = column_key (ColumnNum g) ` {l \<in> set (map Value ?ts). Pattern g l}"
    by (rule grep_rows_words [OF assms(6)])
  have ht: "list_all (has_target bs) ?ds"
    using keys assms(13) by (force simp: list_all_iff has_target_def)
  have "list_all (\<lambda>t. \<not> IsEOF t) (map as_tuple ?D)"
    using grep_rows_plain [OF plain, of g] by (auto simp: list_all_iff for_target_def)
  from count_report [OF this, of "as_tuple ?eof" "[]"] eof
  obtain words where w: "distinct words" "set words = Key ` set ?D"
    and out: "map_option snd (op_run CountOpWrapper None (map as_tuple ?D @ [as_tuple ?eof]))
      = Some (map (\<lambda>w. count_tuple w (int (count_list (map Key ?D) w))) words @ [as_tuple ?eof])"
    by (auto simp: image_image comp_def)
  then obtain st2 where fin: "op_run CountOpWrapper (OpState q) (map as_tuple ?D @ [as_tuple ?eof])
      = Some (st2, map (\<lambda>w. count_tuple w (int (count_list (map Key ?D) w))) words @ [as_tuple ?eof])"
    using start_q(4) by auto
  have acks: "list_all (\<lambda>t. snd (sends e b (as_tuple t))) ?D" using assms(14) by (simp add: list_all_iff)
  have apart: "insert (TupleID ?eof) (TupleID ` set ?D) \<inter> set (ProcessedIDs q) = {}"
    "TupleID ?eof \<notin> TupleID ` set ?D"
    using assms(18) ids source_eof_apart [of task content] by auto
  have shown: "map Value (filter (\<lambda>t. \<not> IsEOF t)
      (map (\<lambda>w. count_tuple w (int (count_list (map Key ?D) w))) words @ [as_tuple ?eof]))
      = map (\<lambda>w. w @ '','' @ dec (count_list (map Key ?D) w)) words"
    using eof by (simp add: comp_def count_tuple_def new_tuple_def dec_int_def)
  have "Printed (fst (recv_all CountOpWrapper e' fl' (to_target b (fst (snd
          (recv_all (GrepOpWrapper compile patternFlag columnFlag args) e fl (received a sent) p)))) q))
      = map (\<lambda>w. w @ '','' @ dec (count_list (map Key ?D) w)) words"
    unfolding pipeline_exactly_once [OF assms(1-3) seen start_p(1) assms(12) start_p(2,3) assms(9) run k(2)
        grep_rows_plain [OF plain] ht acks assms(15,16) start_q(1,2) dist apart fin, of e' fl'] shown start_q(3)
    by simp
  moreover have in_words: "set words = {w \<in> column_key (ColumnNum g) ` {l \<in> set (map Value ?ts). Pattern g l}.
        pick_target w bs = Some b}"
  proof -
    have "Key ` set ?D = {w \<in> Key ` set ?ds. pick_target w bs = Some b}" by (auto simp: for_target_def)
    then show ?thesis unfolding w(2) keys .
  qed
  moreover have "count_list (map Key ?D) w = line_count (Pattern g) (ColumnNum g) (map Value ?ts) w" if "w \<in> set words" for w
    using that count_for_target [of w bs b ?ds] grep_rows_count [OF assms(6), of "Pattern g" ?ts w]
    unfolding in_words by (simp add: grep_rows_def group_line_count)
  ultimately show ?thesis using w(1) by (intro exI [of _ words]) simp
qed

definition sample_op_env :: op_env where
  "sample_op_env = \<lparr>OpTries = \<lambda>a t. [AckError, EncodeError, AckGood], OpUp = \<lambda>a. True\<rparr>"

definition sample_middle :: OpFlags where
  "sample_middle = sample_flags\<lparr>FlTargets := ''vm3:10005'', FlNumSources := 1\<rparr>"

lemma sample_lines:
  "map Value (source_tuples sample_source ''w,red\<newline>x,red\<newline>w,red'') = [''w,red'', ''x,red'', ''w,red'']"
  "length (source_tuples sample_source ''w,red\<newline>x,red\<newline>w,red'') = 3"
  by (simp_all add: source_tuples_def source_lines_def sample_source_def zero_task_def trim_space_plain
      is_ascii_def is_space_def upt_rec go_rem_nonneg source_tuple_def
      numeral_3_eq_3 del: One_nat_def)

theorem grep_count_job_witness:
  "let compile = (\<lambda>p. Some (prefix p));
       sent = fst (runSourceTask (Some ''w,red\<newline>x,red\<newline>w,red'') (\<lambda>a. True) sample_tries (\<lambda>a. True) sample_source [''vm2:10004'']);
       middle = recv_all (GrepOpWrapper compile [] 0 [''w'', ''2'']) sample_op_env sample_middle
                  (received ''vm2:10004'' sent) (start_operation sample_middle None None)
   in Printed (fst (recv_all CountOpWrapper sample_op_env sample_flags (to_target ''vm3:10005'' (fst (snd middle)))
        (start_operation sample_flags None None))) = [''red,2'']"
proof -
  let ?c = "''w,red\<newline>x,red\<newline>w,red''"
  let ?run = "runSourceTask (Some ?c) (\<lambda>a. True) sample_tries (\<lambda>a. True) sample_source [''vm2:10004'']"
  let ?g = "\<lparr>Pattern = prefix ''w'', MatchCount = 0, FilterCount = 0, ColumnNum = 2, EofForwarded = False\<rparr>"
  let ?p = "start_operation sample_middle None None :: GrepOp option OpProc"
  let ?q = "start_operation sample_flags None None :: CountOp option OpProc"
  obtain t1 t2 t3 where ts: "source_tuples sample_source ?c = [t1, t2, t3]"
    using sample_lines(2) by (auto simp: length_Suc_conv numeral_3_eq_3)
  have run: "?run = (fst ?run, SourceDone 3, snd (snd ?run))"
    and at: "fst ` set (fst ?run) \<subseteq> {''vm2:10004''}"
    and marks: "filter IsEOF (received ''vm2:10004'' (fst ?run)) \<noteq> []"
    by (simp_all add: runSourceTask_def ts deliver_tuple_def pick_single sample_tries_def src_reconnect_def
        src_add_def src_drop_def received_def source_eof_def)
  have g: "grep_setup (\<lambda>p. Some (prefix p)) [] 0 [''w'', ''2''] = Some ?g"
    by (simp add: grep_setup_def) code_simp
  have p: "ProcessedIDs ?p = []" "TargetList ?p = [''vm3:10005'']" "ProcessedIDs ?q = []"
    "FlNumSources sample_middle = 1" "FlTargets sample_flags = []"
    by (simp_all add: start_operation_def sample_middle_def sample_flags_def Let_def fetchStateFromHyDFS_def)
  have up: "snd (sends sample_op_env ''vm3:10005'' t)" "OpUp sample_op_env ''vm3:10005''" for t
    by (simp_all add: sends_def sample_op_env_def)
  let ?L = "[''w,red'', ''x,red'', ''w,red'']"
  have "column_key 2 ''w,red'' = ''red''" by code_simp
  moreover have "{l \<in> set ?L. Pattern ?g l} = {''w,red''}" by auto
  ultimately have red: "{w \<in> column_key (ColumnNum ?g) ` {l \<in> set ?L. Pattern ?g l}.
      pick_target w [''vm3:10005''] = Some ''vm3:10005''} = {''red''}"
    and two: "line_count (Pattern ?g) (ColumnNum ?g) ?L ''red'' = 2"
    by (simp_all add: pick_single line_count_def)
  obtain words where w: "distinct words" "set words = {''red''}"
    and out: "Printed (fst (recv_all CountOpWrapper sample_op_env sample_flags (to_target ''vm3:10005'' (fst (snd
          (recv_all (GrepOpWrapper (\<lambda>p. Some (prefix p)) [] 0 [''w'', ''2'']) sample_op_env sample_middle
            (received ''vm2:10004'' (fst ?run)) ?p)))) ?q))
      = map (\<lambda>w. w @ '','' @ dec (line_count (Pattern ?g) (ColumnNum ?g) ?L w)) words"
    using grep_count_job [OF run _ at marks g _ refl p(1) p(4) p(2) _ _ _ up(1) _ up(2) refl p(3,5),
        of sample_op_env]
    unfolding red sample_lines by (auto simp: pick_single)
  have "length words = 1" using distinct_card [OF w(1)] w(2) by simp
  then have "words = [''red'']" using w(2) by (cases words) simp_all
  moreover have "dec 2 = ''2''" by code_simp
  ultimately show ?thesis using out two unfolding Let_def by simp
qed

end
