(* ===== verification/Rs_Startup.thy ===== *)
theory Rs_Startup
  imports Rs_Delivery Client_Commands
begin

text \<open>
  What surrounds the stream: how an operator process connects to its targets before it listens
  (\<open>StartOperation\<close> in \<open>pkg/rainstorm/api.go\<close>), the metrics it reports every second, the totals
  that the leader makes of them, the new server, and the file that a job creates in HyDFS
  (\<open>createHyDFSFile\<close> in \<open>pkg/rainstorm/leader.go\<close>).

  \<^item> \<open>dial a t\<close> is what dialling \<open>a\<close> at the time \<open>t\<close> takes and whether it succeeds. Times are in
    nanoseconds.
  \<^item> A target is dialled at most ten times; the tenth failure ends the process.
\<close>

section \<open>Connecting to the targets\<close>

type_synonym dialer = "string \<Rightarrow> int \<Rightarrow> int \<times> bool"

definition backoff :: "nat \<Rightarrow> int" where
  "backoff attempt = (if attempt < 10 then int attempt * 500 * 1000000 else 0)"

function connect_target :: "dialer \<Rightarrow> string \<Rightarrow> nat \<Rightarrow> int \<Rightarrow> int \<times> bool" where
  "connect_target dial target attempt now =
     (if attempt > 10 then (now, False)
      else case dial target now of
        (took, True) \<Rightarrow> (now + took, True)
      | (took, False) \<Rightarrow> connect_target dial target (attempt + 1) (now + took + backoff attempt))"
  by pat_completeness auto
termination by (relation "measure (\<lambda>(_, _, attempt, _). 11 - attempt)") auto

declare connect_target.simps [simp del]

datatype startup = Listening int | NoTarget string | NoPort

fun connect_targets :: "dialer \<Rightarrow> string list \<Rightarrow> int \<Rightarrow> string + int" where
  "connect_targets dial [] now = Inr now"
| "connect_targets dial (target # targets) now =
     (case connect_target dial target 1 now of
        (t, False) \<Rightarrow> Inl target
      | (t, True) \<Rightarrow> connect_targets dial targets t)"

text \<open>\<open>canListen\<close>: the port is free. The listener is opened when every target is connected.\<close>

definition operator_listens :: "dialer \<Rightarrow> bool \<Rightarrow> string list \<Rightarrow> int \<Rightarrow> startup" where
  "operator_listens dial canListen targets start =
     (case connect_targets dial targets (start + 2 * 1000000000) of
        Inl target \<Rightarrow> NoTarget target
      | Inr now \<Rightarrow> if canListen then Listening now else NoPort)"

text \<open>
  The whole start, from the flags to the listener: the process and the time at which it accepts
  its first connection, or what ends it before. \<open>resp\<close> is the answer to the fetch of the state
  log, \<open>loaded\<close> the time at which it is there, and \<open>canOpen\<close> tells whether the output file of a
  sink can be created.
\<close>

datatype start_error = PortRequired | CannotOpenOutput string | CannotConnect string | CannotListen

definition start_process ::
  "dialer \<Rightarrow> (string \<Rightarrow> bool) \<Rightarrow> bool \<Rightarrow> OpFlags \<Rightarrow> NodeMessage option \<Rightarrow> int \<Rightarrow> 'st \<Rightarrow> start_error + 'st OpProc \<times> int" where
  "start_process dial canOpen canListen fl resp loaded init =
     (if FlPort fl = 0 then Inl PortRequired
      else
        let p = start_operation fl resp init in
        if TargetList p = [] \<and> FlOutput fl \<noteq> [] \<and> \<not> canOpen (FlOutput fl) then Inl (CannotOpenOutput (FlOutput fl))
        else case operator_listens dial canListen (TargetList p) loaded of
          NoTarget target \<Rightarrow> Inl (CannotConnect target)
        | NoPort \<Rightarrow> Inl CannotListen
        | Listening now \<Rightarrow> Inr (p, now))"

definition metrics_task_id :: "OpFlags \<Rightarrow> string" where
  "metrics_task_id fl = (if FlTaskID fl \<noteq> [] then FlTaskID fl else ''task-port'' @ dec_int (FlPort fl))"

lemma connect_targets_error: "connect_targets dial targets now = Inl target \<Longrightarrow> target \<in> set targets"
  by (induction dial targets now rule: connect_targets.induct) (auto split: prod.splits bool.splits)

text \<open>Every way in which a start can fail, and what a process has when it does not.\<close>

lemma start_process_cases:
  assumes "r = start_process dial canOpen canListen fl resp loaded init"
  shows "r = Inl PortRequired \<and> FlPort fl = 0
    \<or> r = Inl (CannotOpenOutput (FlOutput fl)) \<and> FlTargets fl = [] \<and> FlOutput fl \<noteq> []
    \<or> (\<exists>target \<in> set (split_on (CHR '','') (FlTargets fl)). r = Inl (CannotConnect target) \<and> FlTargets fl \<noteq> [])
    \<or> r = Inl CannotListen \<and> \<not> canListen
    \<or> (\<exists>now. r = Inr (start_operation fl resp init, now) \<and> FlPort fl \<noteq> 0 \<and> canListen
        \<and> connect_targets dial (TargetList (start_operation fl resp init)) (loaded + 2000000000) = Inr now)"
  using connect_targets_error [of dial "split_on (CHR '','') (FlTargets fl)" "loaded + 2000000000"]
  by (auto simp: assms start_process_def operator_listens_def start_operation_def Let_def
      split: sum.splits startup.splits if_splits)

text \<open>
  Targets that refuse at once while they do not listen yet, and accept from then on. \<open>opens\<close>
  tells since when a target listens.
\<close>

definition accepting :: "(string, int) gomap \<Rightarrow> dialer" where
  "accepting opens target t = (0, case map_of opens target of None \<Rightarrow> False | Some o1 \<Rightarrow> o1 \<le> t)"

text \<open>A target that listens within 22.5 seconds of the first attempt is reached, at most 4.5
  seconds after it began to listen.\<close>

lemma connect_accepting:
  assumes "map_of opens a = Some o1" and "1 \<le> n" and "n \<le> 10"
    and "o1 \<le> now + (\<Sum>i = n..<10. backoff i)"
  shows "\<exists>t. connect_target (accepting opens) a n now = (t, True) \<and> now \<le> t \<and> o1 \<le> t
    \<and> t \<le> max now (o1 + 4500 * 1000000)"
  using assms(2-4)
proof (induction "10 - n" arbitrary: n now)
  case 0
  then have "n = 10" by simp
  then show ?case using 0 assms(1) by (subst connect_target.simps) (simp add: accepting_def)
next
  case (Suc k)
  show ?case
  proof (cases "o1 \<le> now")
    case True
    then show ?thesis using Suc.prems assms(1) by (subst connect_target.simps) (simp add: accepting_def)
  next
    case False
    have n: "n < 10" using Suc.hyps(2) by simp
    then have step: "(\<Sum>i = n..<10. backoff i) = backoff n + (\<Sum>i = n + 1..<10. backoff i)"
      by (simp add: sum.atLeast_Suc_lessThan)
    have b: "0 \<le> backoff n" "backoff n \<le> 4500 * 1000000" using n by (auto simp: backoff_def)
    obtain t where t: "connect_target (accepting opens) a (n + 1) (now + backoff n) = (t, True)"
      "now + backoff n \<le> t" "o1 \<le> t" "t \<le> max (now + backoff n) (o1 + 4500 * 1000000)"
      using Suc.hyps(1) [of "n + 1" "now + backoff n"] Suc.hyps(2) Suc.prems(3) step n
      by (metis Suc_eq_plus1 Suc_leI add.assoc diff_Suc_1 diff_Suc_eq_diff_pred diff_diff_left le_add2)
    have "connect_target (accepting opens) a n now = (t, True)"
      using t(1) False n assms(1) by (subst connect_target.simps) (simp add: accepting_def)
    then show ?thesis using t(2-4) b False by (intro exI [of _ t]) simp
  qed
qed

lemma backoff_total: "(\<Sum>i = 1..<10. backoff i) = 22500 * 1000000"
  by (simp add: backoff_def sum.atLeast_Suc_lessThan)

lemma connect_targets_accepting:
  assumes "\<forall>a \<in> set as. \<exists>o1. map_of opens a = Some o1 \<and> o1 \<le> now + 22500 * 1000000 \<and> o1 + 4500 * 1000000 \<le> bound"
    and "now \<le> bound"
  shows "\<exists>t. connect_targets (accepting opens) as now = Inr t \<and> now \<le> t \<and> t \<le> bound"
  using assms
proof (induction as arbitrary: now)
  case (Cons a as)
  obtain o1 where o1: "map_of opens a = Some o1" "o1 \<le> now + 22500 * 1000000" "o1 + 4500 * 1000000 \<le> bound"
    using Cons.prems(1) by auto
  obtain t where t: "connect_target (accepting opens) a 1 now = (t, True)" "now \<le> t"
    "t \<le> max now (o1 + 4500 * 1000000)"
    using connect_accepting [OF o1(1), of 1 now] o1(2) unfolding backoff_total by auto
  have "t \<le> bound" using t(3) o1(3) Cons.prems(2) by simp
  moreover have "\<forall>a \<in> set as. \<exists>o1. map_of opens a = Some o1 \<and> o1 \<le> t + 22500 * 1000000
      \<and> o1 + 4500 * 1000000 \<le> bound"
    using Cons.prems(1) t(2) by fastforce
  ultimately obtain t' where "connect_targets (accepting opens) as t = Inr t'" "t \<le> t'" "t' \<le> bound"
    using Cons.IH by blast
  then show ?case using t(1,2) by auto
qed simp

section \<open>The start of a whole job\<close>

text \<open>
  The tasks of the stages, with the address and the time each is started at: a task has the
  tasks of the next stage for targets. The result is the time at which each task of the first
  of these stages begins to listen, or \<open>None\<close> if a task ends before it does.
\<close>

fun stages_listen :: "(string \<times> int) list list \<Rightarrow> (string, int) gomap option" where
  "stages_listen [] = Some []"
| "stages_listen (stage # stages) =
     (case stages_listen stages of
        None \<Rightarrow> None
      | Some opens \<Rightarrow>
          those (map (\<lambda>(a, start).
            case operator_listens (accepting opens) True (map fst opens) start of
              Listening t \<Rightarrow> Some (a, t) | _ \<Rightarrow> None) stage))"

lemma those_all:
  "list_all (\<lambda>x. \<exists>y. f x = Some y \<and> P x y) xs \<Longrightarrow>
   \<exists>ys. those (map f xs) = Some ys \<and> list_all2 P xs ys"
  by (induction xs) auto

lemma listening_span:
  assumes "list_all2 (\<lambda>(a, start) (a', t). a' = a \<and> start + lo \<le> t \<and> t \<le> hi) stage ys"
  shows "map fst ys = map fst stage \<and> (\<forall>(a, t) \<in> set ys. t \<le> hi)"
  using assms by (induction rule: list_all2_induct) auto

lemma stage_listens:
  assumes "\<forall>(a, t) \<in> set opens. t \<le> hi" and "hi \<le> s0 + 24500 * 1000000"
    and "\<forall>(a, start) \<in> set stage. s0 \<le> start \<and> start + 2000 * 1000000 \<le> bound" and "hi + 4500 * 1000000 \<le> bound"
  shows "\<exists>ys. those (map (\<lambda>(a, start).
        case operator_listens (accepting opens) True (map fst opens) start of
          Listening t \<Rightarrow> Some (a, t) | _ \<Rightarrow> None) stage) = Some ys
    \<and> list_all2 (\<lambda>(a, start) (a', t). a' = a \<and> start + 2000 * 1000000 \<le> t \<and> t \<le> bound) stage ys"
proof (rule those_all)
  have one: "\<exists>t. operator_listens (accepting opens) True (map fst opens) start = Listening t
      \<and> start + 2000 * 1000000 \<le> t \<and> t \<le> bound" if "(a, start) \<in> set stage" for a start
  proof -
    have s: "s0 \<le> start" "start + 2000 * 1000000 \<le> bound" using assms(3) that by auto
    have "\<exists>o1. map_of opens x = Some o1 \<and> o1 \<le> start + 2 * 1000000000 + 22500 * 1000000
        \<and> o1 + 4500 * 1000000 \<le> bound" if x: "x \<in> set (map fst opens)" for x
    proof -
      obtain o1 where o1: "map_of opens x = Some o1" using x by (cases "map_of opens x") (auto simp: map_of_eq_None_iff)
      then have "o1 \<le> hi" using assms(1) by (auto dest: map_of_SomeD)
      then show ?thesis using o1 assms(2,4) s(1) by auto
    qed
    then show ?thesis using connect_targets_accepting [of "map fst opens" opens "start + 2 * 1000000000" bound] s(2)
      by (auto simp: operator_listens_def)
  qed
  show "list_all (\<lambda>x. \<exists>y. (case x of (a, start) \<Rightarrow>
        case operator_listens (accepting opens) True (map fst opens) start of
          Listening t \<Rightarrow> Some (a, t) | _ \<Rightarrow> None) = Some y
      \<and> (case x of (a, start) \<Rightarrow> \<lambda>(a', t). a' = a \<and> start + 2000 * 1000000 \<le> t \<and> t \<le> bound) y) stage"
    unfolding list_all_iff using one by fastforce
qed



section \<open>Metrics\<close>

text \<open>One sample for every tick: the time in seconds and the count at that moment.\<close>

fun metric_ticks :: "string \<Rightarrow> int \<Rightarrow> (int \<times> int) list \<Rightarrow> TaskMetrics list" where
  "metric_ticks taskID lastCount [] = []"
| "metric_ticks taskID lastCount ((now, currentCount) # ticks) =
     \<lparr>TmTaskID = taskID, TuplesProcessed = currentCount,
      CurrentRate = of_int (currentCount - lastCount), TmTimestamp = now\<rparr>
     # metric_ticks taskID currentCount ticks"

text \<open>The rates add up to the growth of the count: no tuple is in two samples or in none.\<close>

lemma metric_ticks_sum:
  "sum_list (map CurrentRate (metric_ticks taskID c ticks)) = of_int (last (c # map snd ticks) - c)"
  by (induction taskID c ticks rule: metric_ticks.induct) auto

text \<open>The samples of a source task, until its stop channel is closed.\<close>

datatype sample_event = SampleTick int int | SampleStop

fun reportSourceMetrics :: "Task \<Rightarrow> int \<Rightarrow> sample_event list \<Rightarrow> TaskMetrics list" where
  "reportSourceMetrics task lastCount [] = []"
| "reportSourceMetrics task lastCount (SampleStop # evs) = []"
| "reportSourceMetrics task lastCount (SampleTick now currentCount # evs) =
     \<lparr>TmTaskID = TkID task, TuplesProcessed = currentCount,
      CurrentRate = of_int (currentCount - lastCount), TmTimestamp = now\<rparr>
     # reportSourceMetrics task currentCount evs"

definition sendMetricsToLeaderFromAPI :: "rs_env \<Rightarrow> string \<Rightarrow> TaskMetrics \<Rightarrow> Server \<Rightarrow> Server" where
  "sendMetricsToLeaderFromAPI e leaderAddr metrics leader =
     (if RsUp e leaderAddr then HandleTaskMetrics metrics leader else leader)"

text \<open>A source and an operator sample alike.\<close>

lemma source_samples:
  "reportSourceMetrics task c evs
   = metric_ticks (TkID task) c (map (\<lambda>ev. case ev of SampleTick now n \<Rightarrow> (now, n) | SampleStop \<Rightarrow> (0, 0))
       (takeWhile (\<lambda>ev. ev \<noteq> SampleStop) evs))"
  by (induction task c evs rule: reportSourceMetrics.induct) simp_all

text \<open>On the leader's own node the newest sample stays, in whatever order they are handled.\<close>

lemma local_samples_newest:
  assumes "Role w = ''leader''" and "map_of (TaskMetricsMap s) i = Some x0" and "TmTaskID x0 = i"
    and "\<forall>x \<in> set xs. TmTaskID x = i"
  shows "\<exists>x \<in> set (x0 # xs). map_of (TaskMetricsMap (fold (sendMetricsToLeader e w) xs s)) i = Some x
    \<and> (\<forall>y \<in> set (x0 # xs). TmTimestamp y \<le> TmTimestamp x)"
  using assms(2-4)
proof (induction xs arbitrary: s x0)
  case (Cons x xs)
  have x: "TmTaskID x = i" using Cons.prems(3) by simp
  show ?case
  proof (cases "TmTimestamp x > TmTimestamp x0")
    case True
    then have "map_of (TaskMetricsMap (sendMetricsToLeader e w x s)) i = Some x"
      using assms(1) Cons.prems(1) x by (simp add: sendMetricsToLeader_def HandleTaskMetrics_def update_conv')
    from Cons.IH [OF this x] True Cons.prems(3) show ?thesis by force
  next
    case False
    then have "sendMetricsToLeader e w x s = s"
      using assms(1) Cons.prems(1) x by (simp add: sendMetricsToLeader_def)
    then show ?thesis using Cons.IH [OF Cons.prems(1,2)] False Cons.prems(3) by force
  qed
qed simp

text \<open>
  The address of the leader: the flag, or the host of the HyDFS leader with port 8002.
  \<open>split_host_port\<close> is \<open>net.SplitHostPort\<close>, \<open>None\<close> for an error.
\<close>

definition split_host_port :: "string \<Rightarrow> (string \<times> string) option" where
  "split_host_port hp =
     (let port = rev (takeWhile (\<lambda>c. c \<noteq> CHR '':'') (rev hp));
          before = take (length hp - length port - 1) hp in
      if CHR '':'' \<notin> set hp then None
      else if prefix ''['' hp then
        (if last (CHR ''['' # before) \<noteq> CHR '']'' then None
         else let host = butlast (tl before) in
           if CHR ''['' \<in> set host \<or> CHR '']'' \<in> set host \<or> CHR ''['' \<in> set port \<or> CHR '']'' \<in> set port
           then None else Some (host, port))
      else if CHR '':'' \<in> set before \<or> CHR ''['' \<in> set hp \<or> CHR '']'' \<in> set hp then None
      else Some (before, port))"

definition report_address :: "string \<Rightarrow> string \<Rightarrow> string" where
  "report_address rainstormLeader hydfsLeader =
     (if rainstormLeader \<noteq> [] then rainstormLeader
      else if hydfsLeader \<noteq> [] then
        (case split_host_port hydfsLeader of
           Some (host, port) \<Rightarrow> if host \<noteq> [] then join_host_port host 8002 else []
         | None \<Rightarrow> [])
      else [])"

text \<open>
  The totals of the stages, as the leader logs them: the rates, the number of tasks with
  samples and their tuples.
\<close>

definition stage_metrics :: "Server \<Rightarrow> (int, TaskMetrics list) gomap" where
  "stage_metrics s =
     fold (\<lambda>(taskID, metrics) g.
       case map_of (AllTasks s) taskID of
         None \<Rightarrow> g
       | Some task \<Rightarrow> AList.update (StageID task) (go_get [] g (StageID task) @ [metrics]) g)
       (TaskMetricsMap s) []"

definition stage_totals :: "Server \<Rightarrow> (int \<times> rat \<times> nat \<times> int) list" where
  "stage_totals s =
     map (\<lambda>(stageID, ms). (stageID, sum_list (map CurrentRate ms), length ms, sum_list (map TuplesProcessed ms)))
       (filter (\<lambda>(stageID, ms). ms \<noteq> []) (stage_metrics s))"


text \<open>The operators find the metrics port of the leader from the address they are given.\<close>

lemma no_colon_digits: "CHR '':'' \<notin> set (dec_int p)" "CHR ''['' \<notin> set (dec_int p)" "CHR '']'' \<notin> set (dec_int p)"
proof -
  have "c \<notin> set (dec_int p)" if "\<not> is_digit c" "c \<noteq> CHR ''-''" for c
    using that dec_digits by (auto simp: dec_int_def)
  then show "CHR '':'' \<notin> set (dec_int p)" "CHR ''['' \<notin> set (dec_int p)" "CHR '']'' \<notin> set (dec_int p)"
    by (simp_all add: is_digit_def)
qed

lemma split_join_host_port:
  assumes "plain_host h" and "CHR ''['' \<notin> set h" and "CHR '']'' \<notin> set h"
  shows "split_host_port (join_host_port h p) = Some (h, dec_int p)"
proof -
  have tw: "takeWhile (\<lambda>c. c \<noteq> CHR '':'') (rev (dec_int p) @ CHR '':'' # rev h) = rev (dec_int p)"
    using no_colon_digits(1) by (subst takeWhile_append2) (auto simp: in_set_conv_decomp)
  have np: "\<not> prefix ''['' (h @ CHR '':'' # dec_int p)" using assms(2) by (cases h) auto
  show ?thesis
    using assms no_colon_digits np
    by (simp add: split_host_port_def join_host_port_plain Let_def tw plain_host_def)
qed

lemma report_address_fallback:
  "plain_host h \<Longrightarrow> h \<noteq> [] \<Longrightarrow> CHR ''['' \<notin> set h \<Longrightarrow> CHR '']'' \<notin> set h \<Longrightarrow>
   report_address [] (join_host_port h p) = join_host_port h 8002"
  by (simp add: report_address_def split_join_host_port) (simp add: join_host_port_plain)

text \<open>
  Every stage with a sample of one of its tasks has its totals: the sums over these samples.
\<close>

definition samples_of :: "Server \<Rightarrow> (string \<times> TaskMetrics) list \<Rightarrow> int \<Rightarrow> TaskMetrics list" where
  "samples_of s tms stageID =
     map snd (filter (\<lambda>(taskID, _). map_option StageID (map_of (AllTasks s) taskID) = Some stageID) tms)"

lemma stage_metrics_samples: "go_get [] (stage_metrics s) stageID = samples_of s (TaskMetricsMap s) stageID"
proof -
  let ?f = "\<lambda>(taskID, metrics) g. case map_of (AllTasks s) taskID of None \<Rightarrow> g
       | Some task \<Rightarrow> AList.update (StageID task) (go_get [] g (StageID task) @ [metrics]) g"
  have "go_get [] (fold ?f tms g) stageID = go_get [] g stageID @ samples_of s tms stageID" for tms g
  proof (induction tms arbitrary: g)
    case (Cons x tms)
    then show ?case
      by (cases x) (auto simp: samples_of_def go_get_def split: option.splits)
  qed (simp add: samples_of_def)
  then show ?thesis by (simp add: stage_metrics_def go_get_def)
qed

lemma stage_totals_sum:
  assumes "(stageID, rate, n, tuples) \<in> set (stage_totals s)" and "go_map (stage_metrics s)"
  shows "rate = sum_list (map CurrentRate (samples_of s (TaskMetricsMap s) stageID))
    \<and> n = length (samples_of s (TaskMetricsMap s) stageID) \<and> n \<noteq> 0
    \<and> tuples = sum_list (map TuplesProcessed (samples_of s (TaskMetricsMap s) stageID))"
proof -
  obtain ms where ms: "(stageID, ms) \<in> set (stage_metrics s)" "ms \<noteq> []"
    and t: "rate = sum_list (map CurrentRate ms)" "n = length ms" "tuples = sum_list (map TuplesProcessed ms)"
    using assms(1) by (auto simp: stage_totals_def)
  have "go_get [] (stage_metrics s) stageID = ms"
    using ms(1) assms(2) by (simp add: go_get_def go_map_lookup_iff)
  then show ?thesis using ms(2) t by (simp add: stage_metrics_samples)
qed

section \<open>A new server\<close>

definition NewServer :: "NodeState \<Rightarrow> Config \<Rightarrow> Server" where
  "NewServer node cfg = \<lparr>SNode = node, SConfig = cfg, Role = [], ActiveTasks = [], AllTasks = [],
     TaskMetricsMap = [], CurrentJobName = [], CurrentJobDestFile = [], JobTimestamp = [], JobStartTime = 0,
     ExpectedTasks = 0, OriginalTaskCount = 0, CompletedTasks = 0, CompletedTaskIDs = [], UpscaledTaskIDs = [],
     OriginalTasksDone = False, OutputTaskFiles = [], CurrentRoutingTable = None, JobEnded = False,
     AutoScaleEnabled = False, LowWatermark = 0, HighWatermark = 0, StageTaskCount = [], LastScaleTime = [],
     LowRateStart = [], StageConfigs = []\<rparr>"

text \<open>
  A server that was never given a job ends one at the first report of a completion, which a
  worker that outlived the last leader may send: no task is expected.
\<close>

lemma idle_server_ends_run:
  "JobEnded (NewServer node cfg) = False"
  "JobEnded (fst (HandleTaskCompleted e p (NewServer node cfg)))"
  by (simp_all add: NewServer_def HandleTaskCompleted_def completed_count_def completed_end_def
      snapshot_def mark_completed_def set_task_result_def case_prod_beta Let_def)

section \<open>The destination file of a job\<close>

datatype create_error = TempFileFailed | HydfsUnreachable | CommandNotSent | CreateFailed string

definition create_line :: "string \<Rightarrow> string \<Rightarrow> string" where
  "create_line tmpPath filename = ''create '' @ tmpPath @ '' '' @ filename @ ''\<newline>''"

text \<open>
  \<open>response\<close> is the line that comes back within 15 seconds; without one, the routine waits and
  assumes that the file was created.
\<close>

definition createHyDFSFile :: "bool \<Rightarrow> bool \<Rightarrow> bool \<Rightarrow> string option \<Rightarrow> create_error + unit" where
  "createHyDFSFile wrote dialled sent response =
     (if \<not> wrote then Inl TempFileFailed
      else if \<not> dialled then Inl HydfsUnreachable
      else if \<not> sent then Inl CommandNotSent
      else case response of
        None \<Rightarrow> Inr ()
      | Some text \<Rightarrow>
          if prefix ''OK'' (trim_space text) then Inr () else Inl (CreateFailed (trim_space text)))"

text \<open>
  The responses of the client port to \<open>create\<close>; \<open>errText\<close> is what follows \<open>ERR\<close>.
\<close>

definition create_text :: "(client_reply \<Rightarrow> string) \<Rightarrow> string \<Rightarrow> client_reply \<Rightarrow> string" where
  "create_text errText f r =
     (case r of
        OkCreated \<Rightarrow> strings_join '' '' [''OK'', ''created'', f]
      | OkCreatedOn k \<Rightarrow>
          strings_join '' '' [''OK'', ''created'', f, ''on'', dec k, ''nodes'', ''via'', ''pipelined'', ''replication'']
      | _ \<Rightarrow> ''ERR '' @ errText r)"

lemma is_word_dec: "is_word (dec k)"
proof -
  have "dec k \<noteq> []" by (subst dec.simps) simp
  moreover have "48 \<le> (of_char c :: nat) \<and> (of_char c :: nat) \<le> 57" if "c \<in> set (dec k)" for c
    using dec_digits [OF that] by (simp add: is_digit_def)
  ultimately show ?thesis by (fastforce simp: is_word_def is_ascii_def list_all_iff is_space_def)
qed

lemma create_text_ok:
  assumes "is_word f" and "r = OkCreated \<or> r = OkCreatedOn k"
  shows "createHyDFSFile True True True (Some (create_text errText f r)) = Inr ()"
proof -
  have w: "is_word ''OK''" "is_word ''created''" "is_word ''on''" "is_word ''nodes''" "is_word ''via''"
    "is_word ''pipelined''" "is_word ''replication''"
    by (simp_all add: is_word_def is_ascii_def is_space_def)
  have "trim_space (create_text errText f r) = create_text errText f r"
    using assms w by (auto simp: create_text_def is_word_dec intro!: join_words_trimmed simp del: strings_join.simps)
  then show ?thesis using assms(2) by (auto simp: createHyDFSFile_def create_text_def)
qed

text \<open>
  The destination file of a job is created on the leader's own node: the command that the
  leader sends to its client port leads to success, and the node has either stored the file, as
  the primary, in which case it may not answer at all, or sent the empty file to the primary.
\<close>

theorem destination_created:
  assumes "is_word tmp" and "is_word f" and "CeFiles c tmp = Some []"
    and "\<not> go_has (FileStore n) f" and "file_replicas n f \<noteq> []"
    and "client_line c (strings_join '' '' [''create'', tmp, f]) n = (n1, os, rs, started)"
    and "hd (file_replicas n f) = RingID (HNode n) \<Longrightarrow>
       \<not> isl (fst (store_create (CeNode c) f [] (HashString f) (RingID (HNode n))
         (Hostname (self_info n) @ '':'' @ CeRemote c) (Store n)))"
    and "hd (file_replicas n f) \<noteq> RingID (HNode n) \<Longrightarrow>
       EUp (CeNode c) (address (go_get zero_info (node_info n) (hd (file_replicas n f))))"
  shows "createHyDFSFile True True True
      (case rs of [RespReply r] \<Rightarrow> Some (create_text errText f r) | _ \<Rightarrow> None) = Inr ()
    \<and> (if hd (file_replicas n f) = RingID (HNode n) then go_has (FileStore n1) f
       else \<exists>msg. os = [(address (go_get zero_info (node_info n) (hd (file_replicas n f))), msg)]
         \<and> NmType msg = ''replicate_file'' \<and> NmFilename msg = f)"
proof -
  let ?ws = "[''create'', tmp, f]"
  have w: "list_all is_word ?ws" using assms(1,2) by (simp add: is_word_def is_ascii_def is_space_def)
  have ne: "strings_join '' '' ?ws \<noteq> []" by simp
  have cmd: "client_line c (strings_join '' '' ?ws) n = client_command c ?ws n"
    using join_words_trimmed [OF w] fields_join [OF w] ne by (simp add: client_line_def del: strings_join.simps)
  have no: "createHyDFSFile True True True None = Inr ()" by (simp add: createHyDFSFile_def)
  note ok = create_text_ok [OF assms(2)]
  have low: "to_lower_ascii ''create'' = ''create''" by code_simp
  show ?thesis
    using assms(3-5,7,8) assms(6) [unfolded cmd]
    by (auto simp: client_command_def client_create_def Let_def low ok no node_message_def go_has_def
        split: if_splits prod.splits sum.splits)
qed

end
