(* ===== verification/Fileops.thy ===== *)
theory Fileops
  imports Ring
begin

text \<open>
  The block files of \<open>pkg/fileops\<close> (\<open>storage.go\<close>, \<open>coordinator.go\<close>): blocks named by a timestamp
  and a client, a metadata file per HyDFS file, creation by a coordinator and replication.

  \<^item> \<open>disk\<close> is \<open>./hydfs_storage\<close> as these routines use it: a directory per file with its
    metadata (\<open>None\<close> when there is no metadata file) and its block files. File names are
    single path elements, and block file names too.
  \<^item> \<open>fo_io\<close> tells for each kind of write of an operation whether it succeeds; a failed write
    leaves nothing. \<open>now\<close> is the clock in nanoseconds.
  \<^item> \<open>send r req\<close> is the answer of replica \<open>r\<close>, or \<open>None\<close> if it cannot be reached in time.
\<close>

section \<open>Data\<close>

record BlockIdentifier =
  BidTimestamp :: int
  BidClientID :: string

record FoBlockMetadata =
  BlockID :: BlockIdentifier
  FbSize :: int
  Checksum :: string
  FbCreatedAt :: int

record FileBlockMetadata =
  FbFilename :: string
  Blocks :: "FoBlockMetadata list"
  FbVersion :: int

record FileDir =
  DirMetadata :: "FileBlockMetadata option"
  DirBlocks :: "(string, bytes) gomap"

type_synonym disk = "(string, FileDir) gomap"

record fo_io =
  MkdirOk :: bool
  BlockOk :: bool
  MetadataOk :: bool

datatype fo_error =
    FoReadMetadata | FoMkdir | FoWriteMetadata | FoWriteBlock | FoReadBlock BlockIdentifier
  | FoNoNodes | FoReadLocal | FoCreateOutput

definition no_dir :: FileDir where
  "no_dir = \<lparr>DirMetadata = None, DirBlocks = []\<rparr>"

definition block_filename :: "BlockIdentifier \<Rightarrow> string" where
  "block_filename blockID = ''block_'' @ dec_int (BidTimestamp blockID) @ ''_'' @ BidClientID blockID"

section \<open>Storage\<close>

definition Fo_FileExists :: "string \<Rightarrow> disk \<Rightarrow> bool" where
  "Fo_FileExists f d = (case map_of d f of None \<Rightarrow> False | Some dir \<Rightarrow> DirMetadata dir \<noteq> None)"

definition LoadMetadata :: "string \<Rightarrow> disk \<Rightarrow> fo_error + FileBlockMetadata" where
  "LoadMetadata f d =
     (case DirMetadata (go_get no_dir d f) of None \<Rightarrow> Inl FoReadMetadata | Some m \<Rightarrow> Inr m)"

definition SaveMetadata :: "fo_io \<Rightarrow> FileBlockMetadata \<Rightarrow> disk \<Rightarrow> (fo_error + unit) \<times> disk" where
  "SaveMetadata io m d =
     (let dir = go_get no_dir d (FbFilename m) in
      if \<not> MkdirOk io then (Inl FoMkdir, d)
      else if \<not> MetadataOk io then (Inl FoWriteMetadata, AList.update (FbFilename m) dir d)
      else (Inr (), AList.update (FbFilename m) (dir\<lparr>DirMetadata := Some m\<rparr>) d))"

definition WriteBlock ::
  "fo_io \<Rightarrow> int \<Rightarrow> string \<Rightarrow> BlockIdentifier \<Rightarrow> bytes \<Rightarrow> disk \<Rightarrow> (fo_error + FoBlockMetadata) \<times> disk" where
  "WriteBlock io now f blockID data d =
     (let dir = go_get no_dir d f in
      if \<not> MkdirOk io then (Inl FoMkdir, d)
      else if \<not> BlockOk io then (Inl FoWriteBlock, AList.update f dir d)
      else (Inr \<lparr>BlockID = blockID, FbSize = int (length data), Checksum = sha1_hex data, FbCreatedAt = now\<rparr>,
            AList.update f (dir\<lparr>DirBlocks := AList.update (block_filename blockID) data (DirBlocks dir)\<rparr>) d))"

definition ReadBlock :: "string \<Rightarrow> BlockIdentifier \<Rightarrow> disk \<Rightarrow> fo_error + bytes" where
  "ReadBlock f blockID d =
     (case map_of (DirBlocks (go_get no_dir d f)) (block_filename blockID) of
        None \<Rightarrow> Inl (FoReadBlock blockID) | Some data \<Rightarrow> Inr data)"

fun read_blocks_of :: "string \<Rightarrow> disk \<Rightarrow> FoBlockMetadata list \<Rightarrow> fo_error + bytes" where
  "read_blocks_of f d [] = Inr []"
| "read_blocks_of f d (b # bs) =
     (case ReadBlock f (BlockID b) d of
        Inl err \<Rightarrow> Inl err
      | Inr data \<Rightarrow> (case read_blocks_of f d bs of Inl err \<Rightarrow> Inl err | Inr rest \<Rightarrow> Inr (data @ rest)))"

definition ReadFullFile :: "string \<Rightarrow> disk \<Rightarrow> fo_error + bytes" where
  "ReadFullFile f d =
     (case LoadMetadata f d of Inl err \<Rightarrow> Inl err | Inr m \<Rightarrow> read_blocks_of f d (Blocks m))"

definition Fo_DeleteFile :: "string \<Rightarrow> disk \<Rightarrow> disk" where
  "Fo_DeleteFile f d = AList.delete f d"

definition ListLocalFiles :: "disk \<Rightarrow> string list" where
  "ListLocalFiles d = map fst (filter (\<lambda>(f, dir). DirMetadata dir \<noteq> None) d)"

definition CreateBlock ::
  "fo_io \<Rightarrow> int \<Rightarrow> string \<Rightarrow> bytes option \<Rightarrow> string \<Rightarrow> disk \<Rightarrow>
   (fo_error + FoBlockMetadata \<times> BlockIdentifier \<times> bytes) \<times> disk" where
  "CreateBlock io now f local clientID d =
     (case local of
        None \<Rightarrow> (Inl FoReadLocal, d)
      | Some data \<Rightarrow>
          let blockID = \<lparr>BidTimestamp = now, BidClientID = clientID\<rparr> in
          (case WriteBlock io now f blockID data d of
             (Inl err, d1) \<Rightarrow> (Inl err, d1) | (Inr m, d1) \<Rightarrow> (Inr (m, blockID, data), d1)))"

text \<open>The output file written so far, and the error that ended the copying, if any.\<close>

fun assemble :: "string \<Rightarrow> disk \<Rightarrow> FoBlockMetadata list \<Rightarrow> bytes \<Rightarrow> bytes \<times> fo_error option" where
  "assemble f d [] out = (out, None)"
| "assemble f d (b # bs) out =
     (case ReadBlock f (BlockID b) d of
        Inl err \<Rightarrow> (out, Some err) | Inr data \<Rightarrow> assemble f d bs (out @ data))"

definition AssembleFileFromBlocks :: "bool \<Rightarrow> string \<Rightarrow> disk \<Rightarrow> bytes option \<times> fo_error option" where
  "AssembleFileFromBlocks creatable f d =
     (case LoadMetadata f d of
        Inl err \<Rightarrow> (None, Some err)
      | Inr m \<Rightarrow>
          if \<not> creatable then (None, Some FoCreateOutput)
          else (case assemble f d (Blocks m) [] of (out, err) \<Rightarrow> (Some out, err)))"

section \<open>Creation and replication\<close>

record ReplicateBlockRequest =
  RqFilename :: string
  RqBlockID :: BlockIdentifier
  RqData :: bytes
  IsCreate :: bool

datatype replicate_error = AlreadyExists | WriteFailed fo_error | LoadFailed fo_error | SaveFailed fo_error

record CreateFileResponse =
  CfSuccess :: bool
  CfReplicas :: "string list"
  CfFileID :: u64
  CfCoordinatorID :: u64

definition initial_metadata :: "string \<Rightarrow> FoBlockMetadata \<Rightarrow> FileBlockMetadata" where
  "initial_metadata f b = \<lparr>FbFilename = f, Blocks = [b], FbVersion = 1\<rparr>"

definition HandleReplicateBlock ::
  "fo_io \<Rightarrow> int \<Rightarrow> ReplicateBlockRequest \<Rightarrow> disk \<Rightarrow> (replicate_error + unit) \<times> disk" where
  "HandleReplicateBlock io now req d =
     (let f = RqFilename req in
      if IsCreate req \<and> Fo_FileExists f d then (Inl AlreadyExists, d)
      else case WriteBlock io now f (RqBlockID req) (RqData req) d of
        (Inl err, d1) \<Rightarrow> (Inl (WriteFailed err), d1)
      | (Inr b, d1) \<Rightarrow>
          (case (if Fo_FileExists f d1
                 then (case LoadMetadata f d1 of
                         Inl err \<Rightarrow> Inl (LoadFailed err)
                       | Inr m \<Rightarrow> Inr (m\<lparr>Blocks := Blocks m @ [b], FbVersion := FbVersion m + 1\<rparr>))
                 else Inr (initial_metadata f b)) of
             Inl err \<Rightarrow> (Inl err, d1)
           | Inr m \<Rightarrow>
               (case SaveMetadata io m d1 of
                  (Inl err, d2) \<Rightarrow> (Inl (SaveFailed err), d2) | (Inr _, d2) \<Rightarrow> (Inr (), d2))))"

definition is_self :: "Info \<Rightarrow> ReplicaNode \<Rightarrow> bool" where
  "is_self self r = (RHostname r = Hostname self \<and> RPort r = Port self)"

datatype create_result = CreateError fo_error | CreateExists | CreateDone CreateFileResponse

text \<open>
  \<open>send\<close> gives the success of the reply of a replica and may change the disk of this node,
  when the replica is the node itself.
\<close>

fun replicate_all ::
  "(ReplicaNode \<Rightarrow> ReplicateBlockRequest \<Rightarrow> disk \<Rightarrow> bool \<times> disk) \<Rightarrow> ReplicateBlockRequest \<Rightarrow>
   ReplicaNode list \<Rightarrow> disk \<Rightarrow> string list \<times> disk" where
  "replicate_all send req [] d = ([], d)"
| "replicate_all send req (r # rs) d =
     (case send r req d of (ok, d1) \<Rightarrow>
        case replicate_all send req rs d1 of (good, d2) \<Rightarrow> 
          ((if ok then (RHostname r @ '':'' @ dec_int (RPort r)) # good else good), d2))"

definition HandleCreateFile ::
  "(ReplicaNode \<Rightarrow> ReplicateBlockRequest \<Rightarrow> disk \<Rightarrow> bool \<times> disk) \<Rightarrow> fo_io \<Rightarrow> int \<Rightarrow> Membership \<Rightarrow> Info \<Rightarrow>
   string \<Rightarrow> bytes option \<Rightarrow> string \<Rightarrow> disk \<Rightarrow> create_result \<times> disk" where
  "HandleCreateFile send io now membership self f local clientID d =
     (if Fo_FileExists f d then (CreateExists, d)
      else case GetCoordinatorAndReplicas f membership of
        None \<Rightarrow> (CreateError FoNoNodes, d)
      | Some replicas \<Rightarrow>
          (case CreateBlock io now f local clientID d of
             (Inl err, d1) \<Rightarrow> (CreateError err, d1)
           | (Inr (b, blockID, data), d1) \<Rightarrow>
               (case (if list_ex (is_self self) replicas
                      then SaveMetadata io (initial_metadata f b) d1 else (Inr (), d1)) of
                  (Inl err, d2) \<Rightarrow> (CreateError err, d2)
                | (Inr _, d2) \<Rightarrow>
                    (case replicate_all send
                        \<lparr>RqFilename = f, RqBlockID = blockID, RqData = data, IsCreate = True\<rparr> replicas d2 of
                       (good, d3) \<Rightarrow>
                         (CreateDone \<lparr>CfSuccess = True, CfReplicas = good, CfFileID = GetFileID f,
                            CfCoordinatorID = RRingID (hd replicas)\<rparr>, d3)))))"

section \<open>Copying a local file\<close>

datatype copy_error = CopyOpen | CopyMkdir | CopyCreate | CopyPartial

text \<open>
  \<open>files\<close> are the files of the node by path; \<open>copied\<close> is the number of bytes written before a
  failure, or \<open>None\<close>. The destination is truncated before anything is copied.
\<close>

definition CopyLocalFileToStorage ::
  "bool \<Rightarrow> bool \<Rightarrow> nat option \<Rightarrow> string \<Rightarrow> string \<Rightarrow> (string, bytes) gomap \<Rightarrow>
   (copy_error + unit) \<times> (string, bytes) gomap" where
  "CopyLocalFileToStorage mkdirOk createOk copied localPath storagePath files =
     (case map_of files localPath of
        None \<Rightarrow> (Inl CopyOpen, files)
      | Some content \<Rightarrow>
          if \<not> mkdirOk then (Inl CopyMkdir, files)
          else if \<not> createOk then (Inl CopyCreate, files)
          else let source = (if localPath = storagePath then [] else content) in
            case copied of
              Some k \<Rightarrow> (Inl CopyPartial, AList.update storagePath (take k source) files)
            | None \<Rightarrow> (Inr (), AList.update storagePath source files))"

text \<open>A file copied onto itself is emptied, and the routine reports success.\<close>

lemma copy_onto_itself:
  "go_has files p \<Longrightarrow> CopyLocalFileToStorage True True None p p files = (Inr (), AList.update p [] files)"
  by (auto simp: CopyLocalFileToStorage_def go_has_def)

lemma copy_reads_back:
  "map_of files p = Some content \<Longrightarrow> p \<noteq> q \<Longrightarrow>
   map_of (snd (CopyLocalFileToStorage True True None p q files)) q = Some content"
  by (simp add: CopyLocalFileToStorage_def)

end
