(* ===== verification/Fileops_Props.thy ===== *)
theory Fileops_Props
  imports Fileops Hydfs_Node
begin

text \<open>
  What the block files of \<open>pkg/fileops\<close> promise: blocks replicated one after the other are read
  back in order, and what a coordinator's create does when the replicas are nodes of this
  program, whose dispatch (\<open>handleNodeConnection\<close>) does not reach the replication handler.
\<close>

section \<open>Blocks read back\<close>

lemma dec_int_no_underscore: "CHR ''_'' \<notin> set (dec_int i)"
proof -
  have "CHR ''_'' \<notin> set (dec n)" for n
    using dec_digits [of "CHR ''_''" n] by (auto simp: is_digit_def)
  then show ?thesis by (simp add: dec_int_def)
qed

lemma block_filename_inject [simp]: "block_filename i = block_filename j \<longleftrightarrow> i = j"
proof
  assume eq: "block_filename i = block_filename j"
  have tw: "takeWhile (\<lambda>c. c \<noteq> CHR ''_'') (dec_int k @ CHR ''_'' # x) = dec_int k" for k x
    using dec_int_no_underscore [of k] by (subst takeWhile_append2) auto
  have "dec_int (BidTimestamp i) @ CHR ''_'' # BidClientID i = dec_int (BidTimestamp j) @ CHR ''_'' # BidClientID j"
    using eq by (simp add: block_filename_def)
  then have "dec_int (BidTimestamp i) = dec_int (BidTimestamp j)" and "BidClientID i = BidClientID j"
    using tw by (metis, metis append_same_eq same_append_eq list.inject)
  then show "i = j" by simp
qed simp

definition io_fine :: "fo_io \<Rightarrow> bool" where
  "io_fine io \<longleftrightarrow> MkdirOk io \<and> BlockOk io \<and> MetadataOk io"

text \<open>The file holds these blocks, in this order.\<close>

definition holds :: "string \<Rightarrow> (BlockIdentifier \<times> bytes) list \<Rightarrow> disk \<Rightarrow> bool" where
  "holds f bs d =
     (case map_of d f of
        None \<Rightarrow> False
      | Some dir \<Rightarrow>
          (case DirMetadata dir of
             None \<Rightarrow> False
           | Some m \<Rightarrow> FbFilename m = f \<and> map BlockID (Blocks m) = map fst bs \<and> FbVersion m = int (length bs)
               \<and> list_all (\<lambda>(i, x). map_of (DirBlocks dir) (block_filename i) = Some x) bs))"

lemma read_blocks_of_all:
  assumes "map BlockID ms = map fst bs"
    and "list_all (\<lambda>(i, x). map_of (DirBlocks (go_get no_dir d f)) (block_filename i) = Some x) bs"
  shows "read_blocks_of f d ms = Inr (concat (map snd bs))"
  using assms
proof (induction ms arbitrary: bs)
  case (Cons m ms)
  then obtain x bs' where "bs = (BlockID m, x) # bs'" by (cases bs) auto
  then show ?case using Cons by (auto simp: ReadBlock_def)
qed simp

lemma holds_read: "holds f bs d \<Longrightarrow> ReadFullFile f d = Inr (concat (map snd bs))"
  using read_blocks_of_all [of _ bs d f]
  by (auto simp: holds_def ReadFullFile_def LoadMetadata_def go_get_def split: option.splits)

lemma holds_exists: "holds f bs d \<Longrightarrow> Fo_FileExists f d"
  by (auto simp: holds_def Fo_FileExists_def split: option.splits)

lemma replicate_first:
  assumes "map_of d f = None" and "io_fine io"
  shows "fst (HandleReplicateBlock io now \<lparr>RqFilename = f, RqBlockID = i, RqData = x, IsCreate = c\<rparr> d) = Inr ()
    \<and> holds f [(i, x)] (snd (HandleReplicateBlock io now \<lparr>RqFilename = f, RqBlockID = i, RqData = x, IsCreate = c\<rparr> d))"
  using assms
  by (simp add: HandleReplicateBlock_def Let_def io_fine_def WriteBlock_def SaveMetadata_def initial_metadata_def
      Fo_FileExists_def holds_def go_get_def no_dir_def)

lemma replicate_next:
  assumes "holds f bs d" and "io_fine io" and "i \<notin> fst ` set bs"
  shows "fst (HandleReplicateBlock io now \<lparr>RqFilename = f, RqBlockID = i, RqData = x, IsCreate = False\<rparr> d) = Inr ()
    \<and> holds f (bs @ [(i, x)])
        (snd (HandleReplicateBlock io now \<lparr>RqFilename = f, RqBlockID = i, RqData = x, IsCreate = False\<rparr> d))"
proof -
  obtain dir m where dir: "map_of d f = Some dir" "DirMetadata dir = Some m"
    and m: "FbFilename m = f" "map BlockID (Blocks m) = map fst bs" "FbVersion m = int (length bs)"
    and bs: "list_all (\<lambda>(i, x). map_of (DirBlocks dir) (block_filename i) = Some x) bs"
    using assms(1) by (auto simp: holds_def split: option.splits)
  have "list_all (\<lambda>(j, y). (if j = i then Some x else map_of (DirBlocks dir) (block_filename j)) = Some y) bs"
    using bs assms(3) by (force simp: list_all_iff)
  then show ?thesis using dir m assms(2)
    by (simp add: HandleReplicateBlock_def Let_def io_fine_def WriteBlock_def SaveMetadata_def LoadMetadata_def
        Fo_FileExists_def holds_def go_get_def)
qed

definition replicate_blocks :: "string \<Rightarrow> (fo_io \<times> int \<times> BlockIdentifier \<times> bytes) list \<Rightarrow> disk \<Rightarrow> disk" where
  "replicate_blocks f reqs d =
     fold (\<lambda>(io, now, i, x) d. snd (HandleReplicateBlock io now
       \<lparr>RqFilename = f, RqBlockID = i, RqData = x, IsCreate = False\<rparr> d)) reqs d"

lemma replicate_blocks_holds:
  assumes "holds f bs d" and "list_all (\<lambda>(io, _). io_fine io) reqs"
    and "distinct (map fst bs @ map (\<lambda>(_, _, i, _). i) reqs)"
  shows "holds f (bs @ map (\<lambda>(_, _, i, x). (i, x)) reqs) (replicate_blocks f reqs d)"
  using assms
proof (induction reqs arbitrary: bs d)
  case Nil
  then show ?case by (simp add: replicate_blocks_def)
next
  case (Cons r reqs)
  obtain io now i x where r: "r = (io, now, i, x)" by (cases r)
  let ?d = "snd (HandleReplicateBlock io now \<lparr>RqFilename = f, RqBlockID = i, RqData = x, IsCreate = False\<rparr> d)"
  have "holds f (bs @ [(i, x)]) ?d"
    using replicate_next [OF Cons.prems(1), of io i now x] Cons.prems(2,3) r by auto
  from Cons.IH [OF this] Cons.prems(2,3) r show ?case
    by (simp add: replicate_blocks_def)
qed

text \<open>
  Replicated blocks are read back: the first block creates the file, and it and the blocks
  that follow, with different timestamps or clients, are what \<open>ReadFullFile\<close> and
  \<open>AssembleFileFromBlocks\<close> put together, in the order of their arrival; a second creation of
  the file is refused and changes nothing.
\<close>

theorem replicated_blocks_read_back:
  assumes "map_of d f = None" and "io_fine io" and "list_all (\<lambda>(io, _). io_fine io) reqs"
    and "distinct (i # map (\<lambda>(_, _, i, _). i) reqs)"
    and "HandleReplicateBlock io now \<lparr>RqFilename = f, RqBlockID = i, RqData = x, IsCreate = True\<rparr> d = (r, d1)"
    and "d2 = replicate_blocks f reqs d1"
  shows "r = Inr ()
    \<and> ReadFullFile f d2 = Inr (x @ concat (map (\<lambda>(_, _, _, y). y) reqs))
    \<and> AssembleFileFromBlocks True f d2 = (Some (x @ concat (map (\<lambda>(_, _, _, y). y) reqs)), None)
    \<and> HandleReplicateBlock io' now' \<lparr>RqFilename = f, RqBlockID = j, RqData = y, IsCreate = True\<rparr> d2
        = (Inl AlreadyExists, d2)"
proof -
  have one: "r = Inr ()" "holds f [(i, x)] d1"
    using replicate_first [OF assms(1,2), of now i x True] assms(5) by simp_all
  have "holds f ([(i, x)] @ map (\<lambda>(_, _, i, x). (i, x)) reqs) d2"
    unfolding assms(6) by (rule replicate_blocks_holds [OF one(2) assms(3)]) (use assms(4) in simp)
  moreover define bs where "bs = [(i, x)] @ map (\<lambda>(_, _, i, x). (i, x)) reqs"
  ultimately have h: "holds f bs d2" by simp
  have data: "concat (map snd bs) = x @ concat (map (\<lambda>(_, _, _, y). y) reqs)"
    by (simp add: bs_def comp_def split_def)
  have "assemble f d2 ms out = (out @ y, None)" if "read_blocks_of f d2 ms = Inr y" for ms out y
    using that by (induction ms arbitrary: out y) (auto split: sum.splits)
  then have "AssembleFileFromBlocks True f d2 = (Some (concat (map snd bs)), None)"
    using holds_read [OF h] by (auto simp: AssembleFileFromBlocks_def ReadFullFile_def split: sum.splits)
  moreover have "HandleReplicateBlock io' now' \<lparr>RqFilename = f, RqBlockID = j, RqData = y, IsCreate = True\<rparr> d2
      = (Inl AlreadyExists, d2)"
    using holds_exists [OF h] by (simp add: HandleReplicateBlock_def)
  ultimately show ?thesis using one(1) holds_read [OF h] by (simp add: data)
qed

definition sample_bid :: "int \<Rightarrow> BlockIdentifier" where
  "sample_bid n = \<lparr>BidTimestamp = n, BidClientID = ''c''\<rparr>"

definition sample_io :: fo_io where
  "sample_io = \<lparr>MkdirOk = True, BlockOk = True, MetadataOk = True\<rparr>"

theorem replicated_blocks_read_back_witness:
  "ReadFullFile ''f'' (replicate_blocks ''f'' [(sample_io, 7, sample_bid 2, ''b''), (sample_io, 8, sample_bid 1, ''c'')]
     (snd (HandleReplicateBlock sample_io 5 \<lparr>RqFilename = ''f'', RqBlockID = sample_bid 3, RqData = ''a'', IsCreate = True\<rparr> [])))
   = Inr ''abc''"
  using replicated_blocks_read_back [of "[]" "''f''" sample_io
      "[(sample_io, 7, sample_bid 2, ''b''), (sample_io, 8, sample_bid 1, ''c'')]" "sample_bid 3" 5 "''a''",
      OF _ _ _ _ surjective_pairing refl]
  by (simp add: io_fine_def sample_io_def sample_bid_def)

section \<open>A coordinator and the nodes of this program\<close>

text \<open>
  \<open>sendReplicateRequest\<close> writes a line with the type \<open>replicate_block\<close> and the request. Decoded
  by the receiving node as a message, it is one with that type and no other field.
\<close>

definition replicate_message :: NodeMessage where
  "replicate_message = node_message ''replicate_block'' [] [] [] []"

definition answered :: "node_reply \<Rightarrow> bool" where
  "answered r = (r \<noteq> NoReply)"

definition sendReplicateRequest ::
  "env \<Rightarrow> (ReplicaNode \<Rightarrow> HydfsNode option) \<Rightarrow> ReplicaNode \<Rightarrow> ReplicateBlockRequest \<Rightarrow> disk \<Rightarrow> bool \<times> disk" where
  "sendReplicateRequest e net r req d =
     (case net r of
        None \<Rightarrow> (False, d)
      | Some n \<Rightarrow> (case handle_message e replicate_message n of (n1, os, reply, eff) \<Rightarrow> (answered reply, d)))"

lemma sendReplicateRequest_fails: "sendReplicateRequest e net r req d = (False, d)"
  by (simp add: sendReplicateRequest_def handle_message_def replicate_message_def node_message_def answered_def
      split: option.split)

lemma replicate_all_fails: "replicate_all (sendReplicateRequest e net) req rs d = ([], d)"
  by (induction rs) (simp_all add: sendReplicateRequest_fails)

text \<open>
  A create that copies nowhere: the nodes decode the request as a message of an unknown
  type and do not answer, so when the coordinator's own writes succeed, it reports success
  with no replica at all. The file exists afterwards on the coordinator if that is itself
  one of the replicas; if not, the block was written but the file has no metadata, and
  cannot be read anywhere, and the next create of the name is accepted again.
\<close>

theorem create_copies_nowhere:
  assumes "io_fine io" and "GetCoordinatorAndReplicas f m = Some replicas" and "map_of d f = None"
  shows "\<exists>d'. HandleCreateFile (sendReplicateRequest e net) io now m self f (Some content) c d
        = (CreateDone \<lparr>CfSuccess = True, CfReplicas = [], CfFileID = GetFileID f,
             CfCoordinatorID = RRingID (hd replicas)\<rparr>, d')
    \<and> (if list_ex (is_self self) replicas then ReadFullFile f d' = Inr content
       else \<not> Fo_FileExists f d' \<and> ReadFullFile f d' = Inl FoReadMetadata
         \<and> ReadBlock f \<lparr>BidTimestamp = now, BidClientID = c\<rparr> d' = Inr content)"
  using assms
  by (simp add: HandleCreateFile_def Fo_FileExists_def CreateBlock_def Let_def WriteBlock_def SaveMetadata_def
      io_fine_def replicate_all_fails initial_metadata_def ReadFullFile_def LoadMetadata_def ReadBlock_def
      go_get_def no_dir_def)

theorem create_copies_nowhere_witness:
  "\<forall>e net. \<exists>d'. HandleCreateFile (sendReplicateRequest e net) sample_io 5
       \<lparr>Members = [], InfoMap = [(7, sample_info 7 Alive 0 0)], roundRobinIndex = 0\<rparr> (sample_info 1 Alive 0 0)
       ''f'' (Some ''hi'') ''c'' []
     = (CreateDone \<lparr>CfSuccess = True, CfReplicas = [], CfFileID = GetFileID ''f'', CfCoordinatorID = 7\<rparr>, d')
     \<and> ReadFullFile ''f'' d' = Inl FoReadMetadata"
proof (intro allI)
  fix e and net :: "ReplicaNode \<Rightarrow> HydfsNode option"
  let ?m = "\<lparr>Members = [], InfoMap = [(7, sample_info 7 Alive 0 0)], roundRobinIndex = 0\<rparr> :: Membership"
  let ?r = "\<lparr>RRingID = 7, RHostname = Hostname (sample_info 7 Alive 0 0), RPort = Port (sample_info 7 Alive 0 0)\<rparr>"
  have walk: "ring_walk [7 :: u64] 0 3 = [7]" by code_simp
  have g: "GetCoordinatorAndReplicas ''f'' ?m = Some [?r]"
    using walk by (simp add: GetCoordinatorAndReplicas_def GetInfoMap_id coordinator_ids_def Let_def go_get_def sample_info_def)
  have s: "\<not> list_ex (is_self (sample_info 1 Alive 0 0)) [?r]"
    by (simp add: is_self_def sample_info_def)
  have io: "io_fine sample_io" by (simp add: io_fine_def sample_io_def)
  show "\<exists>d'. HandleCreateFile (sendReplicateRequest e net) sample_io 5 ?m (sample_info 1 Alive 0 0) ''f'' (Some ''hi'') ''c'' []
     = (CreateDone \<lparr>CfSuccess = True, CfReplicas = [], CfFileID = GetFileID ''f'', CfCoordinatorID = 7\<rparr>, d')
     \<and> ReadFullFile ''f'' d' = Inl FoReadMetadata"
    using create_copies_nowhere [OF io g, of "[]" e net 5 "sample_info 1 Alive 0 0" "''hi''" "''c''"] s by auto
qed

end
