(* ===== verification/Node_Start.thy ===== *)
theory Node_Start
  imports Client_Commands Fileops
begin

text \<open>
  The start of a node and the lines of its node port (\<open>main\<close> and \<open>handleNodeConnection\<close> in
  \<open>main.go\<close>).

  \<^item> \<open>files\<close> is what the storage directory holds when the node starts.
  \<^item> \<open>decode\<close> is the JSON decoder as the node port uses it: a line is a message, or else an object
    whose \<open>type\<close> is \<open>replicate_block\<close> with a request in it, or neither.
\<close>

section \<open>Start\<close>

datatype boot_result =
    ConfigFatal config_error | StorageFatal | NoHostsPanic | Booted HydfsNode string "Config option"

text \<open>
  A started node, its RainStorm role, and the configuration of the join it starts, if any.
\<close>

definition boot ::
  "config_error + Config \<Rightarrow> bool \<Rightarrow> string \<Rightarrow> (int \<Rightarrow> string) \<Rightarrow> int \<Rightarrow> fs \<Rightarrow> boot_result" where
  "boot config storageOk hostname fmtTime now files =
     (case config of
        Inl err \<Rightarrow> ConfigFatal err
      | Inr cfg \<Rightarrow>
          let myInfo = \<lparr>Hostname = hostname, Port = NodePort cfg, Version = now, Timestamp = now,
                        Counter = 0, State = Alive\<rparr>;
              myId = HashInfo fmtTime myInfo;
              node = \<lparr>HNode = \<lparr>RingID = myId, IsActive = True,
                               NMembership = Reset fmtTime now hostname (NodePort cfg)\<rparr>,
                      Store = files, FileStore = [], PendingAcks = []\<rparr>
          in if \<not> storageOk then StorageFatal
             else case VMs cfg of
               [] \<Rightarrow> NoHostsPanic
             | introducerHost # _ \<Rightarrow>
                 Booted node (if hostname = introducerHost then ''leader'' else ''worker'')
                   (if hostname = introducerHost then None else Some cfg))"

section \<open>The node port\<close>

datatype node_input = Decoded NodeMessage | ReplicateBlock ReplicateBlockRequest | Undecodable

text \<open>
  The lines of one connection: the node, the messages to others, the replies, what is started
  or ended, and the replication request that ended the connection.
\<close>

fun node_connection ::
  "env \<Rightarrow> (string \<Rightarrow> node_input) \<Rightarrow> string list \<Rightarrow> HydfsNode \<Rightarrow>
   HydfsNode \<times> outs \<times> node_reply list \<times> node_effect list \<times> ReplicateBlockRequest option" where
  "node_connection e decode [] n = (n, [], [], [], None)"
| "node_connection e decode (line # ls) n =
     (if line = [] then node_connection e decode ls n
      else case decode line of
        Undecodable \<Rightarrow> node_connection e decode ls n
      | ReplicateBlock req \<Rightarrow> (n, [], [], [], Some req)
      | Decoded msg \<Rightarrow>
          (case handle_message e msg n of (n1, os, reply, eff) \<Rightarrow>
             (case eff of
                Panicked p \<Rightarrow> (n1, os, [reply], [eff], None)
              | _ \<Rightarrow>
                  (case node_connection e decode ls n1 of (n2, os2, replies, effs, req) \<Rightarrow>
                     (n2, os @ os2, reply # replies, eff # effs, req)))))"

text \<open>A connection on which nothing decodes is not answered and changes nothing.\<close>

lemma node_connection_garbage:
  "list_all (\<lambda>line. line = [] \<or> decode line = Undecodable) ls \<Longrightarrow>
   node_connection e decode ls n = (n, [], [], [], None)"
  by (induction ls) auto

lemma boot_node_ok: "boot config ok hostname fmtTime now files = Booted n role join \<Longrightarrow> node_ok (HNode n)"
  by (auto simp: boot_def Let_def node_ok_def Reset_ok split: sum.splits if_splits list.splits)

section \<open>The UDP port\<close>

text \<open>
  The reader of the gossip port: what does not decode is skipped, and a message that finds 64
  others waiting for the loop is dropped.
\<close>

definition udp_receive :: "(bytes \<Rightarrow> Message option) \<Rightarrow> bytes \<Rightarrow> Message list \<Rightarrow> Message list" where
  "udp_receive decode data incoming =
     (case decode data of
        None \<Rightarrow> incoming
      | Some msg \<Rightarrow> if length incoming < 64 then incoming @ [msg] else incoming)"

text \<open>The queue stays bounded, and a burst keeps its first messages, in order.\<close>

lemma udp_burst:
  assumes "length incoming \<le> 64"
  shows "fold (udp_receive decode) datas incoming = take 64 (incoming @ List.map_filter decode datas)"
  using assms
proof (induction datas arbitrary: incoming)
  case (Cons d datas)
  show ?case
  proof (cases "decode d")
    case None
    then show ?thesis using Cons.IH [OF Cons.prems] by (simp add: udp_receive_def List.map_filter_simps)
  next
    case (Some m)
    then show ?thesis
      using Cons.IH [OF Cons.prems] Cons.IH [of "incoming @ [m]"] Cons.prems
      by (cases "length incoming = 64") (simp_all add: udp_receive_def List.map_filter_simps)
  qed
qed (simp add: List.map_filter_simps)

end
