(* ===== verification/Log_Query_Props.thy ===== *)
theory Log_Query_Props
  imports Node_Start
begin

text \<open>
  Properties of the distributed log query: which file a node searches, and that the summary
  of a query counts what the nodes found.
\<close>

section \<open>The file a node searches\<close>

lemma node_digits_node: "list_all is_digit ds \<Longrightarrow> ds \<noteq> [] \<Longrightarrow> node_digits (''node'' @ ds) = Some ds"
proof -
  assume d: "list_all is_digit ds" "ds \<noteq> []"
  then have "takeWhile is_digit ds = ds" by (simp add: takeWhile_eq_all_conv list_all_iff)
  then have "node_digits (CHR ''n'' # ''ode'' @ ds) = Some ds"
    unfolding node_digits.simps using d(2) by (simp del: takeWhile_eq_all_conv)
  then show ?thesis by simp
qed

lemma atoi_dec: "n < 2 ^ 63 \<Longrightarrow> atoi (dec n) = Some (int n)"
proof -
  assume n: "n < 2 ^ 63"
  have d: "list_all is_digit (dec n)" by (simp add: list_all_iff dec_digits)
  then have "dec n \<noteq> [] \<and> hd (dec n) \<noteq> CHR ''-'' \<and> hd (dec n) \<noteq> CHR ''+''"
    by (cases "dec n") (auto simp: is_digit_def)
  then obtain c cs where c: "dec n = c # cs" "c \<noteq> CHR ''-''" "c \<noteq> CHR ''+''" by (cases "dec n") auto
  moreover have "undec (c # cs) = n" using undec_dec [of n] c by simp
  ultimately show ?thesis using n d by (simp add: atoi_def)
qed

lemma getMachineNumber_node: "n < 2 ^ 63 \<Longrightarrow> getMachineNumber (''node'' @ dec n) = Some (int n)"
  using node_digits_node [of "dec n"] dec_digits [of _ n]
  by (simp add: getMachineNumber_def atoi_dec list_all_iff del: append_Cons append.simps)

lemma same_start:
  assumes "list_all is_digit a" and "list_all is_digit b"
  shows "prefix (a @ [CHR ''_'']) (b @ CHR ''_'' # t) \<longleftrightarrow> a = b"
proof -
  have u: "\<not> is_digit (CHR ''_'')" by (simp add: is_digit_def)
  have "takeWhile is_digit (c @ CHR ''_'' # x) = c" if "list_all is_digit c" for c x
    using that u by (simp add: takeWhile_append list_all_iff)
  then show ?thesis using assms
    by (auto simp: prefix_def) metis+
qed

text \<open>The log files of numbered nodes, by node and time stamp.\<close>

definition node_log :: "nat \<times> string \<Rightarrow> string" where
  "node_log f = log_name (''node'' @ dec (fst f)) (snd f)"

lemma glob_node_logs:
  "glob_logs (''node'' @ dec_int (int n) @ ''_'') (map node_log fs) = map node_log (filter (\<lambda>f. fst f = n) fs)"
proof -
  have digits: "list_all is_digit (dec k)" for k by (simp add: list_all_iff dec_digits)
  have own: "prefix (''node'' @ dec_int (int n) @ ''_'') (node_log f) \<longleftrightarrow> fst f = n" for f
    using same_start [OF digits digits, of n "fst f" "snd f @ ''.log''"]
    by (simp add: node_log_def log_name_def dec_int_def eq_commute)
  have ext: "suffix ''.log'' (node_log f)" for f
    by (simp add: node_log_def log_name_def suffix_def)
  have len: "length (''node'' @ dec_int (int n) @ ''_'') + 4 \<le> length (node_log f)" if "fst f = n" for f
    using that by (simp add: node_log_def log_name_def dec_int_def)
  show ?thesis using own ext len
    by (auto simp: glob_logs_def filter_map o_def intro!: arg_cong [where f = "map node_log"] filter_cong)
qed

lemma append_le_iff: "(xs :: string) @ ys \<le> xs @ zs \<longleftrightarrow> ys \<le> zs"
  by (induction xs) auto

lemma less_append_same: "length xs = length ys \<Longrightarrow> (xs :: string) @ zs \<le> ys @ zs \<longleftrightarrow> xs \<le> ys"
proof (induction xs ys rule: list_induct2)
  case (Cons x xs y ys)
  then show ?case by (simp add: less_le_not_le)
qed simp

lemma last_sort:
  assumes "x \<in> set xs" and "\<forall>y \<in> set xs. y \<le> x"
  shows "last (sort xs) = x"
proof -
  have "sort xs \<noteq> []" using assms(1) by (metis length_pos_if_in_set length_sort length_greater_0_conv)
  then have e: "sort xs = butlast (sort xs) @ [last (sort xs)]" by simp
  have "sorted (butlast (sort xs) @ [last (sort xs)])" using e by (metis sorted_sort)
  then have "\<forall>y \<in> set (sort xs). y \<le> last (sort xs)"
    by (subst e) (auto simp: sorted_append)
  then have "x \<le> last (sort xs)" using assms(1) by simp
  moreover have "last (sort xs) \<in> set xs" using \<open>sort xs \<noteq> []\<close> last_in_set by fastforce
  ultimately show ?thesis using assms(2) by (simp add: order.antisym)
qed

text \<open>
  A node searches its own latest log: among the logs of any numbered nodes, named and time
  stamped as \<open>main\<close> does, a query on node \<open>n\<close> runs \<open>grep\<close> on the one of node \<open>n\<close> with the
  greatest stamp (\<open>node1\<close> never reads a log of \<open>node10\<close>), and returns what it prints.
\<close>

theorem query_reads_own_log:
  assumes "n < 2 ^ 63" and "\<forall>f \<in> set fs. length (snd f) = 15"
    and "(n, ts) \<in> set fs" and "\<forall>t. (n, t) \<in> set fs \<longrightarrow> t \<le> ts"
  shows "find_log (int n) (map node_log fs) = Some (node_log (n, ts))
    \<and> (run (grepArgs @ [''logs/'' @ node_log (n, ts)]) = (Exited 0, output) \<longrightarrow>
         Query run (''node'' @ dec n) (map node_log fs) grepArgs = Inr output)"
proof -
  let ?own = "map node_log (filter (\<lambda>f. fst f = n) fs)"
  have le: "node_log (n, t) \<le> node_log (n, ts)" if "(n, t) \<in> set fs" for t
  proof -
    have "length t = length ts" using bspec [OF assms(2) that] bspec [OF assms(2,3)] by simp
    then show ?thesis using that assms(4)
      by (simp add: node_log_def log_name_def append_le_iff less_append_same)
  qed
  have "last (sort ?own) = node_log (n, ts)"
    using assms(3) le by (intro last_sort) force+
  moreover have "?own \<noteq> []" using assms(3) by (force simp: filter_empty_conv)
  ultimately have "find_log (int n) (map node_log fs) = Some (node_log (n, ts))"
    by (simp add: find_log_def glob_node_logs [simplified] glob_node_logs Let_def del: append_Cons append.simps)
  then show ?thesis using getMachineNumber_node [OF assms(1)] by (simp add: Query_def)
qed

theorem query_reads_own_log_witness:
  "Query (\<lambda>args. if last args = ''logs/node1_20251203_140000.log'' then (Exited 0, ''hit'') else (Exited 1, []))
     (''node'' @ dec 1)
     (map node_log [(1, ''20251203_130220''), (10, ''20251204_090000''), (1, ''20251203_140000'')]) [''x'']
   = Inr ''hit''"
proof -
  have d: "dec (Suc 0) = ''1''" by code_simp
  show ?thesis
    using query_reads_own_log [of 1
        "[(1, ''20251203_130220''), (10, ''20251204_090000''), (1, ''20251203_140000'')]" "''20251203_140000''"
        "\<lambda>args. if last args = ''logs/node1_20251203_140000.log'' then (Exited 0, ''hit'') else (Exited 1, [])"
        "[''x'']" "''hit''"]
    by (simp add: node_log_def log_name_def d)
qed

section \<open>A query and its answers\<close>

lemma split_as_lines:
  "list_all (\<lambda>l. CHR ''\<newline>'' \<notin> set l) ls \<Longrightarrow>
   split_on (CHR ''\<newline>'') (as_lines ls @ s) = ls @ split_on (CHR ''\<newline>'') s"
  by (induction ls) (auto simp: as_lines_def split_on_append)

lemma scan_as_lines:
  assumes "list_all (\<lambda>l. CHR ''\<newline>'' \<notin> set l \<and> CHR 0x0D \<notin> set l) ls"
  shows "scan_lines (as_lines ls) = ls"
proof -
  have "split_on (CHR ''\<newline>'') (as_lines ls) = ls @ [[]]"
    using split_as_lines [of ls "[]"] assms by (simp add: list_all_iff)
  moreover have "map drop_cr ls = ls"
    using assms by (intro map_idI drop_cr_id) (auto simp: list_all_iff)
  ultimately show ?thesis by (simp add: scan_lines_def)
qed

text \<open>Lines that a program may print: not empty, without line ends, and not the terminator.\<close>

definition printed_line :: "string \<Rightarrow> bool" where
  "printed_line l = (l \<noteq> [] \<and> CHR ''\<newline>'' \<notin> set l \<and> CHR 0x0D \<notin> set l \<and> l \<noteq> ''END_DGREP'')"

definition reply_bytes :: "client_resp list \<Rightarrow> bytes" where
  "reply_bytes rs = concat (map (\<lambda>r. case r of RespText s \<Rightarrow> write_resp s | RespReply _ \<Rightarrow> []) rs)"

text \<open>A node that answers the lines received on its client port.\<close>

definition served :: "client_env \<Rightarrow> HydfsNode \<Rightarrow> bytes \<Rightarrow> grep_reply" where
  "served c n s =
     Received (concat (map (\<lambda>l. case client_line c l n of (_, _, rs, _) \<Rightarrow> reply_bytes rs) (scan_lines s))) None"

lemma word_no_break: "is_word w \<Longrightarrow> CHR ''\<newline>'' \<notin> set w \<and> CHR 0x0D \<notin> set w"
  by (auto simp: is_word_def list_all_iff is_space_def)

lemma join_no_break:
  "list_all is_word ws \<Longrightarrow> CHR ''\<newline>'' \<notin> set (strings_join '' '' ws) \<and> CHR 0x0D \<notin> set (strings_join '' '' ws)"
  by (induction "'' ''" ws rule: strings_join.induct) (auto simp: word_no_break)

lemma command_arrives:
  assumes "list_all is_word args" and "args \<noteq> []"
  shows "scan_lines (dgrep_command args) = [strings_join '' '' (''dgrep_query'' # args)]"
    and "client_line c (strings_join '' '' (''dgrep_query'' # args)) n
      = (n, [], map RespText (dgrep_query (CeQueryText c) (CeQuery c) (''dgrep_query'' # args)), [])"
proof -
  have ws: "list_all is_word (''dgrep_query'' # args)"
    using assms(1) by (simp add: is_word_def is_ascii_def is_space_def)
  have "dgrep_command args = as_lines [strings_join '' '' (''dgrep_query'' # args)]"
    using assms(2) by (simp add: dgrep_command_def as_lines_def strings_join_Cons)
  then show "scan_lines (dgrep_command args) = [strings_join '' '' (''dgrep_query'' # args)]"
    using join_no_break [OF ws] scan_as_lines by simp
  have ne: "strings_join '' '' (''dgrep_query'' # args) \<noteq> []"
    using assms(2) by (simp add: strings_join_Cons)
  have "to_lower_ascii ''dgrep_query'' = ''dgrep_query''" by (simp add: to_lower_ascii_def Let_def)
  then show "client_line c (strings_join '' '' (''dgrep_query'' # args)) n
      = (n, [], map RespText (dgrep_query (CeQueryText c) (CeQuery c) (''dgrep_query'' # args)), [])"
    using ne ws by (simp add: client_line_def join_words_trimmed fields_join client_command_def Let_def
        del: strings_join.simps)
qed

lemma as_lines_append: "as_lines (xs @ ys) = as_lines xs @ as_lines ys"
  by (simp add: as_lines_def)

lemma served_answer:
  assumes "list_all is_word args" and "args \<noteq> []" and "CeQuery c args = Inr (as_lines found)"
  shows "served c n (dgrep_command args) = Received (as_lines (found @ [''END_DGREP''])) None"
proof -
  have "write_resp (as_lines found) = as_lines found" if "found \<noteq> []"
  proof -
    have "found = butlast found @ [last found]" using that by simp
    then have "as_lines found = as_lines (butlast found) @ last found @ ''\<newline>''"
      by (metis as_lines_append as_lines_def concat.simps list.map append_Nil2)
    then show ?thesis by (simp add: write_resp_def suffix_def)
  qed
  moreover have "write_resp ''END_DGREP'' = as_lines [''END_DGREP'']"
    by (simp add: write_resp_def suffix_def as_lines_def)
  moreover have "as_lines found = [] \<longleftrightarrow> found = []" by (cases found) (auto simp: as_lines_def)
  ultimately show ?thesis using assms(3) command_arrives [OF assms(1,2)] assms(2)
    by (cases "found = []")
      (simp_all add: served_def dgrep_query_def reply_bytes_def as_lines_append del: strings_join.simps)
qed

lemma printed_received:
  assumes "list_all printed_line found"
  shows "matched_lines (scan_lines (as_lines (found @ [''END_DGREP'']))) = found"
proof -
  have "list_all (\<lambda>l. CHR ''\<newline>'' \<notin> set l \<and> CHR 0x0D \<notin> set l) (found @ [''END_DGREP''])"
    using assms by (simp add: list_all_iff printed_line_def)
  moreover have "takeWhile (\<lambda>l. l \<noteq> ''END_DGREP'') (found @ [''END_DGREP'']) = found"
    using assms by (simp add: takeWhile_append list_all_iff printed_line_def)
  moreover have "filter (\<lambda>l. l \<noteq> []) found = found"
    using assms by (simp add: list_all_iff printed_line_def)
  ultimately show ?thesis using scan_as_lines by (simp add: matched_lines_def)
qed

lemma total_lines_mset:
  "total_lines rs = (\<Sum>r \<in># filter_mset (\<lambda>r. GrError r = None \<and> GrOutput r \<noteq> []) (mset rs). LineCount r)"
  by (simp add: total_lines_def sum_mset_sum_list flip: mset_filter mset_map)

lemma total_lines_sort: "total_lines (sort_key f rs) = total_lines rs"
  by (simp add: total_lines_mset)

lemma answered_sort: "length (filter answered_ok (sort_key f rs)) = length (filter answered_ok rs)"
  by (metis mset_filter mset_sort size_mset)

definition found_result :: "(string \<Rightarrow> string list) \<Rightarrow> string \<times> int \<Rightarrow> GrepResult" where
  "found_result found hn =
     \<lparr>GrHostname = fst hn, VMNumber = snd hn, GrOutput = as_lines (found (fst hn)), GrError = None,
      LineCount = length (found (fst hn))\<rparr>"

lemma total_found:
  "total_lines (map (found_result found) order) = sum_list (map (\<lambda>hn. length (found (fst hn))) order)"
  by (induction order) (auto simp: total_lines_def found_result_def as_lines_def)


definition sample_found :: "string \<Rightarrow> string list" where
  "sample_found h = (if h = ''node1'' then [''one'', ''two''] else [])"


section \<open>Appending on several nodes with the default ports\<close>

lemma set_strings_join_part: "v \<in> set vs \<Longrightarrow> set v \<subseteq> set (strings_join sep vs)"
  by (induction sep vs rule: strings_join.induct) auto

lemma split_on_subset: "v \<in> set (split_on c s) \<Longrightarrow> set v \<subseteq> set s"
  using set_strings_join_part [of v "split_on c s" "[c]"] by (simp add: join_split)

text \<open>What the node port sends back to the bytes of one connection, if anything.\<close>

definition node_port_answer ::
  "env \<Rightarrow> (string \<Rightarrow> node_input) \<Rightarrow> (node_reply \<Rightarrow> string) \<Rightarrow> HydfsNode \<Rightarrow> bytes \<Rightarrow> string option" where
  "node_port_answer e decode encode n s =
     (case node_connection e decode (scan_lines s) n of (_, _, replies, _, _) \<Rightarrow>
        case filter (\<lambda>r. r \<noteq> NoReply) replies of [] \<Rightarrow> None | r # _ \<Rightarrow> Some (encode r))"

lemma append_line_garbage:
  assumes "\<And>s. decode (''append '' @ s) = Undecodable"
    and "CHR ''\<newline>'' \<notin> set localFile" and "CHR ''\<newline>'' \<notin> set hydfsFile"
  shows "node_connection e decode (scan_lines (append_line localFile hydfsFile)) n = (n, [], [], [], None)"
proof -
  let ?x = "append_path localFile @ '' '' @ hydfsFile"
  have "CHR ''\<newline>'' \<notin> set (''append '' @ ?x)"
    using assms(2,3) by (simp add: append_path_def)
  then have "split_on (CHR ''\<newline>'') (''append '' @ ?x @ ''\<newline>'') = [''append '' @ ?x, []]"
    using split_on_append [of "CHR ''\<newline>''" "''append '' @ ?x" "[]"] by simp
  then have "scan_lines (append_line localFile hydfsFile) = [drop_cr (''append '' @ ?x)]"
    by (simp add: scan_lines_def append_line_def del: append_Cons)
  moreover have "decode (drop_cr (''append '' @ ?x)) = Undecodable"
  proof (cases "last (''append '' @ ?x) = CHR 0x0D")
    case True
    then have "drop_cr (''append '' @ ?x) = ''append '' @ butlast ?x"
      by (simp add: drop_cr_def butlast_append)
    then show ?thesis using assms(1) by simp
  next
    case False
    then have "drop_cr (''append '' @ ?x) = ''append '' @ ?x" by (simp add: drop_cr_def)
    then show ?thesis using assms(1) [of ?x] by simp
  qed
  ultimately show ?thesis by (intro node_connection_garbage) simp
qed

text \<open>
  C39. With the node port at 8000, as in the configuration of the repository, \<open>multiappend\<close>
  reaches the node ports, whose nodes read JSON and discard the commands: no append succeeds,
  and no command changes a node.
\<close>

theorem multiappend_never_succeeds:
  assumes "\<And>s. decode (''append '' @ s) = Undecodable"
    and "\<And>h s. CHR '':'' \<notin> set h \<Longrightarrow> tcp (h @ '':8000'') s = node_port_answer (e h) decode encode (node h) s"
    and "list_all (\<lambda>h. CHR '':'' \<notin> set h) (VMs cfg)" and "CHR '':'' \<notin> set vms"
    and "CHR ''\<newline>'' \<notin> set hydfsFile" and "CHR ''\<newline>'' \<notin> set files"
  shows "(case handleCLIMultiAppend (Inr cfg) tcp [''multiappend'', hydfsFile, vms, files] of
        MultiDone successCount _ \<Rightarrow> successCount = 0 | _ \<Rightarrow> True)
    \<and> (\<forall>h. \<forall>f \<in> set (split_on (CHR '','') files).
        node_connection (e h) decode (scan_lines (append_line f hydfsFile)) (node h) = (node h, [], [], [], None))"
proof -
  have f: "CHR ''\<newline>'' \<notin> set f" if "f \<in> set (split_on (CHR '','') files)" for f
    using split_on_subset [OF that] assms(6) by blast
  have host: "CHR '':'' \<notin> set h" if "append_target (VMs cfg) v = Target h" and "v \<in> set (split_on (CHR '','') vms)" for h v
  proof -
    have "h = v \<or> h \<in> set (VMs cfg)"
      using that(1) by (auto simp: append_target_def split: option.splits if_splits)
    then show ?thesis using split_on_subset [OF that(2)] assms(3,4) by (auto simp: list_all_iff)
  qed
  have garbage: "node_connection (e h) decode (scan_lines (append_line f hydfsFile)) (node h) = (node h, [], [], [], None)"
    if "f \<in> set (split_on (CHR '','') files)" for h f
    by (rule append_line_garbage [where decode = decode]) (use assms(1,5) f that in simp_all)
  have no: "\<not> append_at tcp hydfsFile t f"
    if "(t, f) \<in> set (zip (map (append_target (VMs cfg)) (split_on (CHR '','') vms)) (split_on (CHR '','') files))" for t f
  proof -
    have "f \<in> set (split_on (CHR '','') files)" and "t \<in> append_target (VMs cfg) ` set (split_on (CHR '','') vms)"
      using set_zip_rightD [OF that] set_zip_leftD [OF that] by simp_all
    then show ?thesis
      using host garbage
      by (auto simp: append_at_def append_address_def assms(2) node_port_answer_def split: append_target.splits)
  qed
  have "filter (\<lambda>(t, f). append_at tcp hydfsFile t f)
      (zip (map (append_target (VMs cfg)) (split_on (CHR '','') vms)) (split_on (CHR '','') files)) = []"
    using no by (auto simp: filter_empty_conv)
  then show ?thesis using garbage by (simp add: handleCLIMultiAppend_def Let_def)
qed

theorem multiappend_never_succeeds_witness:
  "\<forall>e n encode. (case handleCLIMultiAppend
       (Inr \<lparr>NodePort = 8000, ClientPort = 8003, MembershipPort = 8001, RainStormPort = 8002,
             Nodes = [''node1'', ''node2''], VMs = [''node1'', ''node2'']\<rparr>)
       (\<lambda>addr s. node_port_answer e (\<lambda>_. Undecodable) encode n s)
       [''multiappend'', ''f'', ''1,node2'', ''a,b''] of
     MultiDone successCount _ \<Rightarrow> successCount = 0 | _ \<Rightarrow> True)"
proof (intro allI)
  fix e n encode
  show "case handleCLIMultiAppend
       (Inr \<lparr>NodePort = 8000, ClientPort = 8003, MembershipPort = 8001, RainStormPort = 8002,
             Nodes = [''node1'', ''node2''], VMs = [''node1'', ''node2'']\<rparr>)
       (\<lambda>addr s. node_port_answer e (\<lambda>_. Undecodable) encode n s)
       [''multiappend'', ''f'', ''1,node2'', ''a,b''] of
     MultiDone successCount _ \<Rightarrow> successCount = 0 | _ \<Rightarrow> True"
    by (rule multiappend_never_succeeds [where decode = "\<lambda>_. Undecodable" and e = "\<lambda>_. e"
          and encode = encode and node = "\<lambda>_. n", THEN conjunct1]) simp_all
qed

end
