(* ===== verification/Job_Command.thy ===== *)
theory Job_Command
  imports Rs_Types
begin

text \<open>
  The job command \<open>RainStorm\<close> (\<open>cmd/cli/main.go\<close>): its arguments and the message sent to the
  leader.

  \<^item> \<open>args\<close> are the arguments after the program name; \<open>log.Fatal\<close> is a value of
    \<open>submit_error\<close>.
\<close>

section \<open>Arguments\<close>

datatype submit_error = TooFewArgs | BadStages int | NotEnoughArgs | OperatorsMissing nat

definition knownOps :: "string list" where
  "knownOps = [''grep'', ''count'', ''filter'', ''transform'', ''echo'', ''identity'', ''output'']"

definition looks_like_op :: "string \<Rightarrow> bool" where
  "looks_like_op arg = (arg \<in> set knownOps \<or> CHR ''/'' \<in> set arg)"

definition op_positions :: "nat \<Rightarrow> string list \<Rightarrow> nat list" where
  "op_positions nStages args =
     take nStages (filter (\<lambda>i. looks_like_op (args ! i)) [2..<length args - 7])"

definition args_between :: "string list \<Rightarrow> nat \<Rightarrow> nat \<Rightarrow> string list" where
  "args_between args a b = take (b - a) (drop a args)"

fun args_of_stages :: "string list \<Rightarrow> nat list \<Rightarrow> string list list" where
  "args_of_stages args [] = []"
| "args_of_stages args [p] = [args_between args (p + 1) (length args - 7)]"
| "args_of_stages args (p # q # ps) = args_between args (p + 1) q # args_of_stages args (q # ps)"

definition flag_set :: "string \<Rightarrow> bool" where
  "flag_set s = (s = ''true'' \<or> s = ''1'')"

definition job_payload :: "string \<Rightarrow> string list \<Rightarrow> submit_error + JobSubmitPayload" where
  "job_payload app args =
     (if length args < 8 then Inl TooFewArgs
      else
        let nStages = sscan_int (args ! 0) 0; nTasks = sscan_int (args ! 1) 0 in
        if nStages < 1 \<or> nStages > 3 then Inl (BadStages nStages)
        else if int (length args) < 2 + nStages + 7 then Inl NotEnoughArgs
        else
          let opPositions = op_positions (nat nStages) args;
              fixedParams = drop (length args - 7) args
          in if length opPositions \<noteq> nat nStages then Inl (OperatorsMissing (length opPositions))
             else Inr \<lparr>App = app, SrcFile = fixedParams ! 0, DestFile = fixedParams ! 1,
               NumTasks = nTasks, Stages = map (\<lambda>i. args ! i) opPositions,
               StageArgs = args_of_stages args opPositions, JobExactlyOnce = flag_set (fixedParams ! 2),
               AutoScale = flag_set (fixedParams ! 3), JobInputRate = sscan_int (fixedParams ! 4) 0,
               JobLowWatermark = sscan_int (fixedParams ! 5) 0,
               JobHighWatermark = sscan_int (fixedParams ! 6) 0\<rparr>)"

text \<open>Where the job is sent; without a configuration the port is 8002 and there are no nodes.\<close>

definition leader_address :: "config_error + Config \<Rightarrow> string" where
  "leader_address config =
     (case config of
        Inl err \<Rightarrow> join_host_port ''node1'' 8002
      | Inr cfg \<Rightarrow> join_host_port (case Nodes cfg of [] \<Rightarrow> ''node1'' | h # _ \<Rightarrow> h) (RainStormPort cfg))"

section \<open>A job survives its command line\<close>

text \<open>The command line of a job.\<close>

definition flag_text :: "bool \<Rightarrow> string" where
  "flag_text b = (if b then ''true'' else ''false'')"

definition stage_words :: "(string \<times> string list) list \<Rightarrow> string list" where
  "stage_words zs = concat (map (\<lambda>(op, as). op # as) zs)"

definition fixed_words :: "JobSubmitPayload \<Rightarrow> string list" where
  "fixed_words p = [SrcFile p, DestFile p, flag_text (JobExactlyOnce p), flag_text (AutoScale p),
     dec_int (JobInputRate p), dec_int (JobLowWatermark p), dec_int (JobHighWatermark p)]"

definition command_words :: "JobSubmitPayload \<Rightarrow> string list" where
  "command_words p =
     [dec (length (Stages p)), dec_int (NumTasks p)] @ stage_words (zip (Stages p) (StageArgs p)) @ fixed_words p"

fun starts :: "nat \<Rightarrow> (string \<times> string list) list \<Rightarrow> nat list" where
  "starts k [] = []"
| "starts k ((op, as) # zs) = k # starts (k + 1 + length as) zs"

lemma sscan_dec: "n < 2 ^ 63 \<Longrightarrow> sscan_int (dec n) old = int n"
proof -
  assume n: "n < 2 ^ 63"
  have d: "\<forall>c \<in> set (dec n). is_digit c" by (simp add: dec_digits)
  then obtain c cs where c: "dec n = c # cs" and dc: "is_digit c" by (cases "dec n") auto
  have tw: "takeWhile is_digit (dec n) = dec n" using d by (rule takeWhile_eq_all_conv [THEN iffD2])
  have nc: "\<not> sscan_blank c" "c \<noteq> CHR ''-''" "c \<noteq> CHR ''+''"
    using dc by (auto simp: is_digit_def sscan_blank_def)
  have u: "undec (c # cs) = n" using undec_dec [of n] c by simp
  have i: "int n < 2 ^ 63" using n by (metis of_nat_less_iff of_nat_numeral of_nat_power)
  have tw': "takeWhile is_digit (c # cs) = c # cs" using tw unfolding c .
  show ?thesis using nc u i
    by (simp add: sscan_int_def c Let_def tw' del: takeWhile.simps takeWhile_eq_all_conv)
qed

lemma sscan_dec_int: "0 \<le> i \<Longrightarrow> i < 2 ^ 63 \<Longrightarrow> sscan_int (dec_int i) old = i"
  using sscan_dec [of "nat i"] by (simp add: dec_int_def nat_less_iff)

lemma stage_words_simps [simp]:
  "stage_words [] = []" "stage_words ((op, as) # zs) = op # as @ stage_words zs"
  by (simp_all add: stage_words_def)

text \<open>Stages whose names look like operators, and whose arguments do not.\<close>

definition plain_stage :: "string \<times> string list \<Rightarrow> bool" where
  "plain_stage z = (looks_like_op (fst z) \<and> list_all (\<lambda>a. \<not> looks_like_op a) (snd z))"

lemma filter_starts:
  "list_all plain_stage zs \<Longrightarrow>
   filter (\<lambda>i. looks_like_op ((pre @ stage_words zs @ post) ! i))
     [length pre..<length pre + length (stage_words zs)] = starts (length pre) zs"
proof (induction zs arbitrary: pre)
  case (Cons z zs)
  obtain op as where z: "z = (op, as)" by force
  let ?k = "length pre" and ?all = "pre @ stage_words (z # zs) @ post"
  have pz: "plain_stage z" and zs: "list_all plain_stage zs" using Cons.prems by simp_all
  then have op: "looks_like_op op" and as: "list_all (\<lambda>a. \<not> looks_like_op a) as"
    by (simp_all add: z plain_stage_def)
  have split: "[k..<k + (1 + m + r)] = k # [k + 1..<k + 1 + m] @ [k + 1 + m..<k + 1 + m + r]" for k m r :: nat
    using upt_add_eq_append [of k "k + 1 + m" r] upt_conv_Cons [of k "k + 1 + m"] by (simp add: add.assoc)
  have cut: "[?k..<?k + length (stage_words (z # zs))]
      = ?k # [?k + 1..<?k + 1 + length as] @ [?k + 1 + length as..<?k + 1 + length as + length (stage_words zs)]"
    using split [of ?k "length as" "length (stage_words zs)"] by (simp only: z stage_words_simps length_Cons length_append) simp
  have "filter (\<lambda>i. looks_like_op (?all ! i)) [?k + 1..<?k + 1 + length as] = []"
    using as by (auto simp: z filter_empty_conv nth_append list_all_length nth_Cons')
  moreover have "filter (\<lambda>i. looks_like_op (?all ! i))
      [?k + 1 + length as..<?k + 1 + length as + length (stage_words zs)] = starts (?k + 1 + length as) zs"
    using Cons.IH [OF zs, of "pre @ op # as"] by (simp add: z add.assoc)
  moreover have "?all ! ?k = op" by (simp add: z)
  ultimately show ?case unfolding cut filter_append filter.simps using op by (simp add: z)
qed simp

lemma nth_starts: "map (\<lambda>i. (pre @ stage_words zs @ post) ! i) (starts (length pre) zs) = map fst zs"
proof (induction zs arbitrary: pre)
  case (Cons z zs)
  obtain op as where z: "z = (op, as)" by force
  show ?case using Cons.IH [of "pre @ op # as"] by (simp add: z add.assoc)
qed simp

lemma args_of_stages_starts:
  "length post = 7 \<Longrightarrow> args_of_stages (pre @ stage_words zs @ post) (starts (length pre) zs) = map snd zs"
proof (induction zs arbitrary: pre)
  case (Cons z zs)
  obtain op as where z: "z = (op, as)" by force
  have IH: "args_of_stages (pre @ stage_words (z # zs) @ post) (starts (length pre + 1 + length as) zs) = map snd zs"
    using Cons.IH [OF Cons.prems, of "pre @ op # as"] by (simp add: z add.assoc)
  show ?case
  proof (cases zs)
    case Nil
    then show ?thesis using Cons.prems by (simp add: z args_between_def)
  next
    case (Cons z' zs')
    obtain op' as' where z': "z' = (op', as')" by force
    then show ?thesis using IH Cons by (simp add: z args_between_def)
  qed
qed simp

text \<open>
  C28. A job survives its command line: the words written for a job with one to three stages,
  whose names look like operators and whose arguments do not, and numbers that fit, are read
  back as the same job.
\<close>

theorem job_command_roundtrip:
  assumes "1 \<le> length (Stages p)" and "length (Stages p) \<le> 3" and "length (StageArgs p) = length (Stages p)"
    and "list_all plain_stage (zip (Stages p) (StageArgs p))"
    and "list_all (\<lambda>i. 0 \<le> i \<and> i < 2 ^ 63) [NumTasks p, JobInputRate p, JobLowWatermark p, JobHighWatermark p]"
  shows "job_payload (App p) (command_words p) = Inr p"
proof -
  let ?zs = "zip (Stages p) (StageArgs p)" and ?n = "length (Stages p)"
  let ?pre = "[dec ?n, dec_int (NumTasks p)]" and ?args = "command_words p"
  have args: "?args = ?pre @ stage_words ?zs @ fixed_words p" by (simp add: command_words_def)
  have l7: "length (fixed_words p) = 7" by (simp add: fixed_words_def)
  have len: "length ?args = 2 + length (stage_words ?zs) + 7" unfolding args by (simp add: l7)
  have n: "sscan_int (dec ?n) 0 = int ?n" using assms(2) by (intro sscan_dec) simp
  have "length (starts k zs) = length zs" for k zs by (induction k zs rule: starts.induct) auto
  then have ls: "length (starts 2 ?zs) = ?n" using assms(3) by simp
  have "filter (\<lambda>i. looks_like_op (?args ! i)) [2..<2 + length (stage_words ?zs)] = starts 2 ?zs"
    using filter_starts [OF assms(4), of ?pre "fixed_words p"] unfolding args
    by (simp only: length_Cons list.size(3) numeral_2_eq_2)
  moreover have "length ?args - 7 = 2 + length (stage_words ?zs)" unfolding len by simp
  ultimately have pos: "op_positions ?n ?args = starts 2 ?zs"
    using ls by (simp only: op_positions_def) simp
  have "length zs \<le> length (stage_words zs)" for zs :: "(string \<times> string list) list"
    by (induction zs) (auto simp: stage_words_def)
  from this [of ?zs] have lw: "?n \<le> length (stage_words ?zs)" using assms(3) by simp
  have stages: "map (\<lambda>i. ?args ! i) (starts 2 ?zs) = Stages p" "args_of_stages ?args (starts 2 ?zs) = StageArgs p"
    using nth_starts [of ?pre ?zs "fixed_words p"] args_of_stages_starts [OF l7, of ?pre ?zs] assms(3)
    unfolding args by (simp_all only: length_Cons list.size(3) numeral_2_eq_2) simp_all
  have fixed: "drop (length ?args - 7) ?args = fixed_words p"
    unfolding len args using l7 by simp
  have hd2: "?args ! 0 = dec ?n" "?args ! 1 = dec_int (NumTasks p)" by (simp_all add: args)
  have ne: "Stages p \<noteq> []" using assms(1) by auto
  have big: "\<not> length ?args < 8" "\<not> int (length ?args) < 2 + int ?n + 7"
    using assms(1) lw by (simp_all add: len)
  have "job_payload (App p) ?args = Inr \<lparr>App = App p, SrcFile = fixed_words p ! 0,
      DestFile = fixed_words p ! 1, NumTasks = sscan_int (dec_int (NumTasks p)) 0, Stages = Stages p,
      StageArgs = StageArgs p, JobExactlyOnce = flag_set (fixed_words p ! 2),
      AutoScale = flag_set (fixed_words p ! 3), JobInputRate = sscan_int (fixed_words p ! 4) 0,
      JobLowWatermark = sscan_int (fixed_words p ! 5) 0, JobHighWatermark = sscan_int (fixed_words p ! 6) 0\<rparr>"
    using assms(1,2) big ls ne
    by (simp_all add: job_payload_def Let_def hd2 hd2 [unfolded One_nat_def] n pos stages fixed)
  also have "\<dots> = Inr p"
    using assms(5) by (simp add: fixed_words_def sscan_dec_int flag_set_def flag_text_def)
  finally show ?thesis .
qed

definition sample_job_command :: JobSubmitPayload where
  "sample_job_command = \<lparr>App = ''rainstorm-cli'', SrcFile = ''dataset1.csv'', DestFile = ''output.txt'',
     NumTasks = 3, Stages = [''grep'', ''count''], StageArgs = [[''--pattern=STOP'', ''--column=4''], []],
     JobExactlyOnce = True, AutoScale = False, JobInputRate = 100, JobLowWatermark = 10,
     JobHighWatermark = 50\<rparr>"

theorem job_command_roundtrip_witness:
  "job_payload ''rainstorm-cli'' (command_words sample_job_command) = Inr sample_job_command"
  using job_command_roundtrip [of sample_job_command]
  by (simp add: sample_job_command_def plain_stage_def looks_like_op_def knownOps_def)

text \<open>An argument that contains a slash is taken for the next operator, and the operator for its argument.\<close>

lemma slash_argument_taken:
  "job_payload ''r'' [''2'', ''3'', ''grep'', ''a/b'', ''count'', ''s'', ''d'', ''true'', ''false'', ''100'', ''10'', ''50'']
   = Inr \<lparr>App = ''r'', SrcFile = ''s'', DestFile = ''d'', NumTasks = 3, Stages = [''grep'', ''a/b''],
       StageArgs = [[], [''count'']], JobExactlyOnce = True, AutoScale = False, JobInputRate = 100,
       JobLowWatermark = 10, JobHighWatermark = 50\<rparr>"
  by code_simp

end
