(* ===== verification/Prompt.thy ===== *)
theory Prompt
  imports Node_Start Rs_Worker Job_Command
begin

text \<open>
  The interactive prompt (\<open>startInteractiveCLI\<close> and the \<open>handleCLI\<close> functions of \<open>main.go\<close>) and the
  RainStorm commands it sends to the leader, down to the signal on the worker
  (\<open>HandleKillTaskWorker\<close> in \<open>worker.go\<close>).

  \<^item> What a command prints is a value of \<open>prompt_reply\<close>; the fixed texts around it are left out.
  \<^item> \<open>askTasks addr\<close> is the leader's answer to \<open>list_tasks\<close>, \<open>None\<close> when there is none.
\<close>

section \<open>Commands for the leader\<close>

datatype leader_error = LoadConfigFailed config_error | NoVMs | LeaderUnreachable string

definition leader_of :: "config_error + Config \<Rightarrow> leader_error + string" where
  "leader_of config =
     (case config of
        Inl err \<Rightarrow> Inl (LoadConfigFailed err)
      | Inr cfg \<Rightarrow>
          if VMs cfg = [] then Inl NoVMs else Inr (join_host_port (hd (VMs cfg)) (RainStormPort cfg)))"

definition handleCLIListTasks ::
  "config_error + Config \<Rightarrow> (string \<Rightarrow> TaskInfo list option) \<Rightarrow> leader_error + TaskInfo list" where
  "handleCLIListTasks config askTasks =
     (case leader_of config of
        Inl err \<Rightarrow> Inl err
      | Inr addr \<Rightarrow> (case askTasks addr of None \<Rightarrow> Inl (LeaderUnreachable addr) | Some ts \<Rightarrow> Inr ts))"

datatype kill_result = KillUsage | InvalidPID string | KillNotSent leader_error | KillSent string rs_message

definition handleCLIKillTask :: "config_error + Config \<Rightarrow> (string \<Rightarrow> bool) \<Rightarrow> string list \<Rightarrow> kill_result" where
  "handleCLIKillTask config up parts =
     (if length parts < 3 then KillUsage
      else case atoi (parts ! 2) of
        None \<Rightarrow> InvalidPID (parts ! 2)
      | Some pid \<Rightarrow>
          (case leader_of config of
             Inl err \<Rightarrow> KillNotSent err
           | Inr addr \<Rightarrow>
               if up addr then KillSent addr (KillTask (parts ! 1) pid)
               else KillNotSent (LeaderUnreachable addr)))"

text \<open>
  The worker's end: the process that gets \<open>SIGKILL\<close>, and whether it is a task of the worker.
  \<open>TaskProcesses\<close> maps the tasks' process ids to whether a process was started. A process that
  is no task is signalled through the operating system.
\<close>

definition HandleKillTaskWorker :: "(int, bool) gomap \<Rightarrow> int \<Rightarrow> int \<times> bool" where
  "HandleKillTaskWorker taskProcesses pid =
     (case map_of taskProcesses pid of Some True \<Rightarrow> (pid, True) | _ \<Rightarrow> (pid, False))"

definition kill_at :: "Server \<Rightarrow> (int, bool) gomap \<Rightarrow> rs_message \<Rightarrow> (int \<times> bool) option" where
  "kill_at s taskProcesses msg =
     (case msg of
        KillTaskWorker pid \<Rightarrow>
          if Role s = ''worker'' then Some (HandleKillTaskWorker taskProcesses pid) else None
      | _ \<Rightarrow> None)"

section \<open>The prompt\<close>

datatype prompt_reply =
    PrNothing | PrUsage | PrTable string | PrIds "(string \<times> int \<times> u64) list" nat | PrSelf string
  | PrJoin bool | PrLeft | PrAlreadyLeft | PrCreated "string list" | PrGetLogged | PrAppended nat
  | PrMerged merge_result | PrNoReplicas | PrReplicas string u64 "(string \<times> u64 \<times> bool) list" | PrStored "(string \<times> nat) list"
  | PrFetched fetch_result | PrMulti multi_result | PrGrep dgrep_result | PrTasks "leader_error + TaskInfo list"
  | PrKill kill_result | PrHelp | PrExit | PrUnknown string

definition handleCLIListMem :: "(int \<Rightarrow> string) \<Rightarrow> HydfsNode \<Rightarrow> prompt_reply" where
  "handleCLIListMem fmtTime n = PrTable (Table fmtTime (NMembership (HNode n)))"

text \<open>The alive members by their ring ids, and how many they are.\<close>

definition handleCLIListMemIds :: "HydfsNode \<Rightarrow> prompt_reply" where
  "handleCLIListMemIds n = PrIds (list_mem_ids n) (length (list_mem_ids n))"

text \<open>The files of the node's own table, with their versions (no handler records blocks there).\<close>

definition handleCLIListStore :: "HydfsNode \<Rightarrow> (string \<times> nat) list" where
  "handleCLIListStore n = map (\<lambda>(f, md). (f, SmVersion md)) (FileStore n)"

definition handleCLIGet :: "client_env \<Rightarrow> string list \<Rightarrow> HydfsNode \<Rightarrow> outs" where
  "handleCLIGet c parts n =
     broadcastOperation (CeNode c) ''get'' (parts ! 1)
       (broadcast_data [(''localfile'', parts ! 2), (''client'', ''CLI'')]) n"

text \<open>\<open>fmtVersion\<close> writes a time by the second.\<close>

definition handleCLIListSelf :: "(int \<Rightarrow> string) \<Rightarrow> HydfsNode \<Rightarrow> string" where
  "handleCLIListSelf fmtVersion n =
     ''Ring ID:   '' @ ring_id (RingID (HNode n)) @ ''\<newline>''
     @ ''Hostname:  '' @ Hostname (self_info n) @ ''\<newline>''
     @ ''Port:      '' @ dec_int (Port (self_info n)) @ ''\<newline>''
     @ ''State:     '' @ stateName (State (self_info n)) @ ''\<newline>''
     @ ''Active:    '' @ (if IsActive (HNode n) then ''Yes (gossiping)'' else ''No (left cluster)'') @ ''\<newline>''
     @ ''Version:   '' @ fmtVersion (Version (self_info n)) @ ''\<newline>''"

definition handleCLILs :: "string list \<Rightarrow> HydfsNode \<Rightarrow> prompt_reply" where
  "handleCLILs parts n =
     (if length parts < 2 then PrUsage
      else if file_replicas n (parts ! 1) = [] then PrNoReplicas
      else PrReplicas (parts ! 1) (HashString (parts ! 1)) (ls_replicas (parts ! 1) n))"

record prompt_env =
  PrClient :: client_env
  PrPlainIo :: io
  PrArrive :: "(string \<times> int) list \<Rightarrow> (string \<times> int) list"
  PrGrepAsk :: "string \<Rightarrow> string \<Rightarrow> grep_reply"
  PrTcp :: "string \<Rightarrow> string \<Rightarrow> string option"
  PrAskTasks :: "string \<Rightarrow> TaskInfo list option"
  PrUp :: "string \<Rightarrow> bool"
  PrVersionFormat :: "int \<Rightarrow> string"

definition prompt_command ::
  "prompt_env \<Rightarrow> string list \<Rightarrow> HydfsNode \<Rightarrow> HydfsNode \<times> outs \<times> loop_out list \<times> prompt_reply" where
  "prompt_command p parts n =
     (let c = PrClient p; e = CeNode c; cmd = hd parts; show = (\<lambda>r. (n, [], [], r)) in
      if cmd = ''list_mem'' then show (handleCLIListMem (CeFormat c) n)
      else if cmd = ''list_mem_ids'' then show (handleCLIListMemIds n)
      else if cmd = ''list_self'' then show (PrSelf (handleCLIListSelf (PrVersionFormat p) n))
      else if cmd = ''join'' then
        (case handleCLIJoin (CeFormat c) (case CeConfig c of Inl _ \<Rightarrow> False | Inr _ \<Rightarrow> True) (CeTime c) (HNode n) of
           (h, started) \<Rightarrow> (n\<lparr>HNode := h\<rparr>, [], [], PrJoin started))
      else if cmd = ''leave'' then
        (case handleCLILeave (CeRng c) (CeTime c) (HNode n) of
           (h, udp) \<Rightarrow> (n\<lparr>HNode := h\<rparr>, [], udp, if IsActive (HNode n) then PrLeft else PrAlreadyLeft))
      else if cmd = ''create'' then
        (if length parts < 3 then show PrUsage
         else case handleCLICreate e (PrPlainIo p) (CeFiles c (parts ! 1)) (parts ! 2) n of
           (n1, os, replicas) \<Rightarrow> (n1, os, [], PrCreated replicas))
      else if cmd = ''get'' then
        (if length parts < 3 then show PrUsage else (n, handleCLIGet c parts n, [], PrGetLogged))
      else if cmd = ''append'' then
        (if length parts < 3 then show PrUsage
         else case handleCLIAppend e (ENow e) (CeFiles c (parts ! 1)) (parts ! 2) n of
           (os, k) \<Rightarrow> (n, os, [], PrAppended k))
      else if cmd = ''merge'' then
        (if length parts < 2 then show PrUsage
         else case handleCLIMerge e (CeRemovable c) (CeCollect c) (CeOrder c) (parts ! 1) n of
           (n1, os, r) \<Rightarrow> (n1, os, [], PrMerged r))
      else if cmd = ''ls'' then show (handleCLILs parts n)
      else if cmd = ''liststore'' then show (PrStored (handleCLIListStore n))
      else if cmd = ''getfromreplica'' then show (PrFetched (handleCLIGetFromReplica e (CeWritable c) parts n))
      else if cmd = ''multiappend'' then show (PrMulti (handleCLIMultiAppend (CeConfig c) (PrTcp p) parts))
      else if cmd = ''dgrep'' then show (PrGrep (handleCLIDgrep (PrArrive p) (PrGrepAsk p) (node_info n) parts))
      else if cmd = ''list_tasks'' then show (PrTasks (handleCLIListTasks (CeConfig c) (PrAskTasks p)))
      else if cmd = ''kill_task'' then show (PrKill (handleCLIKillTask (CeConfig c) (PrUp p) parts))
      else if cmd = ''help'' then show PrHelp
      else if cmd = ''quit'' \<or> cmd = ''exit'' then
        (case gracefulLeave (CeRng c) (CeTime c) (HNode n) of (h, udp) \<Rightarrow> (n\<lparr>HNode := h\<rparr>, [], udp, PrExit))
      else show (PrUnknown cmd))"

definition prompt_line ::
  "prompt_env \<Rightarrow> string \<Rightarrow> HydfsNode \<Rightarrow> HydfsNode \<times> outs \<times> loop_out list \<times> prompt_reply" where
  "prompt_line p text n =
     (if trim_space text = [] then (n, [], [], PrNothing)
      else prompt_command p (strings_fields (trim_space text)) n)"

section \<open>A kill command, from the prompt to the signal\<close>

text \<open>
  The leader forwards the kill to the named host, and a worker there signals the process.
\<close>

definition kill_path ::
  "config_error + Config \<Rightarrow> (string \<Rightarrow> bool) \<Rightarrow> rs_env \<Rightarrow> Server \<Rightarrow> (string \<Rightarrow> Server \<times> (int, bool) gomap) \<Rightarrow>
   string list \<Rightarrow> (string \<times> int \<times> bool) list" where
  "kill_path config up e leader workers parts =
     (case handleCLIKillTask config up parts of
        KillSent _ msg \<Rightarrow>
          (case handleConnection e msg leader of (_, outs, _) \<Rightarrow>
             concat (map (\<lambda>out. case out of
               OutKill addr pid \<Rightarrow>
                 (case workers addr of (w, procs) \<Rightarrow>
                    case kill_at w procs (KillTaskWorker pid) of
                      None \<Rightarrow> [] | Some (p, isTask) \<Rightarrow> [(addr, p, isTask)])
             | _ \<Rightarrow> []) outs))
      | _ \<Rightarrow> [])"

end
