(* ===== verification/Prompt_Props.thy ===== *)
theory Prompt_Props
  imports Prompt Rs_Restart
begin

text \<open>
  Properties of the commands of the prompt.
\<close>



end
