(* ===== verification/Spec2Isabelle.thy ===== *)
theory Spec2Isabelle
  imports Membership_Table Cluster Hydfs_Roundtrip Rs_Routing Rs_Monitor Rs_Exit Rs_Restart Rs_Pipeline Rs_Startup
    Fileops_Props Log_Query_Props Prompt_Props
begin

text \<open>
  Verification library of the distributed stream processor.

  The program is a cluster of equal nodes (\<open>main.go\<close>). Each keeps a membership table and gossips
  it over UDP; the table puts the nodes on a consistent-hash ring, which places the files of HyDFS,
  a replicated file system made of logs of blocks; RainStorm runs stream jobs on the nodes: the
  leader schedules tasks, source tasks read a file from HyDFS, operator processes pass tuples on by
  the hash of their keys and write their results and the ids they have processed to HyDFS. The
  nodes also search each other's log files, and are driven by a prompt, a client port and the
  command line of jobs.

  \<^bold>\<open>Conventions.\<close>
  \<^item> A Go map is an association list with distinct keys (\<open>gomap\<close>), whose order is the order of
    enumeration, so that a theorem for all lists holds for every order. A set is the list of its
    keys. Strings and contents are lists of bytes; runes and UTF-8 are decoded where the code
    does. Ring ids, hashes and checksums are words; \<open>int\<close> is an integer except where it wraps.
    Times are nanoseconds.
  \<^item> Errors are sums, one constructor for every return or exit; panics and \<open>log.Fatal\<close> are values.
  \<^item> Random numbers, the clock, files, the outcomes of reads, writes, dials and sends, and decoded
    messages are arguments. What a routine sends is part of its result.
  \<^item> A section that holds a mutex is one step; where the code releases it in between, there are two
    definitions (\<open>recv_check\<close>, \<open>recv_finish\<close>). Log output is left out, except the end of a run.

  \<^bold>\<open>Foundations.\<close>
  \<^item> \<open>Go_Prelude\<close>: maps, remainders, words, and the locales \<open>invariant_machine\<close> (every run keeps
    an invariant) and \<open>once_machine\<close> (an output occurs at most once), interpreted for the member
    table, the node, the routing table, the server and the end of a run.
  \<^item> \<open>Go_Text\<close>: the functions of \<open>strings\<close>, \<open>strconv\<close> and \<open>fmt\<close> that the program calls.
  \<^item> \<open>Sha\<close>: SHA-1 and SHA-256, used for ring ids (\<open>hashing/ring.go\<close>, \<open>member.go\<close>) and checksums.
  \<^item> \<open>Node_Config\<close>: \<open>common/config.go\<close>.

  \<^bold>\<open>Membership\<close> (\<open>pkg/membership\<close>).
  \<^item> \<open>Membership\<close>: the table of \<open>member.go\<close> and its operations. The members are the live
    entries, the round robin never leaves them (C13) and is fair (C32); a merge decides
    entry by entry (C14); silent members fail after the timeout and are removed later (C30).
  \<^item> \<open>Membership_Table\<close>: its renderings. \<open>Gossip_Swim\<close>: \<open>gossip.go\<close>, \<open>swim.go\<close>, \<open>flow.go\<close>.
  \<^item> \<open>Gossip_Loop\<close>: \<open>handleIncoming\<close>, \<open>startGossipLoop\<close>, join and leave of \<open>main.go\<close> (C34).
  \<^item> \<open>Cluster\<close>: all nodes and the datagrams between them, lost, delayed and repeated, as an inductive
    step relation; no table anywhere has a heartbeat that its owner did not send (C9).

  \<^bold>\<open>Placement and storage.\<close>
  \<^item> \<open>Ring\<close>: \<open>hashing/ring.go\<close> and the placement of the coordinator. The successors are the closest
    live nodes in ring order (C2), a failure moves one replica (C15), a file outlives two
    failures (C17). Both placements instantiate the locale \<open>ring_placement\<close>.
  \<^item> \<open>Blockstore\<close>, \<open>Blockstore_Log\<close>, \<open>Blockstore_Merge\<close>: \<open>pkg/storage\<close>. Files refine logs of blocks
    (C11, C21, with the locale \<open>append_log\<close>), a failed append changes nothing that can be
    read (C25), merged replicas agree (C5).
  \<^item> \<open>Fileops\<close>, \<open>Fileops_Props\<close>: \<open>pkg/fileops\<close>, blocks named by time and client, and read back in the
    order of their arrival.

  \<^bold>\<open>HyDFS\<close> (\<open>main.go\<close>).
  \<^item> \<open>Hydfs_Node\<close>: every message of \<open>handleNodeConnection\<close>. \<open>Hydfs_Client\<close>: create, get, append, merge
    of the client port and the prompt. \<open>Node_Start\<close>: \<open>main\<close>, the lines of the node port, the UDP
    reader.
  \<^item> \<open>Hydfs_Props\<close>: networks of nodes run by \<open>deliver\<close>, which takes the oldest message. A created file
    reaches three replicas and is acknowledged (C1; a chain has six messages with its
    acknowledgements, so a fuel of 6 leaves nothing in flight), a merge collects every
    block (C27), a re-replicated copy is doubled by the next merge (C36).
  \<^item> \<open>Hydfs_Roundtrip\<close>: what a client has created through the chain is what the other commands and
    the source tasks of RainStorm read, on every node with the same view of the ring (C8).

  \<^bold>\<open>RainStorm\<close> (\<open>pkg/rainstorm\<close>, \<open>ops\<close>).
  \<^item> \<open>Rs_Types\<close>: the records and the partitioning hash at 64 bits. \<open>Rs_Leader\<close>: submission, reports,
    restart, queries. \<open>Rs_Autoscale\<close>: decisions, adding and removing tasks. \<open>Rs_Worker\<close>: processes,
    reports, the source stream and the dispatch of messages. \<open>Rs_Operator\<close>: \<open>StartOperation\<close> by its
    critical sections, and the append worker. \<open>Rs_Connections\<close>: its connections as interleaved
    steps. \<open>Rs_Exit\<close>: its end. \<open>Rs_Ops\<close>: the six operators. \<open>Rs_Startup\<close>: the start of a process,
    metrics, the creation of the destination file. \<open>Rs_Monitor\<close>: the monitor of the stages between the
    other events of the server.
  \<^item> The leader: a run ends once (C22), when every task has reported (C18), and too early when a task
    crashes (C37); the routing table follows the tasks (C33); every decision to scale is
    within its bounds (\<open>Rs_Scaling\<close>), and so is all that the monitor decides (C20); the tables
    stay well formed under every message (C24).
  \<^item> The stream: the sources partition the lines (C26); a connection processes every id once (C10), and
    two of them need not (C38); when no id is in progress twice, any schedule of connections does what
    one connection would (C7); end markers stop a middle stage (C16); lines reach a sink
    exactly once although acknowledgements are lost (C6), and so do the counts of a whole job of
    grep and count over two such hops (C3). A job that copies a file prints
    its lines, whatever the schedule (C4). The tasks of a job start up in time (C19); a process that
    ends leaves behind what was queued, and less than it printed (C29).
  \<^item> Recovery: the state log gives a restarted task the ids it wrote (C12), but no operator state,
    and the next job finds the ids of the last one (C31).
  \<^item> The operators on their own: C35, and the fields that transform keeps.

  \<^bold>\<open>Commands.\<close>
  \<^item> \<open>Log_Query\<close>, \<open>Log_Query_Props\<close>: \<open>pkg/logging\<close>, the search of a node's own log, dgrep
    (C23), multiappend (C39).
  \<^item> \<open>Client_Commands\<close>: the client port. \<open>Prompt\<close>, \<open>Prompt_Props\<close>: the prompt (C40).
  \<^item> \<open>Job_Command\<close>: the command line of \<open>cmd/cli\<close> (C28).

  \<^bold>\<open>Bounds.\<close> They are the code's: 3 replicas, 64 waiting datagrams, 1000 lines in the channels of an
  operator, batches of 50, 10 attempts for a source tuple, 5 for an operator's, 10 dials with 22.5
  seconds of pauses. No loop of the code is cut short: those that are not structural have
  a termination proof, and a server or gossip loop is a step that is iterated over any list of events.

  \<^bold>\<open>Not modelled.\<close>
  \<^item> JSON, gob, sockets and deadlines: the standard library; messages arrive decoded.
  \<^item> grep and the regular expressions: outside programs and libraries, a parameter.
  \<^item> Goroutine schedules, beyond the orders that are explicit arguments or interleaved steps.
  \<^item> Log files, signals, listeners, banners and the help text of the prompt; \<open>internal/debuglog\<close>;
    \<open>collectAndMergeOutput\<close>, which only logs.
  \<^item> The scripts, plots, Spark programs and data of the repository.
\<close>

end
